(* ===== verification/Prelude.thy ===== *)
theory Prelude
  imports Main "HOL-Library.Word" "HOL-Library.Char_ord" "HOL-Library.List_Lexorder"
    "HOL-Library.Product_Lexorder" "HOL-Library.Monad_Syntax" "HOL-Library.Multiset" "HOL-Library.Code_Target_Numeral"
begin

text \<open>
  Shared vocabulary of the development: the machine types, the collections of simp and intro
  rules the component theories fill, checked indexing (a read outside a C++ vector is the value
  None), and the ordered map that models \<open>std::map\<close> and \<open>std::set\<close> with their iteration order.
\<close>

unbundle bit_operations_syntax

section \<open>Machine types and collections of facts\<close>

type_synonym u8 = "8 word"
type_synonym u32 = "32 word"
type_synonym u64 = "64 word"
type_synonym bytes = "8 word list"
type_synonym dbl = "64 word"
type_synonym flt = "32 word"

named_theorems frame_simps \<open>what an operation leaves unchanged\<close>
named_theorems inv_intros \<open>an operation keeps a component's invariant\<close>
named_theorems step_defs \<open>definitions of the steps of a component\<close>

section \<open>Checked access to vectors\<close>

definition nth_opt :: "'a list \<Rightarrow> int \<Rightarrow> 'a option" where
  "nth_opt xs i = (if 0 \<le> i \<and> i < int (length xs) then Some (xs ! nat i) else None)"

definition update_opt :: "'a list \<Rightarrow> int \<Rightarrow> 'a \<Rightarrow> 'a list option" where
  "update_opt xs i x = (if 0 \<le> i \<and> i < int (length xs) then Some (xs[nat i := x]) else None)"

definition erase_idx :: "nat \<Rightarrow> 'a list \<Rightarrow> 'a list" where
  "erase_idx i xs = take i xs @ drop (Suc i) xs"

fun find_idx :: "('a \<Rightarrow> bool) \<Rightarrow> 'a list \<Rightarrow> nat option" where
  "find_idx p [] = None"
| "find_idx p (x # xs) = (if p x then Some 0 else map_option Suc (find_idx p xs))"

lemma nth_opt_Some_iff:
  "nth_opt xs i = Some x \<longleftrightarrow> 0 \<le> i \<and> i < int (length xs) \<and> x = xs ! nat i"
  by (auto simp: nth_opt_def)

lemma nth_opt_inside [simp]: "0 \<le> i \<Longrightarrow> i < int (length xs) \<Longrightarrow> nth_opt xs i = Some (xs ! nat i)"
  by (simp add: nth_opt_def)

lemma nth_opt_None_iff: "nth_opt xs i = None \<longleftrightarrow> i < 0 \<or> int (length xs) \<le> i"
  by (auto simp: nth_opt_def)

lemma update_opt_inside [simp]:
  "0 \<le> i \<Longrightarrow> i < int (length xs) \<Longrightarrow> update_opt xs i x = Some (xs[nat i := x])"
  by (simp add: update_opt_def)

lemma update_opt_length: "update_opt xs i x = Some ys \<Longrightarrow> length ys = length xs"
  by (auto simp: update_opt_def split: if_splits)

lemma map_update_same: "g y = g (xs ! i) \<Longrightarrow> map g (xs[i := y]) = map g xs"
proof (rule nth_equalityI)
  fix j
  assume g: "g y = g (xs ! i)" and "j < length (map g (xs[i := y]))"
  then show "map g (xs[i := y]) ! j = map g xs ! j" by (cases "j = i") simp_all
qed simp

lemma length_erase_idx: "i < length xs \<Longrightarrow> length (erase_idx i xs) = length xs - 1"
  by (simp add: erase_idx_def)

lemma set_erase_idx: "set (erase_idx i xs) \<subseteq> set xs"
  by (auto simp: erase_idx_def dest: in_set_takeD in_set_dropD)

lemma map_erase_idx: "map f (erase_idx i xs) = erase_idx i (map f xs)"
  by (simp add: erase_idx_def take_map drop_map)

lemma erase_idx_split: "i < length xs \<Longrightarrow> xs = take i xs @ xs ! i # drop (Suc i) xs"
  by (simp add: id_take_nth_drop)

lemma distinct_erase_idx: "distinct xs \<Longrightarrow> distinct (erase_idx i xs)"
  by (auto simp: erase_idx_def set_take_disj_set_drop_if_distinct)

lemma erase_idx_removes: "distinct xs \<Longrightarrow> i < length xs \<Longrightarrow> xs ! i \<notin> set (erase_idx i xs)"
proof -
  assume d: "distinct xs" and i: "i < length xs"
  from d have "distinct (take i xs @ xs ! i # drop (Suc i) xs)"
    using erase_idx_split [OF i] by simp
  then show ?thesis by (auto simp: erase_idx_def)
qed

lemma find_idx_Some:
  "find_idx p xs = Some i \<Longrightarrow> i < length xs \<and> p (xs ! i) \<and> (\<forall>j<i. \<not> p (xs ! j))"
proof (induction xs arbitrary: i)
  case Nil
  then show ?case by simp
next
  case (Cons x xs)
  show ?case
  proof (cases "p x")
    case True
    with Cons.prems show ?thesis by simp
  next
    case False
    with Cons.prems obtain k where k: "find_idx p xs = Some k" "i = Suc k" by auto
    from Cons.IH [OF k(1)] k(2) False show ?thesis
      by (auto simp: nth_Cons split: nat.splits)
  qed
qed

lemma find_idx_None: "find_idx p xs = None \<longleftrightarrow> (\<forall>x\<in>set xs. \<not> p x)"
  by (induction xs) auto

section \<open>Ordered maps\<close>

text \<open>
  A \<open>std::map\<close> is an association list with strictly increasing keys: \<open>omap_insert\<close> is
  \<open>insert_or_assign\<close> (also \<open>operator[]\<close> followed by an assignment), \<open>map_of\<close> is \<open>find\<close>,
  and iterating is reading the list. A \<open>std::set\<close> is the same with unit values.
\<close>

type_synonym ('k, 'v) omap = "('k \<times> 'v) list"

fun omap_insert :: "'k::linorder \<Rightarrow> 'v \<Rightarrow> ('k, 'v) omap \<Rightarrow> ('k, 'v) omap" where
  "omap_insert k v [] = [(k, v)]"
| "omap_insert k v ((k', v') # m) =
     (if k < k' then (k, v) # (k', v') # m
      else if k = k' then (k, v) # m
      else (k', v') # omap_insert k v m)"

definition omap_ok :: "('k::linorder, 'v) omap \<Rightarrow> bool" where
  "omap_ok m \<longleftrightarrow> sorted_wrt (<) (map fst m)"

definition omap_contains :: "('k, 'v) omap \<Rightarrow> 'k \<Rightarrow> bool" where
  "omap_contains m k \<longleftrightarrow> map_of m k \<noteq> None"

locale ordered_map =
  fixes insert_or_assign :: "'k::linorder \<Rightarrow> 'v \<Rightarrow> 'm \<Rightarrow> 'm"
    and find :: "'m \<Rightarrow> 'k \<Rightarrow> 'v option"
    and entries :: "'m \<Rightarrow> ('k \<times> 'v) list"
    and invar :: "'m \<Rightarrow> bool"
  assumes find_insert: "find (insert_or_assign k v m) = (find m)(k \<mapsto> v)"
    and find_entries: "invar m \<Longrightarrow> find m k = map_of (entries m) k"
    and sorted_entries: "invar m \<Longrightarrow> sorted_wrt (<) (map fst (entries m))"
    and invar_insert: "invar m \<Longrightarrow> invar (insert_or_assign k v m)"
begin

lemma find_insert_same [simp]: "find (insert_or_assign k v m) k = Some v"
  by (simp add: find_insert)

lemma find_insert_other: "k' \<noteq> k \<Longrightarrow> find (insert_or_assign k v m) k' = find m k'"
  by (simp add: find_insert)

lemma fold_insert_invar: "invar m \<Longrightarrow> invar (fold (\<lambda>(k, v). insert_or_assign k v) kvs m)"
  by (induction kvs arbitrary: m) (auto intro: invar_insert)

lemma distinct_keys: "invar m \<Longrightarrow> distinct (map fst (entries m))"
  using sorted_entries strict_sorted_iff by blast

lemma keys_dom: "invar m \<Longrightarrow> set (map fst (entries m)) = dom (find m)"
proof -
  assume "invar m"
  then have "find m = map_of (entries m)" by (simp add: find_entries fun_eq_iff)
  then show ?thesis by (simp add: dom_map_of_conv_image_fst)
qed

lemma size_insert:
  assumes "invar m"
  shows "length (entries (insert_or_assign k v m)) =
    (if find m k = None then Suc (length (entries m)) else length (entries m))"
proof -
  let ?m = "insert_or_assign k v m"
  have i: "invar ?m" using assms by (rule invar_insert)
  have len: "length (entries x) = card (dom (find x))" if "invar x" for x
    using distinct_card [OF distinct_keys [OF that]] keys_dom [OF that] by simp
  have fin: "finite (dom (find m))" using keys_dom [OF assms] by (metis List.finite_set)
  have "dom (find ?m) = insert k (dom (find m))" by (simp add: find_insert)
  then show ?thesis using fin len [OF i] len [OF assms]
    by (auto simp: card_insert_if insert_absorb domIff)
qed

end

lemma map_of_omap_insert [simp]: "map_of (omap_insert k v m) = (map_of m)(k \<mapsto> v)"
  by (induction k v m rule: omap_insert.induct) (auto simp: fun_eq_iff)

lemma fst_set_omap_insert: "fst ` set (omap_insert k v m) = insert k (fst ` set m)"
  by (induction k v m rule: omap_insert.induct) auto

lemma omap_ok_Nil [simp]: "omap_ok []"
  by (simp add: omap_ok_def)

lemma omap_ok_insert [inv_intros]: "omap_ok m \<Longrightarrow> omap_ok (omap_insert k v m)"
proof (induction k v m rule: omap_insert.induct)
  case (2 k v k' v' m)
  have "\<forall>y\<in>fst ` set (omap_insert k v m). k' < y" if "\<not> k < k'" "k \<noteq> k'"
    using that "2.prems" by (auto simp: fst_set_omap_insert omap_ok_def)
  with 2 show ?case by (auto simp: omap_ok_def)
qed (simp add: omap_ok_def)

interpretation omap: ordered_map omap_insert map_of "\<lambda>m. m" omap_ok
  by unfold_locales (auto simp: omap_ok_def intro: omap_ok_insert [unfolded omap_ok_def])

lemma set_omap_insert:
  "set (omap_insert k v m) \<subseteq> insert (k, v) (set m)"
  by (induction k v m rule: omap_insert.induct) auto

lemma omap_entry_iff: "omap_ok m \<Longrightarrow> (k, v) \<in> set m \<longleftrightarrow> map_of m k = Some v"
  using omap.distinct_keys [of m] by simp

section \<open>Results of calls that may throw\<close>

text \<open>A C++ exception carries its \<open>what()\<close> text.\<close>

datatype exn = Exn (what: string)

type_synonym 'a result = "exn + 'a"

fun bind_result :: "'a result \<Rightarrow> ('a \<Rightarrow> 'b result) \<Rightarrow> 'b result" where
  "bind_result (Inl e) f = Inl e"
| "bind_result (Inr a) f = f a"

lemma bind_result_Inr_iff:
  "bind_result r f = Inr b \<longleftrightarrow> (\<exists>a. r = Inr a \<and> f a = Inr b)"
  by (cases r) auto

lemma bind_result_cong [fundef_cong]:
  "r = r' \<Longrightarrow> (\<And>a. r' = Inr a \<Longrightarrow> f a = g a) \<Longrightarrow> bind_result r f = bind_result r' g"
  by (cases r') auto

text \<open>A procedure that changes a state and may throw, with what it did before the exception:
  sequencing and a loop over a range.\<close>

definition and_then :: "('s \<times> exn option) \<Rightarrow> ('s \<Rightarrow> 's \<times> exn option) \<Rightarrow> 's \<times> exn option" where
  "and_then r k = (case r of (s, None) \<Rightarrow> k s | (s, Some e) \<Rightarrow> (s, Some e))"

fun each :: "('a \<Rightarrow> 's \<Rightarrow> 's \<times> exn option) \<Rightarrow> 'a list \<Rightarrow> 's \<Rightarrow> 's \<times> exn option" where
  "each f [] s = (s, None)"
| "each f (x # xs) s = and_then (f x s) (each f xs)"

lemma each_keeps:
  "(\<And>x s. x \<in> set xs \<Longrightarrow> I s \<Longrightarrow> I (fst (f x s))) \<Longrightarrow> I s \<Longrightarrow> I (fst (each f xs s))"
proof (induction xs arbitrary: s)
  case (Cons x xs)
  obtain s1 e where f: "f x s = (s1, e)" by fastforce
  with Cons.prems have "I s1" by (metis fst_conv list.set_intros(1))
  with Cons f show ?case by (cases e) (auto simp: and_then_def)
qed simp

text \<open>A call that may also leave the defined behaviour of C++ (None).\<close>

type_synonym 'a outcome = "'a result option"

definition ret :: "'a \<Rightarrow> 'a outcome" where "ret a = Some (Inr a)"

definition throw :: "exn \<Rightarrow> 'a outcome" where "throw e = Some (Inl e)"

definition checked :: "'a option \<Rightarrow> 'a outcome" where "checked x = map_option Inr x"

definition bind_out :: "'a outcome \<Rightarrow> ('a \<Rightarrow> 'b outcome) \<Rightarrow> 'b outcome" where
  "bind_out r f = (case r of None \<Rightarrow> None | Some (Inl e) \<Rightarrow> Some (Inl e) | Some (Inr a) \<Rightarrow> f a)"

lemma bind_out_simps [simp]:
  "bind_out None f = None" "bind_out (Some (Inl e)) f = Some (Inl e)" "bind_out (Some (Inr a)) f = f a"
  "bind_out (ret a) f = f a" "bind_out (throw e) f = throw e" "bind_out (checked (Some a)) f = f a"
  by (simp_all add: bind_out_def ret_def throw_def checked_def)

lemma bind_out_None: "bind_out r f = None \<longleftrightarrow> r = None \<or> (\<exists>a. r = ret a \<and> f a = None)"
  by (auto simp: bind_out_def ret_def split: option.split sum.split)

lemma bind_out_ret: "bind_out r f = ret b \<longleftrightarrow> (\<exists>a. r = ret a \<and> f a = ret b)"
  by (auto simp: bind_out_def ret_def split: option.split sum.split)

lemma ret_simps [simp]: "ret a = ret b \<longleftrightarrow> a = b" "ret a \<noteq> throw e" "throw e \<noteq> ret a" "ret a \<noteq> None" "throw e \<noteq> None"
  "checked (Some a) = ret a" "checked None = None" "Some (Inr a) = ret b \<longleftrightarrow> a = b"
  by (auto simp: ret_def throw_def checked_def)

text \<open>The weakest precondition of an outcome: it is defined, and if it returns, \<open>P\<close> holds.\<close>

definition holds_out :: "('a \<Rightarrow> bool) \<Rightarrow> 'a outcome \<Rightarrow> bool" where
  "holds_out P r = (case r of None \<Rightarrow> False | Some (Inl _) \<Rightarrow> True | Some (Inr a) \<Rightarrow> P a)"

lemma holds_out_simps [simp]:
  "holds_out P (bind_out r f) = holds_out (\<lambda>a. holds_out P (f a)) r"
  "holds_out P (ret a) = P a" "holds_out P (throw e)" "holds_out P (checked x) = (\<exists>a. x = Some a \<and> P a)"
  "holds_out P (Some q) = (\<forall>a. q = Inr a \<longrightarrow> P a)" "\<not> holds_out P None"
  by (auto simp: holds_out_def bind_out_def ret_def throw_def checked_def split: option.split sum.split)

lemma holds_out_mono: "holds_out P r \<Longrightarrow> (\<And>a. P a \<Longrightarrow> Q a) \<Longrightarrow> holds_out Q r"
  by (auto simp: holds_out_def split: option.splits sum.splits)

lemma holds_out_iff: "holds_out P r \<longleftrightarrow> r \<noteq> None \<and> (\<forall>a. r = ret a \<longrightarrow> P a)"
  by (auto simp: holds_out_def ret_def split: option.splits sum.splits)

lemma find_idx_nth_opt: "find_idx p xs = Some k \<Longrightarrow> nth_opt xs (int k) = Some (xs ! k)"
  using find_idx_Some by fastforce

text \<open>The weakest precondition of a call that may leave the vectors.\<close>

definition holds :: "('a \<Rightarrow> bool) \<Rightarrow> 'a option \<Rightarrow> bool" where
  "holds P r = (case r of None \<Rightarrow> False | Some a \<Rightarrow> P a)"

lemma holds_simps [simp]:
  "holds P (Some a) = P a" "\<not> holds P None"
  "holds P (map_option f r) = holds (\<lambda>a. P (f a)) r"
  "holds P (Option.bind r g) = holds (\<lambda>a. holds P (g a)) r"
  by (auto simp: holds_def split: option.split bind_split)

lemma holds_mono: "holds P r \<Longrightarrow> (\<And>a. r = Some a \<Longrightarrow> P a \<Longrightarrow> Q a) \<Longrightarrow> holds Q r"
  by (auto simp: holds_def split: option.splits)

lemma holds_iff: "holds P r \<longleftrightarrow> (\<exists>a. r = Some a \<and> P a)"
  by (auto simp: holds_def split: option.splits)

lemma holds_nth_opt [simp]: "holds P (nth_opt xs i) \<longleftrightarrow> 0 \<le> i \<and> i < int (length xs) \<and> P (xs ! nat i)"
  by (auto simp: holds_def nth_opt_def)

section \<open>Transition systems\<close>

text \<open>
  A component driven by events is a set of initial states and a step relation; an invariant
  that holds initially and is kept by every step holds in every reachable state.
\<close>

locale safe_system =
  fixes initial :: "'s \<Rightarrow> bool" and step :: "'s \<Rightarrow> 's \<Rightarrow> bool" and inv :: "'s \<Rightarrow> bool"
  assumes inv_initial: "initial s \<Longrightarrow> inv s"
    and inv_step: "step s s' \<Longrightarrow> inv s \<Longrightarrow> inv s'"
begin

lemma inv_steps: "step\<^sup>*\<^sup>* s s' \<Longrightarrow> inv s \<Longrightarrow> inv s'"
  by (induction rule: rtranclp_induct) (auto intro: inv_step)

lemma inv_reachable: "initial s0 \<Longrightarrow> step\<^sup>*\<^sup>* s0 s \<Longrightarrow> inv s"
  using inv_steps inv_initial by blast

end

end
