(* ===== verification/Floats.thy ===== *)
theory Floats
  imports Prelude
begin

text \<open>
  The C++ types \<open>double\<close> and \<open>float\<close> as their IEEE-754 bit patterns (a \<open>std::bit_cast\<close> is
  then the identity), with the operations the program uses: comparisons, conversion from and
  to integers, addition, subtraction, multiplication and division, each the exact result
  rounded to nearest, ties to even. A result that is not a number is the canonical quiet NaN
  (the payload of a NaN is not modelled).
\<close>

section \<open>Unpacking and rounding\<close>

text \<open>\<open>Fin s m e\<close> stands for the number \<open>m * 2 ^ e\<close>, negated when \<open>s\<close> holds.\<close>

datatype fp = NaN | Inf bool | Fin bool nat int

definition f64_unpack :: "dbl \<Rightarrow> fp" where
  "f64_unpack w =
     (let n = unat w; s = (2 ^ 63 \<le> n); x = (n div 2 ^ 52) mod 2048; m = n mod 2 ^ 52
      in if x = 2047 then (if m = 0 then Inf s else NaN)
         else if x = 0 then Fin s m (-1074)
         else Fin s (m + 2 ^ 52) (int x - 1075))"

definition f32_unpack :: "flt \<Rightarrow> fp" where
  "f32_unpack w =
     (let n = unat w; s = (2 ^ 31 \<le> n); x = (n div 2 ^ 23) mod 256; m = n mod 2 ^ 23
      in if x = 255 then (if m = 0 then Inf s else NaN)
         else if x = 0 then Fin s m (-149)
         else Fin s (m + 2 ^ 23) (int x - 150))"

fun nbits :: "nat \<Rightarrow> nat" where
  "nbits n = (if n = 0 then 0 else Suc (nbits (n div 2)))"

declare nbits.simps [simp del]

definition round_shift :: "nat \<Rightarrow> nat \<Rightarrow> nat" where
  "round_shift m k =
     (if k = 0 then m
      else let q = m div 2 ^ k; r = m mod 2 ^ k; h = 2 ^ (k - 1)
           in if h < r \<or> (r = h \<and> odd q) then Suc q else q)"

text \<open>
  The magnitude bits of \<open>m * 2 ^ e\<close> in a format with \<open>p\<close> significand bits and least
  exponent \<open>emin\<close>: the exponent of the unit in the last place, plus the rounded
  significand, whose carry moves into the exponent field by itself.
\<close>

definition mag_bits :: "nat \<Rightarrow> int \<Rightarrow> nat \<Rightarrow> int \<Rightarrow> nat" where
  "mag_bits p emin m e =
     (if m = 0 then 0
      else let q = max emin (e + int (nbits m) - int p);
               sig = (if q \<le> e then m * 2 ^ nat (e - q) else round_shift m (nat (q - e)))
           in nat (q - emin) * 2 ^ (p - 1) + sig)"

definition f64_inf :: nat where "f64_inf = 2047 * 2 ^ 52"
definition f32_inf :: nat where "f32_inf = 255 * 2 ^ 23"

definition f64_pack :: "fp \<Rightarrow> dbl" where
  "f64_pack x =
     (case x of
        NaN \<Rightarrow> of_nat (f64_inf + 2 ^ 51)
      | Inf s \<Rightarrow> of_nat ((if s then 2 ^ 63 else 0) + f64_inf)
      | Fin s m e \<Rightarrow> of_nat ((if s then 2 ^ 63 else 0) + min f64_inf (mag_bits 53 (-1074) m e)))"

definition f32_pack :: "fp \<Rightarrow> flt" where
  "f32_pack x =
     (case x of
        NaN \<Rightarrow> of_nat (f32_inf + 2 ^ 22)
      | Inf s \<Rightarrow> of_nat ((if s then 2 ^ 31 else 0) + f32_inf)
      | Fin s m e \<Rightarrow> of_nat ((if s then 2 ^ 31 else 0) + min f32_inf (mag_bits 24 (-149) m e)))"

section \<open>Arithmetic\<close>

definition signed_fin :: "int \<Rightarrow> int \<Rightarrow> bool \<Rightarrow> fp" where
  "signed_fin v e zero_sign = (if v = 0 then Fin zero_sign 0 e else Fin (v < 0) (nat \<bar>v\<bar>) e)"

fun fp_mul :: "fp \<Rightarrow> fp \<Rightarrow> fp" where
  "fp_mul (Fin s m e) (Fin s' m' e') = Fin (s \<noteq> s') (m * m') (e + e')"
| "fp_mul (Inf s) (Fin s' m' e') = (if m' = 0 then NaN else Inf (s \<noteq> s'))"
| "fp_mul (Fin s m e) (Inf s') = (if m = 0 then NaN else Inf (s \<noteq> s'))"
| "fp_mul (Inf s) (Inf s') = Inf (s \<noteq> s')"
| "fp_mul _ _ = NaN"

fun fp_add :: "fp \<Rightarrow> fp \<Rightarrow> fp" where
  "fp_add (Fin s m e) (Fin s' m' e') =
     (let q = min e e';
          a = (if s then -1 else 1) * int m * 2 ^ nat (e - q);
          b = (if s' then -1 else 1) * int m' * 2 ^ nat (e' - q)
      in signed_fin (a + b) q (s \<and> s'))"
| "fp_add (Inf s) (Fin _ _ _) = Inf s"
| "fp_add (Fin _ _ _) (Inf s) = Inf s"
| "fp_add (Inf s) (Inf s') = (if s = s' then Inf s else NaN)"
| "fp_add _ _ = NaN"

fun fp_neg :: "fp \<Rightarrow> fp" where
  "fp_neg NaN = NaN"
| "fp_neg (Inf s) = Inf (\<not> s)"
| "fp_neg (Fin s m e) = Fin (\<not> s) m e"

text \<open>
  The quotient of two significands with at least 64 bits and a last bit that says whether a
  remainder was cut off, which is enough to round it.
\<close>

fun fp_div :: "fp \<Rightarrow> fp \<Rightarrow> fp" where
  "fp_div (Fin s m e) (Fin s' m' e') =
     (if m' = 0 then (if m = 0 then NaN else Inf (s \<noteq> s'))
      else let k = 64 + nbits m'; n = m * 2 ^ k
           in Fin (s \<noteq> s') (2 * (n div m') + (if n mod m' = 0 then 0 else 1)) (e - e' - int k - 1))"
| "fp_div (Inf s) (Fin s' _ _) = Inf (s \<noteq> s')"
| "fp_div (Fin s _ _) (Inf s') = Fin (s \<noteq> s') 0 0"
| "fp_div _ _ = NaN"

definition f64_mul :: "dbl \<Rightarrow> dbl \<Rightarrow> dbl" where
  "f64_mul a b = f64_pack (fp_mul (f64_unpack a) (f64_unpack b))"

definition f64_add :: "dbl \<Rightarrow> dbl \<Rightarrow> dbl" where
  "f64_add a b = f64_pack (fp_add (f64_unpack a) (f64_unpack b))"

definition f64_sub :: "dbl \<Rightarrow> dbl \<Rightarrow> dbl" where
  "f64_sub a b = f64_pack (fp_add (f64_unpack a) (fp_neg (f64_unpack b)))"

definition f64_div :: "dbl \<Rightarrow> dbl \<Rightarrow> dbl" where
  "f64_div a b = f64_pack (fp_div (f64_unpack a) (f64_unpack b))"

section \<open>Conversions and comparisons\<close>

definition f64_of_int :: "int \<Rightarrow> dbl" where
  "f64_of_int i = f64_pack (Fin (i < 0) (nat \<bar>i\<bar>) 0)"

definition f64_of_u64 :: "u64 \<Rightarrow> dbl" where
  "f64_of_u64 w = f64_of_int (uint w)"

definition f64_of_f32 :: "flt \<Rightarrow> dbl" where
  "f64_of_f32 x = f64_pack (f32_unpack x)"

definition f32_of_f64 :: "dbl \<Rightarrow> flt" where
  "f32_of_f64 x = f32_pack (f64_unpack x)"

definition f64_pow2 :: "u64 \<Rightarrow> dbl" where
  \<comment> \<open>\<open>std::pow(2.0, n)\<close>, exact for an integer exponent\<close>
  "f64_pow2 n = (if 1024 \<le> uint n then f64_pack (Inf False) else f64_pack (Fin False 1 (uint n)))"

definition f64_zero :: dbl where "f64_zero = 0"
definition f64_one :: dbl where "f64_one = f64_of_int 1"

fun fp_lt :: "fp \<Rightarrow> fp \<Rightarrow> bool" where
  "fp_lt (Fin s m e) (Fin s' m' e') =
     (let q = min e e'
      in (if s then -1 else 1) * int m * 2 ^ nat (e - q)
         < (if s' then -1 else 1) * int m' * 2 ^ nat (e' - q))"
| "fp_lt (Inf s) (Fin _ _ _) = s"
| "fp_lt (Fin _ _ _) (Inf s) = (\<not> s)"
| "fp_lt (Inf s) (Inf s') = (s \<and> \<not> s')"
| "fp_lt _ _ = False"

fun fp_eq :: "fp \<Rightarrow> fp \<Rightarrow> bool" where
  "fp_eq (Fin s m e) (Fin s' m' e') =
     (let q = min e e'
      in (if s then -1 else 1) * int m * 2 ^ nat (e - q)
         = (if s' then -1 else 1) * int m' * 2 ^ nat (e' - q))"
| "fp_eq (Inf s) (Inf s') = (s = s')"
| "fp_eq _ _ = False"

definition f64_lt :: "dbl \<Rightarrow> dbl \<Rightarrow> bool" where
  "f64_lt a b = fp_lt (f64_unpack a) (f64_unpack b)"

definition f64_eq :: "dbl \<Rightarrow> dbl \<Rightarrow> bool" where
  "f64_eq a b = fp_eq (f64_unpack a) (f64_unpack b)"

definition f64_le :: "dbl \<Rightarrow> dbl \<Rightarrow> bool" where
  "f64_le a b = (f64_lt a b \<or> f64_eq a b)"

text \<open>\<open>std::clamp(v, lo, hi)\<close>.\<close>

definition f64_clamp :: "dbl \<Rightarrow> dbl \<Rightarrow> dbl \<Rightarrow> dbl" where
  "f64_clamp v lo hi = (if f64_lt v lo then lo else if f64_lt hi v then hi else v)"

text \<open>Conversion to an integer type cuts off the fraction; NaN, infinities and values outside the
  type are undefined behaviour, here None.\<close>

fun fp_trunc :: "fp \<Rightarrow> int option" where
  "fp_trunc (Fin s m e) =
     (let a = (if m = 0 then 0 else if 0 \<le> e then int m * 2 ^ nat e else int m div 2 ^ nat (- e)) in Some (if s then - a else a))"
| "fp_trunc _ = None"

definition f64_to_range :: "int \<Rightarrow> int \<Rightarrow> dbl \<Rightarrow> int option" where
  "f64_to_range lo hi v =
     (case fp_trunc (f64_unpack v) of None \<Rightarrow> None | Some i \<Rightarrow> if lo \<le> i \<and> i \<le> hi then Some i else None)"

definition f64_to_long :: "dbl \<Rightarrow> int option" where
  "f64_to_long v = f64_to_range (- (2 ^ 63)) (2 ^ 63 - 1) v"

definition f64_to_int :: "dbl \<Rightarrow> int option" where
  "f64_to_int v = f64_to_range (- (2 ^ 31)) (2 ^ 31 - 1) v"

text \<open>\<open>duration<double>(d).count()\<close> and \<open>duration<double, std::milli>(d).count()\<close> of nanoseconds.\<close>

definition seconds :: "int \<Rightarrow> dbl" where
  "seconds ns = f64_div (f64_of_int ns) (f64_of_int 1000000000)"

definition millis :: "int \<Rightarrow> dbl" where
  "millis ns = f64_div (f64_of_int ns) (f64_of_int 1000000)"

section \<open>Laws of the format\<close>

lemma nbits_0 [simp]: "nbits 0 = 0"
  by (subst nbits.simps) simp

lemma nbits_bounds: "0 < n \<Longrightarrow> 2 ^ (nbits n - 1) \<le> n \<and> n < 2 ^ nbits n"
proof (induction n rule: nbits.induct)
  case (1 n)
  show ?case
  proof (cases "n = 1")
    case True
    then show ?thesis by (simp add: nbits.simps [of "Suc 0"])
  next
    case False
    with 1 have h: "2 ^ (nbits (n div 2) - 1) \<le> n div 2 \<and> n div 2 < 2 ^ nbits (n div 2)"
      by simp
    have "0 < nbits (n div 2)" using "1.prems" False by (subst nbits.simps) simp
    then obtain k where k: "nbits (n div 2) = Suc k" using gr0_conv_Suc by blast
    have "nbits n = Suc (Suc k)" using k "1.prems" by (subst nbits.simps) simp
    with h k show ?thesis by auto
  qed
qed

lemma nbits_unique: "2 ^ k \<le> n \<Longrightarrow> n < 2 ^ Suc k \<Longrightarrow> nbits n = Suc k"
proof -
  assume a: "2 ^ k \<le> n" "n < 2 ^ Suc k"
  then have pos: "0 < n" by (metis gr0I not_less zero_less_numeral zero_less_power)
  note b = nbits_bounds [OF pos]
  from b a(1) have "(2::nat) ^ k < 2 ^ nbits n" by linarith
  then have "k < nbits n" by simp
  moreover from b a(2) have "(2::nat) ^ (nbits n - 1) < 2 ^ Suc k" by linarith
  then have "nbits n - 1 < Suc k" by (rule power_less_imp_less_exp [rotated]) simp
  ultimately show ?thesis by simp
qed

lemma nbits_le: "n < 2 ^ k \<Longrightarrow> nbits n \<le> k"
proof (cases "n = 0")
  case False
  assume "n < 2 ^ k"
  with nbits_bounds [of n] False have "(2::nat) ^ (nbits n - 1) < 2 ^ k" by linarith
  then have "nbits n - 1 < k" by (rule power_less_imp_less_exp [rotated]) simp
  then show ?thesis by simp
qed simp

lemma nbits_scale: "0 < n \<Longrightarrow> nbits (n * 2 ^ k) = nbits n + k"
proof -
  assume n: "0 < n"
  note b = nbits_bounds [OF n]
  have "nbits n \<noteq> 0" using n by (subst nbits.simps) simp
  then obtain j where j: "nbits n = Suc j" using not0_implies_Suc by blast
  have "2 ^ (j + k) \<le> n * 2 ^ k" and "n * 2 ^ k < 2 ^ Suc (j + k)"
    using b j by (auto simp: power_add)
  then show ?thesis using nbits_unique [of "j + k"] j by simp
qed

lemma round_shift_exact: "round_shift (m * 2 ^ k) k = m"
  by (simp add: round_shift_def Let_def)

lemma round_shift_scale: "0 < d \<Longrightarrow> round_shift (m * 2 ^ k) (d + k) = round_shift m d"
proof -
  assume d: "0 < d"
  have q: "m * 2 ^ k div 2 ^ (d + k) = m div 2 ^ d" by (simp add: power_add)
  have r: "m * 2 ^ k mod 2 ^ (d + k) = (m mod 2 ^ d) * 2 ^ k"
    by (simp add: power_add mult_mod_left)
  have h: "(2::nat) ^ (d + k - 1) = 2 ^ (d - 1) * 2 ^ k"
    using d by (simp flip: power_add)
  show ?thesis unfolding round_shift_def Let_def q r h using d by simp
qed

lemma mag_bits_scale: "mag_bits p emin (m * 2 ^ k) (e - int k) = mag_bits p emin m e"
proof (cases "m = 0")
  case False
  define q where "q = max emin (e + int (nbits m) - int p)"
  have nb: "nbits (m * 2 ^ k) = nbits m + k" using False nbits_scale by simp
  have q': "max emin (e - int k + int (nbits (m * 2 ^ k)) - int p) = q"
    unfolding nb q_def by simp
  have sig: "(if q \<le> e - int k then m * 2 ^ k * 2 ^ nat (e - int k - q)
      else round_shift (m * 2 ^ k) (nat (q - (e - int k))))
    = (if q \<le> e then m * 2 ^ nat (e - q) else round_shift m (nat (q - e)))"
  proof -
    consider "q \<le> e - int k" | "e - int k < q" "q \<le> e" | "e < q" by linarith
    then show ?thesis
    proof cases
      case 1
      then have "nat (e - q) = k + nat (e - int k - q)" by simp
      with 1 show ?thesis by (simp add: power_add)
    next
      case 2
      then have "k = nat (e - q) + nat (q - (e - int k))" by simp
      then have "m * 2 ^ k = (m * 2 ^ nat (e - q)) * 2 ^ nat (q - (e - int k))"
        by (metis mult.assoc power_add)
      with 2 show ?thesis by (simp only: round_shift_exact not_le [symmetric] if_False if_True)
    next
      case 3
      then have "nat (q - (e - int k)) = nat (q - e) + k" by simp
      with 3 show ?thesis by (simp add: round_shift_scale)
    qed
  qed
  show ?thesis unfolding mag_bits_def Let_def q' q_def [symmetric] sig using False by simp
qed (simp add: mag_bits_def)

lemma f64_pack_scale: "f64_pack (Fin s (m * 2 ^ k) (e - int k)) = f64_pack (Fin s m e)"
  by (simp add: f64_pack_def mag_bits_scale)

definition f64_finite :: "dbl \<Rightarrow> bool" where
  "f64_finite w \<longleftrightarrow> (unat w div 2 ^ 52) mod 2048 \<noteq> 2047"

lemma mag_bits_normal:
  assumes "2 ^ 52 \<le> m" "m < 2 ^ 53" "-1074 \<le> e"
  shows "mag_bits 53 (-1074) m e = nat (e + 1074) * 2 ^ 52 + m"
proof -
  have "nbits m = Suc 52" using assms nbits_unique [of 52 m] by simp
  then show ?thesis using assms by (auto simp: mag_bits_def Let_def max_def)
qed

lemma mag_bits_subnormal:
  assumes "m < 2 ^ 52"
  shows "mag_bits 53 (-1074) m (-1074) = m"
proof -
  have "nbits m \<le> 52" using assms by (rule nbits_le)
  then show ?thesis by (auto simp: mag_bits_def Let_def max_def)
qed

lemma unat_split: "unat (w :: dbl) =
   (if 2 ^ 63 \<le> unat w then 2 ^ 63 else 0) + ((unat w div 2 ^ 52) mod 2048) * 2 ^ 52 + unat w mod 2 ^ 52"
proof -
  define a where "a = unat w div 2 ^ 52"
  define r where "r = unat w mod 2 ^ 52"
  have w: "unat w = a * 2 ^ 52 + r" by (simp add: a_def r_def)
  have r: "r < 2 ^ 52" by (simp add: r_def)
  have "unat w < 2 ^ 64" using unsigned_less [of w] by simp
  with w have a: "a < 4096" by simp
  show ?thesis unfolding a_def [symmetric] r_def [symmetric]
  proof (cases "a < 2048")
    case True
    with w r have "unat w < 2 ^ 63" by simp
    with True w show "unat w = (if 2 ^ 63 \<le> unat w then 2 ^ 63 else 0) + a mod 2048 * 2 ^ 52 + r"
      by simp
  next
    case False
    then obtain b where b: "a = 2048 + b" using le_Suc_ex not_less by blast
    with a have "a mod 2048 = b" by simp
    moreover have "2 ^ 63 \<le> unat w" using w b by simp
    ultimately show "unat w = (if 2 ^ 63 \<le> unat w then 2 ^ 63 else 0) + a mod 2048 * 2 ^ 52 + r"
      using w b by simp
  qed
qed

lemma f64_pack_unpack: "f64_finite w \<Longrightarrow> f64_pack (f64_unpack w) = w"
proof -
  assume fin: "f64_finite w"
  define x where "x = (unat w div 2 ^ 52) mod 2048"
  define m where "m = unat w mod 2 ^ 52"
  have m: "m < 2 ^ 52" by (simp add: m_def)
  have x: "x < 2047" using fin by (simp add: f64_finite_def x_def)
  have w: "unat w = (if 2 ^ 63 \<le> unat w then 2 ^ 63 else 0) + (x * 2 ^ 52 + m)"
    using unat_split [of w] unfolding x_def m_def by simp
  have un: "f64_unpack w = (if x = 0 then Fin (2 ^ 63 \<le> unat w) m (-1074)
      else Fin (2 ^ 63 \<le> unat w) (m + 2 ^ 52) (int x - 1075))"
    using x by (simp add: f64_unpack_def Let_def x_def m_def)
  have mag: "f64_pack (f64_unpack w)
      = of_nat ((if 2 ^ 63 \<le> unat w then 2 ^ 63 else 0) + (x * 2 ^ 52 + m))"
  proof (cases "x = 0")
    case True
    then show ?thesis using m
      by (simp add: un f64_pack_def mag_bits_subnormal f64_inf_def min_def)
  next
    case False
    then have "mag_bits 53 (-1074) (m + 2 ^ 52) (int x - 1075) = x * 2 ^ 52 + m"
      using m mag_bits_normal [of "m + 2 ^ 52" "int x - 1075"]
      by (simp add: nat_diff_distrib' algebra_simps)
    moreover have "x * 2 ^ 52 + m \<le> f64_inf" using x m by (simp add: f64_inf_def)
    ultimately show ?thesis using False by (simp add: un f64_pack_def)
  qed
  show ?thesis unfolding mag w [symmetric] by simp
qed

text \<open>Integers below \<open>2 ^ 53\<close> are exact, and so are the operations that keep them.\<close>

lemma f64_pack_int_unpack:
  assumes "0 < n" "n < 2 ^ 53"
  shows "f64_unpack (f64_pack (Fin s n 0)) = Fin s (n * 2 ^ (53 - nbits n)) (int (nbits n) - 53)"
proof -
  define k where "k = 53 - nbits n"
  have L: "nbits n \<le> 53" using assms nbits_le by blast
  have nk: "nbits n + k = 53" using L by (simp add: k_def)
  let ?m = "n * 2 ^ k"
  have "nbits ?m = Suc 52" using nbits_scale [OF assms(1)] nk by simp
  with assms(1) have m: "2 ^ 52 \<le> ?m" "?m < 2 ^ 53"
    using nbits_bounds [of ?m] by simp_all
  define a where "a = ?m - 2 ^ 52"
  have a: "?m = 2 ^ 52 + a" "a < 2 ^ 52" using m by (simp_all add: a_def)
  have "f64_pack (Fin s n 0) = f64_pack (Fin s ?m (- int k))"
    using f64_pack_scale [of s n k 0] by simp
  moreover have "mag_bits 53 (-1074) ?m (- int k) = nat (1074 - int k) * 2 ^ 52 + ?m"
    using mag_bits_normal [OF m, of "- int k"] k_def by simp
  moreover have x: "nat (1074 - int k) * 2 ^ 52 + ?m = (1022 + nbits n) * 2 ^ 52 + a"
    using a(1) nk by (simp add: nat_diff_distrib' algebra_simps)
  ultimately have p: "f64_pack (Fin s n 0)
      = of_nat (((if s then 2048 else 0) + (1022 + nbits n)) * 2 ^ 52 + a)"
    using a(2) L by (simp add: f64_pack_def f64_inf_def)
  let ?c = "(if s then 2048 else 0) + (1022 + nbits n)"
  let ?b = "?c * 2 ^ 52 + a"
  have u: "unat (f64_pack (Fin s n 0)) = ?b"
    unfolding p unat_of_nat using a(2) L by (subst mod_less) simp_all
  have d: "?b div 2 ^ 52 = ?c" using a(2) by simp
  have d': "?b mod 2 ^ 52 = a" using a(2) by (simp only: mod_mult_self3 mod_less)
  have "(2048 + x) mod 2048 = x" if "x < 2048" for x :: nat using that by simp
  then have c: "?c mod 2048 = 1022 + nbits n" using L by (cases s) (simp_all only: if_True if_False, simp_all)
  have s: "2 ^ 63 \<le> ?b \<longleftrightarrow> s" using a(2) L by auto
  have "nbits n \<noteq> 0" using assms(1) by (subst nbits.simps) simp
  with L a(1) nk show ?thesis
    unfolding f64_unpack_def Let_def u d d' c s by (simp add: k_def not_le add.commute)
qed

lemma f64_of_nat_unpack:
  "0 < n \<Longrightarrow> n < 2 ^ 53 \<Longrightarrow>
    f64_unpack (f64_of_int (int n)) = Fin False (n * 2 ^ (53 - nbits n)) (int (nbits n) - 53)"
  using f64_pack_int_unpack [of n False] by (simp add: f64_of_int_def)

lemma f64_of_neg_unpack:
  "0 < n \<Longrightarrow> n < 2 ^ 53 \<Longrightarrow>
    f64_unpack (f64_of_int (- int n)) = Fin True (n * 2 ^ (53 - nbits n)) (int (nbits n) - 53)"
  using f64_pack_int_unpack [of n True] by (simp add: f64_of_int_def)

lemma f64_of_int_0 [simp]: "f64_of_int 0 = 0"
  by (simp add: f64_of_int_def f64_pack_def mag_bits_def)

lemma f64_unpack_0 [simp]: "f64_unpack 0 = Fin False 0 (-1074)"
  by (simp add: f64_unpack_def)

lemma f64_one_unpack: "f64_unpack f64_one = Fin False (2 ^ 52) (-52)"
proof -
  have "nbits 1 = Suc 0" using nbits_unique [of 0 1] by simp
  then show ?thesis using f64_of_nat_unpack [of 1] by (simp add: f64_one_def)
qed

lemma f64_unpack_Fin: "f64_finite w \<Longrightarrow> \<exists>s m e. f64_unpack w = Fin s m e \<and> -1074 \<le> e"
  by (auto simp: f64_unpack_def f64_finite_def Let_def)

lemma f64_mul_one: "f64_finite w \<Longrightarrow> f64_mul w f64_one = w"
proof -
  assume w: "f64_finite w"
  then obtain s m e where u: "f64_unpack w = Fin s m e" using f64_unpack_Fin by blast
  have "f64_mul w f64_one = f64_pack (Fin s (m * 2 ^ 52) (e - int 52))"
    by (simp add: f64_mul_def u f64_one_unpack)
  also have "\<dots> = w" unfolding f64_pack_scale u [symmetric] using w by (rule f64_pack_unpack)
  finally show ?thesis .
qed

lemma f64_add_zero: "f64_finite w \<Longrightarrow> \<not> f64_eq w 0 \<Longrightarrow> f64_add w 0 = w"
proof -
  assume w: "f64_finite w" and nz: "\<not> f64_eq w 0"
  obtain s m e where u: "f64_unpack w = Fin s m e" and e: "-1074 \<le> e"
    using f64_unpack_Fin [OF w] by blast
  have m: "0 < m" using nz by (cases "m = 0") (auto simp: f64_eq_def u)
  let ?k = "nat (e + 1074)"
  have "f64_add w 0 = f64_pack (signed_fin ((if s then -1 else 1) * int m * 2 ^ ?k) (-1074) False)"
    using e by (simp add: f64_add_def u Let_def min_def)
  also have "signed_fin ((if s then -1 else 1) * int m * 2 ^ ?k) (-1074) False
      = Fin s (m * 2 ^ ?k) (e - int ?k)"
    using m e by (auto simp: signed_fin_def abs_mult nat_mult_distrib nat_power_eq mult_less_0_iff)
  also have "f64_pack \<dots> = w" unfolding f64_pack_scale u [symmetric] using w by (rule f64_pack_unpack)
  finally show ?thesis .
qed

lemma f64_of_nat_finite: "n < 2 ^ 53 \<Longrightarrow> f64_finite (f64_of_int (int n))"
proof (cases "n = 0")
  case False
  assume "n < 2 ^ 53"
  with False have "f64_unpack (f64_of_int (int n)) = Fin False (n * 2 ^ (53 - nbits n)) (int (nbits n) - 53)"
    using f64_of_nat_unpack by simp
  then show ?thesis
    unfolding f64_finite_def by (auto simp: f64_unpack_def Let_def split: if_splits)
qed (simp add: f64_finite_def)

text \<open>The number a finite double stands for, scaled by \<open>2 ^ 1074\<close>, is an integer.\<close>

fun fp_scaled :: "fp \<Rightarrow> int" where
  "fp_scaled (Fin s m e) = (if s then -1 else 1) * int m * 2 ^ nat (e + 1074)"
| "fp_scaled _ = 0"

lemma scaled_cmp:
  assumes "q \<le> e" "-1074 \<le> q"
  shows "int m * 2 ^ nat (e + 1074) = int m * 2 ^ nat (e - q) * 2 ^ nat (q + 1074)"
proof -
  have "nat (e + 1074) = nat (e - q) + nat (q + 1074)" using assms by simp
  then show ?thesis by (simp add: power_add)
qed

lemma fp_cmp_scaled:
  assumes "-1074 \<le> e" "-1074 \<le> e'"
  shows "fp_lt (Fin s m e) (Fin s' m' e') \<longleftrightarrow> fp_scaled (Fin s m e) < fp_scaled (Fin s' m' e')"
    and "fp_eq (Fin s m e) (Fin s' m' e') \<longleftrightarrow> fp_scaled (Fin s m e) = fp_scaled (Fin s' m' e')"
proof -
  define q where "q = min e e'"
  have q: "q \<le> e" "q \<le> e'" "-1074 \<le> q" using assms by (auto simp: q_def)
  define a where "a = (if s then -1 else 1) * int m * 2 ^ nat (e - q)"
  define b where "b = (if s' then -1 else 1) * int m' * 2 ^ nat (e' - q)"
  have ab: "fp_scaled (Fin s m e) = a * 2 ^ nat (q + 1074)" "fp_scaled (Fin s' m' e') = b * 2 ^ nat (q + 1074)"
    using scaled_cmp [OF q(1,3), of m] scaled_cmp [OF q(2,3), of m'] by (auto simp: a_def b_def)
  have "fp_lt (Fin s m e) (Fin s' m' e') \<longleftrightarrow> a < b" "fp_eq (Fin s m e) (Fin s' m' e') \<longleftrightarrow> a = b"
    by (simp_all add: Let_def a_def b_def q_def)
  then show "fp_lt (Fin s m e) (Fin s' m' e') \<longleftrightarrow> fp_scaled (Fin s m e) < fp_scaled (Fin s' m' e')"
    and "fp_eq (Fin s m e) (Fin s' m' e') \<longleftrightarrow> fp_scaled (Fin s m e) = fp_scaled (Fin s' m' e')"
    unfolding ab by simp_all
qed

definition f64_scaled :: "dbl \<Rightarrow> int" where
  "f64_scaled w = fp_scaled (f64_unpack w)"

lemma f64_lt_scaled: "f64_finite a \<Longrightarrow> f64_finite b \<Longrightarrow> f64_lt a b \<longleftrightarrow> f64_scaled a < f64_scaled b"
  and f64_eq_scaled: "f64_finite a \<Longrightarrow> f64_finite b \<Longrightarrow> f64_eq a b \<longleftrightarrow> f64_scaled a = f64_scaled b"
  using f64_unpack_Fin [of a] f64_unpack_Fin [of b] fp_cmp_scaled
  by (auto simp: f64_lt_def f64_eq_def f64_scaled_def simp del: fp_scaled.simps fp_lt.simps fp_eq.simps)

lemma f64_scaled_of_nat: "n < 2 ^ 53 \<Longrightarrow> f64_scaled (f64_of_int (int n)) = int n * 2 ^ 1074"
proof (cases "n = 0")
  case False
  assume n: "n < 2 ^ 53"
  define k where "k = 53 - nbits n"
  have "nbits n \<le> 53" using n nbits_le by blast
  then have k: "int (nbits n) - 53 = - int k" "k \<le> 53" by (simp_all add: k_def)
  have "f64_scaled (f64_of_int (int n)) = int (n * 2 ^ k) * 2 ^ nat (- int k + 1074)"
    using f64_of_nat_unpack [of n] n False by (simp add: f64_scaled_def k_def [symmetric] k(1))
  also have "\<dots> = int n * (2 ^ k * 2 ^ nat (- int k + 1074))" by simp
  also have "(2::int) ^ k * 2 ^ nat (- int k + 1074) = 2 ^ (k + nat (- int k + 1074))"
    by (simp add: power_add)
  also have "k + nat (- int k + 1074) = 1074" using k(2) by linarith
  finally show ?thesis .
qed (simp add: f64_scaled_def)

lemma f64_lt_neg_zero: "0 < n \<Longrightarrow> n < 2 ^ 53 \<Longrightarrow> f64_lt (f64_of_int (- int n)) 0"
  by (simp add: f64_lt_def f64_of_neg_unpack Let_def)

lemma f64_pow2_eq: "n \<le> 52 \<Longrightarrow> f64_pow2 n = f64_of_int (int (2 ^ unat n))"
proof -
  assume "n \<le> 52"
  then have n: "uint n \<le> 52" by (simp add: word_le_def)
  have "f64_of_int (int (2 ^ unat n)) = f64_pack (Fin False (1 * 2 ^ unat n) (int (unat n) - int (unat n)))"
    by (simp add: f64_of_int_def nat_power_eq)
  also have "\<dots> = f64_pack (Fin False 1 (int (unat n)))" by (rule f64_pack_scale)
  finally show ?thesis using n by (simp add: f64_pow2_def)
qed

lemma f64_lt_of_nat:
  "a < 2 ^ 53 \<Longrightarrow> b < 2 ^ 53 \<Longrightarrow> f64_lt (f64_of_int (int a)) (f64_of_int (int b)) \<longleftrightarrow> a < b"
  by (simp add: f64_lt_scaled f64_of_nat_finite f64_scaled_of_nat del: power_numeral)

lemma f64_eq_of_nat:
  "a < 2 ^ 53 \<Longrightarrow> b < 2 ^ 53 \<Longrightarrow> f64_eq (f64_of_int (int a)) (f64_of_int (int b)) \<longleftrightarrow> a = b"
  by (simp add: f64_eq_scaled f64_of_nat_finite f64_scaled_of_nat del: power_numeral)

end
