(* ===== verification/TextFmt.thy ===== *)
theory TextFmt
  imports Floats
begin

text \<open>
  The pieces of the C++ string library the program uses, over byte strings: character classes
  of the C locale, decimal and hexadecimal formatting, substring search, and the conversions
  \<open>stoul\<close>, \<open>stol\<close> and \<open>stod\<close>, which read the longest numeric prefix and throw (here:
  None) when there is none or when it does not fit.
\<close>

section \<open>Characters\<close>

definition is_digit :: "char \<Rightarrow> bool" where
  "is_digit c \<longleftrightarrow> 48 \<le> (of_char c :: nat) \<and> (of_char c :: nat) \<le> 57"

definition is_upper :: "char \<Rightarrow> bool" where
  "is_upper c \<longleftrightarrow> 65 \<le> (of_char c :: nat) \<and> (of_char c :: nat) \<le> 90"

definition is_lower :: "char \<Rightarrow> bool" where
  "is_lower c \<longleftrightarrow> 97 \<le> (of_char c :: nat) \<and> (of_char c :: nat) \<le> 122"

definition is_alnum :: "char \<Rightarrow> bool" where
  "is_alnum c \<longleftrightarrow> is_digit c \<or> is_upper c \<or> is_lower c"

definition is_space :: "char \<Rightarrow> bool" where
  "is_space c \<longleftrightarrow> (of_char c :: nat) = 32 \<or> 9 \<le> (of_char c :: nat) \<and> (of_char c :: nat) \<le> 13"

definition tolower :: "char \<Rightarrow> char" where
  "tolower c = (if is_upper c then char_of ((of_char c :: nat) + 32) else c)"

lemma of_char_lt [simp]: "(of_char c :: nat) < 256"
  using of_char_mod_256 [of c, where ?'a = nat] by (metis mod_less_divisor zero_less_numeral)

lemma tolower_idem: "tolower (tolower c) = tolower c"
  by (auto simp: tolower_def is_upper_def)

section \<open>Numbers to text\<close>

fun digits_of :: "nat \<Rightarrow> nat \<Rightarrow> nat list" where
  "digits_of b n = (if b < 2 \<or> n < b then [n] else digits_of b (n div b) @ [n mod b])"

declare digits_of.simps [simp del]

definition digit_char :: "nat \<Rightarrow> char" where
  "digit_char d = (if d < 10 then char_of (48 + d) else char_of (55 + d))"

definition hex_upper :: "nat \<Rightarrow> string" where
  "hex_upper n = map digit_char (digits_of 16 n)"

definition dec_of_nat :: "nat \<Rightarrow> string" where
  "dec_of_nat n = map digit_char (digits_of 10 n)"

definition dec_of_int :: "int \<Rightarrow> string" where
  "dec_of_int i = (if i < 0 then CHR ''-'' # dec_of_nat (nat (- i)) else dec_of_nat (nat i))"

definition pad_left :: "nat \<Rightarrow> char \<Rightarrow> string \<Rightarrow> string" where
  "pad_left w c s = replicate (w - length s) c @ s"

definition pad_right :: "nat \<Rightarrow> char \<Rightarrow> string \<Rightarrow> string" where
  "pad_right w c s = s @ replicate (w - length s) c"

text \<open>\<open>std::format("{:03X}", n)\<close> and \<open>std::format("{:02X}", byte)\<close>.\<close>

definition fmt_03X :: "nat \<Rightarrow> string" where
  "fmt_03X n = pad_left 3 (CHR ''0'') (hex_upper n)"

definition fmt_02X :: "u8 \<Rightarrow> string" where
  "fmt_02X b = pad_left 2 (CHR ''0'') (hex_upper (unat b))"

definition bitset8 :: "u8 \<Rightarrow> string" where
  "bitset8 b = map (\<lambda>i. if bit b i then CHR ''1'' else CHR ''0'') [7, 6, 5, 4, 3, 2, 1, 0]"

section \<open>Searching\<close>

fun starts_with :: "string \<Rightarrow> string \<Rightarrow> bool" where
  "starts_with s [] = True"
| "starts_with [] (p # ps) = False"
| "starts_with (c # s) (p # ps) = (c = p \<and> starts_with s ps)"

fun contains_sub :: "string \<Rightarrow> string \<Rightarrow> bool" where
  "contains_sub [] q = (q = [])"
| "contains_sub (c # s) q = (starts_with (c # s) q \<or> contains_sub s q)"

definition ends_with :: "string \<Rightarrow> string \<Rightarrow> bool" where
  "ends_with s suf \<longleftrightarrow> length suf \<le> length s \<and> drop (length s - length suf) s = suf"

text \<open>\<open>s.find(c)\<close> with the text before and after the first \<open>c\<close>; None is \<open>npos\<close>.\<close>

definition split_first :: "char \<Rightarrow> string \<Rightarrow> (string \<times> string) option" where
  "split_first c s = (if c \<in> set s then Some (takeWhile (\<lambda>x. x \<noteq> c) s, tl (dropWhile (\<lambda>x. x \<noteq> c) s)) else None)"

lemma starts_with_iff: "starts_with s p \<longleftrightarrow> (\<exists>t. s = p @ t)"
  by (induction s p rule: starts_with.induct) auto

lemma contains_sub_prefix: "contains_sub (q @ v) q"
proof -
  have "starts_with (q @ v) q" by (simp add: starts_with_iff)
  then show ?thesis by (cases "q @ v"; cases q) auto
qed

lemma contains_sub_iff: "contains_sub s q \<longleftrightarrow> (\<exists>u v. s = u @ q @ v)"
proof (induction s)
  case (Cons c s)
  show ?case
  proof
    assume "contains_sub (c # s) q"
    then show "\<exists>u v. c # s = u @ q @ v"
      using Cons by (auto simp: starts_with_iff) (metis append_Cons append_Nil)+
  next
    assume "\<exists>u v. c # s = u @ q @ v"
    then obtain u v where "c # s = u @ q @ v" by blast
    then show "contains_sub (c # s) q"
      using Cons contains_sub_prefix [of q v] by (cases u) fastforce+
  qed
qed auto

lemma split_first_append: "c \<notin> set a \<Longrightarrow> split_first c (a @ c # b) = Some (a, b)"
  by (simp add: split_first_def takeWhile_append dropWhile_append)

section \<open>Text to numbers\<close>

definition digit_val :: "nat \<Rightarrow> char \<Rightarrow> nat option" where
  "digit_val b c =
     (let n = of_char c :: nat;
          d = (if is_digit c then n - 48 else if is_upper c then n - 55
               else if is_lower c then n - 87 else b)
      in if d < b then Some d else None)"

fun read_digits :: "nat \<Rightarrow> nat \<Rightarrow> string \<Rightarrow> nat \<times> nat \<times> string" where
  "read_digits b acc [] = (acc, 0, [])"
| "read_digits b acc (c # s) =
     (case digit_val b c of
        None \<Rightarrow> (acc, 0, c # s)
      | Some d \<Rightarrow> (let (v, k, r) = read_digits b (acc * b + d) s in (v, Suc k, r)))"

definition read_sign :: "string \<Rightarrow> bool \<times> string" where
  "read_sign s =
     (case s of [] \<Rightarrow> (False, [])
      | c # t \<Rightarrow> if c = CHR ''-'' then (True, t) else if c = CHR ''+'' then (False, t) else (False, s))"

text \<open>\<open>std::stoul(s, nullptr, 16)\<close> on a 64-bit \<open>unsigned long\<close>.\<close>

definition strip_0x :: "string \<Rightarrow> string" where
  "strip_0x s =
     (case s of
        z # x # d # r \<Rightarrow> if z = CHR ''0'' \<and> (x = CHR ''x'' \<or> x = CHR ''X'') \<and> digit_val 16 d \<noteq> None
                         then d # r else s
      | _ \<Rightarrow> s)"

definition stoul16 :: "string \<Rightarrow> u64 option" where
  "stoul16 s =
     (let (neg, t) = read_sign (dropWhile is_space s); (v, k, _) = read_digits 16 0 (strip_0x t)
      in if k = 0 \<or> 2 ^ 64 \<le> v then None
         else Some (if neg then - of_nat v else of_nat v))"

text \<open>\<open>std::stol(s)\<close> on a 64-bit \<open>long\<close>.\<close>

definition stol :: "string \<Rightarrow> int option" where
  "stol s =
     (let (neg, t) = read_sign (dropWhile is_space s); (v, k, _) = read_digits 10 0 t;
          i = (if neg then - int v else int v)
      in if k = 0 \<or> i < - (2 ^ 63) \<or> 2 ^ 63 \<le> i then None else Some i)"

text \<open>
  \<open>std::stod(s)\<close>: decimal digits with an optional point and exponent, or an infinity or NaN
  by name, rounded to nearest. It throws when the value overflows, or is too small to be a
  normal number and not exact.
\<close>

definition dbl_of_decimal :: "bool \<Rightarrow> nat \<Rightarrow> int \<Rightarrow> dbl option" where
  "dbl_of_decimal neg m x =
     (let q = (if 0 \<le> x then Fin neg (m * 10 ^ nat x) 0
               else fp_div (Fin neg m 0) (Fin False (10 ^ nat (- x)) 0));
          w = f64_pack q; mag = unat w mod 2 ^ 63
      in if f64_inf \<le> mag then None
         else if m \<noteq> 0 \<and> mag < 2 ^ 52 \<and> \<not> fp_eq (f64_unpack w) q then None
         else Some w)"

definition read_exponent :: "string \<Rightarrow> int" where
  "read_exponent s =
     (case s of
        c # t \<Rightarrow> if c = CHR ''e'' \<or> c = CHR ''E''
                 then (let (neg, u) = read_sign t; (v, k, _) = read_digits 10 0 u
                       in if k = 0 then 0 else if neg then - int v else int v)
                 else 0
      | [] \<Rightarrow> 0)"

definition stod :: "string \<Rightarrow> dbl option" where
  "stod s =
     (let (neg, t) = read_sign (dropWhile is_space s); l = map tolower t
      in if starts_with l ''inf'' then Some (f64_pack (Inf neg))
         else if starts_with l ''nan'' then Some (f64_pack NaN)
         else
           (let (v, k, r) = read_digits 10 0 t;
                (v', k', r') = (case r of c # r1 \<Rightarrow> if c = CHR ''.'' then read_digits 10 v r1 else (v, 0, r)
                                | [] \<Rightarrow> (v, 0, r))
            in if k + k' = 0 then None
               else dbl_of_decimal neg v' (read_exponent r' - int k')))"

lemma char_of_nat_val: "n < 256 \<Longrightarrow> (of_char (char_of n) :: nat) = n"
  by simp

lemma digit_val_char: "b \<le> 36 \<Longrightarrow> d < b \<Longrightarrow> digit_val b (digit_char d) = Some d"
  by (auto simp: digit_val_def digit_char_def is_digit_def is_upper_def Let_def)

lemma digits_of_bounded: "2 \<le> b \<Longrightarrow> \<forall>d\<in>set (digits_of b n). d < b"
  by (induction b n rule: digits_of.induct) (subst digits_of.simps, auto)

lemma digits_of_nonempty: "digits_of b n \<noteq> []"
  by (subst digits_of.simps) simp

lemma digits_of_value: "2 \<le> b \<Longrightarrow> foldl (\<lambda>a d. a * b + d) 0 (digits_of b n) = n"
proof (induction b n rule: digits_of.induct)
  case (1 b n)
  show ?case
  proof (cases "n < b")
    case True
    then show ?thesis by (subst digits_of.simps) simp
  next
    case False
    with 1 show ?thesis by (subst digits_of.simps) (simp add: mult.commute)
  qed
qed

lemma read_digits_map:
  assumes "b \<le> 36" "\<forall>d\<in>set ds. d < b" "r = [] \<or> digit_val b (hd r) = None"
  shows "read_digits b acc (map digit_char ds @ r) = (foldl (\<lambda>a d. a * b + d) acc ds, length ds, r)"
  using assms
proof (induction ds arbitrary: acc)
  case Nil
  then show ?case by (cases r) auto
next
  case (Cons d ds)
  then show ?case by (simp add: digit_val_char)
qed

lemma read_digits_zeros:
  "read_digits 16 0 (replicate n (CHR ''0'') @ s) =
     (let (v, k, r) = read_digits 16 0 s in (v, n + k, r))"
  by (induction n) (auto simp: digit_val_def is_digit_def split: prod.splits)

lemma read_hex_fmt_03X:
  "\<exists>k. read_digits 16 0 (fmt_03X n) = (n, Suc k, [])"
proof -
  have "read_digits 16 0 (hex_upper n) = (n, length (digits_of 16 n), [])"
    using read_digits_map [of 16 "digits_of 16 n" "[]" 0] digits_of_bounded [of 16 n] digits_of_value [of 16 n]
    by (simp add: hex_upper_def)
  moreover obtain j where "length (digits_of 16 n) = Suc j"
    using digits_of_nonempty [of 16 n] by (cases "digits_of 16 n") auto
  ultimately show ?thesis
    by (simp add: fmt_03X_def pad_left_def read_digits_zeros)
qed

end
