(* ===== verification/Frame.thy ===== *)
theory Frame
  imports TextFmt
begin

text \<open>
  \<open>src/frame\<close>: a received CAN frame with its decoded signals (\<open>CanFrame\<close>, \<open>DataFrame\<close>),
  and the per-interface set of the latest frame of every CAN id (\<open>DataFrameSet\<close>). Times are
  the nanosecond counts of \<open>system_clock\<close>.
\<close>

section \<open>Frames\<close>

record decoded_signal =
  ds_name :: string
  ds_value :: dbl
  ds_unit :: string
  ds_min_val :: dbl
  ds_max_val :: dbl

record can_header =
  hdr_id :: u32
  hdr_interface :: string
  hdr_dlc :: u8

record can_frame =
  fr_header :: can_header
  fr_payload :: bytes
  fr_decoded :: "decoded_signal list"
  fr_msg_name :: string
  fr_timestamp :: int

text \<open>The constructor takes the wall-clock time \<open>now\<close> as the default receive time.\<close>

definition mk_can_frame :: "int \<Rightarrow> can_header \<Rightarrow> bytes \<Rightarrow> can_frame" where
  "mk_can_frame now h payload =
     \<lparr>fr_header = h, fr_payload = payload, fr_decoded = [], fr_msg_name = [], fr_timestamp = now\<rparr>"

definition add_decoded :: "decoded_signal \<Rightarrow> can_frame \<Rightarrow> can_frame" where
  "add_decoded s f = f\<lparr>fr_decoded := fr_decoded f @ [s]\<rparr>"

definition set_msg_name :: "string \<Rightarrow> can_frame \<Rightarrow> can_frame" where
  "set_msg_name n f = f\<lparr>fr_msg_name := n\<rparr>"

definition set_timestamp :: "int \<Rightarrow> can_frame \<Rightarrow> can_frame" where
  "set_timestamp ts f = f\<lparr>fr_timestamp := ts\<rparr>"

lemma mk_can_frame_simps [simp]:
  "fr_header (mk_can_frame now h p) = h" "fr_payload (mk_can_frame now h p) = p"
  "fr_decoded (mk_can_frame now h p) = []" "fr_msg_name (mk_can_frame now h p) = []"
  "fr_timestamp (mk_can_frame now h p) = now"
  by (simp_all add: mk_can_frame_def)

lemma add_decoded_frame [simp, frame_simps]:
  "fr_header (add_decoded s f) = fr_header f" "fr_payload (add_decoded s f) = fr_payload f"
  "fr_msg_name (add_decoded s f) = fr_msg_name f" "fr_timestamp (add_decoded s f) = fr_timestamp f"
  "fr_decoded (add_decoded s f) = fr_decoded f @ [s]"
  by (simp_all add: add_decoded_def)

lemma set_msg_name_frame [simp, frame_simps]:
  "fr_header (set_msg_name n f) = fr_header f" "fr_payload (set_msg_name n f) = fr_payload f"
  "fr_decoded (set_msg_name n f) = fr_decoded f" "fr_timestamp (set_msg_name n f) = fr_timestamp f"
  "fr_msg_name (set_msg_name n f) = n"
  by (simp_all add: set_msg_name_def)

lemma fold_add_decoded [simp]:
  "fr_header (fold add_decoded ss f) = fr_header f"
  "fr_payload (fold add_decoded ss f) = fr_payload f"
  "fr_msg_name (fold add_decoded ss f) = fr_msg_name f"
  "fr_timestamp (fold add_decoded ss f) = fr_timestamp f"
  "fr_decoded (fold add_decoded ss f) = fr_decoded f @ ss"
  by (induction ss arbitrary: f) auto

text \<open>
  Printing: \<open>num\<close> is the stream's rendering of a double. The header line of a \<open>CanFrame\<close>
  replaces the \<open>DataFrame\<close> one.
\<close>

definition show_payload_bits :: "bytes \<Rightarrow> string" where
  "show_payload_bits p = concat (map (\<lambda>b. '' '' @ bitset8 b) p)"

definition show_decoded :: "(dbl \<Rightarrow> string) \<Rightarrow> decoded_signal list \<Rightarrow> string" where
  "show_decoded num ss = concat (map (\<lambda>s. CHR 0x0A # ''    '' @ ds_name s @ '': '' @ num (ds_value s) @ '' '' @ ds_unit s) ss)"

definition show_payload_and_decoded :: "(dbl \<Rightarrow> string) \<Rightarrow> can_frame \<Rightarrow> string" where
  "show_payload_and_decoded num f =
     ''  Payload ['' @ dec_of_nat (length (fr_payload f)) @ '']:'' @ show_payload_bits (fr_payload f)
     @ (if fr_decoded f = [] then [] else CHR 0x0A # ''  Decoded:'' @ show_decoded num (fr_decoded f))"

definition show_data_frame :: "(dbl \<Rightarrow> string) \<Rightarrow> can_frame \<Rightarrow> string" where
  "show_data_frame num f = ''DataFrame:'' @ CHR 0x0A # show_payload_and_decoded num f"

definition show_can_frame :: "(dbl \<Rightarrow> string) \<Rightarrow> can_frame \<Rightarrow> string" where
  "show_can_frame num f =
     ''CanFrame ['' @ hdr_interface (fr_header f) @ '']'' @ '' ID: 0x'' @ fmt_03X (unat (hdr_id (fr_header f)))
     @ '' DLC: '' @ dec_of_nat (unat (hdr_dlc (fr_header f))) @ CHR 0x0A # show_payload_and_decoded num f"

section \<open>The set of latest frames\<close>

record data_frame_set =
  dfs_interface :: string
  dfs_frames :: "(u32, can_frame) omap"
  dfs_deltas :: "(u32, int) omap"

definition mk_data_frame_set :: "string \<Rightarrow> data_frame_set" where
  "mk_data_frame_set iface = \<lparr>dfs_interface = iface, dfs_frames = [], dfs_deltas = []\<rparr>"

text \<open>A frame that could not be decoded keeps the signals of its predecessor.\<close>

definition dfs_merge :: "can_frame \<Rightarrow> can_frame \<Rightarrow> can_frame" where
  "dfs_merge old new =
     (let merged = fold add_decoded (fr_decoded old) new
      in if fr_msg_name merged = [] then set_msg_name (fr_msg_name old) merged else merged)"

definition dfs_update :: "can_frame \<Rightarrow> data_frame_set \<Rightarrow> data_frame_set" where
  "dfs_update frame s =
     (let cid = hdr_id (fr_header frame)
      in case map_of (dfs_frames s) cid of
           None \<Rightarrow> s\<lparr>dfs_frames := omap_insert cid frame (dfs_frames s)\<rparr>
         | Some old \<Rightarrow>
             (let s' = s\<lparr>dfs_deltas := omap_insert cid (fr_timestamp frame - fr_timestamp old) (dfs_deltas s)\<rparr>
              in if fr_decoded frame = [] \<and> fr_decoded old \<noteq> []
                 then s'\<lparr>dfs_frames := omap_insert cid (dfs_merge old frame) (dfs_frames s')\<rparr>
                 else s'\<lparr>dfs_frames := omap_insert cid frame (dfs_frames s')\<rparr>))"

definition dfs_size :: "data_frame_set \<Rightarrow> nat" where
  "dfs_size s = length (dfs_frames s)"

definition dfs_delta :: "data_frame_set \<Rightarrow> u32 \<Rightarrow> int option" where
  "dfs_delta s cid = map_of (dfs_deltas s) cid"

definition show_set_entry :: "(dbl \<Rightarrow> string) \<Rightarrow> u32 \<times> can_frame \<Rightarrow> string" where
  "show_set_entry num e =
     (case e of (cid, frame) \<Rightarrow>
        ''  0x'' @ fmt_03X (unat cid) @ '' | DLC:'' @ dec_of_nat (unat (hdr_dlc (fr_header frame))) @ '' |''
        @ show_payload_bits (fr_payload frame) @ show_decoded num (fr_decoded frame) @ [CHR 0x0A])"

definition show_data_frame_set :: "(dbl \<Rightarrow> string) \<Rightarrow> data_frame_set \<Rightarrow> string" where
  "show_data_frame_set num s =
     ''DataFrameSet ['' @ dfs_interface s @ ''] ('' @ dec_of_nat (dfs_size s) @ '' frames):'' @ CHR 0x0A
     # concat (map (show_set_entry num) (dfs_frames s))"

section \<open>What the set holds\<close>

definition dfs_ok :: "data_frame_set \<Rightarrow> bool" where
  "dfs_ok s \<longleftrightarrow> omap_ok (dfs_frames s) \<and> omap_ok (dfs_deltas s)
     \<and> (\<forall>(cid, f)\<in>set (dfs_frames s). hdr_id (fr_header f) = cid)
     \<and> fst ` set (dfs_deltas s) \<subseteq> fst ` set (dfs_frames s)"

definition dfs_run :: "can_frame list \<Rightarrow> data_frame_set \<Rightarrow> data_frame_set" where
  "dfs_run fs s = fold dfs_update fs s"

lemma dfs_merge_simps [simp]:
  "fr_header (dfs_merge old new) = fr_header new" "fr_payload (dfs_merge old new) = fr_payload new"
  "fr_timestamp (dfs_merge old new) = fr_timestamp new"
  "fr_decoded (dfs_merge old new) = fr_decoded new @ fr_decoded old"
  "fr_msg_name (dfs_merge old new) = (if fr_msg_name new = [] then fr_msg_name old else fr_msg_name new)"
  by (simp_all add: dfs_merge_def Let_def)

definition dfs_stored :: "can_frame option \<Rightarrow> can_frame \<Rightarrow> can_frame" where
  "dfs_stored old new =
     (case old of
        None \<Rightarrow> new
      | Some f \<Rightarrow> if fr_decoded new = [] \<and> fr_decoded f \<noteq> [] then dfs_merge f new else new)"

lemma dfs_stored_simps [simp]:
  "fr_header (dfs_stored old new) = fr_header new" "fr_payload (dfs_stored old new) = fr_payload new"
  "fr_timestamp (dfs_stored old new) = fr_timestamp new"
  by (simp_all add: dfs_stored_def split: option.split)

lemma dfs_update_interface [simp]: "dfs_interface (dfs_update f s) = dfs_interface s"
  by (simp add: dfs_update_def Let_def split: option.split)

lemma dfs_update_frames:
  "dfs_frames (dfs_update f s) =
     omap_insert (hdr_id (fr_header f)) (dfs_stored (map_of (dfs_frames s) (hdr_id (fr_header f))) f) (dfs_frames s)"
  by (simp add: dfs_update_def dfs_stored_def Let_def split: option.split)

lemma dfs_update_deltas:
  "dfs_deltas (dfs_update f s) =
     (case map_of (dfs_frames s) (hdr_id (fr_header f)) of
        None \<Rightarrow> dfs_deltas s
      | Some old \<Rightarrow> omap_insert (hdr_id (fr_header f)) (fr_timestamp f - fr_timestamp old) (dfs_deltas s))"
  by (simp add: dfs_update_def Let_def split: option.split)

lemma dfs_ok_empty: "dfs_ok (mk_data_frame_set iface)"
  by (simp add: dfs_ok_def mk_data_frame_set_def)

lemma dfs_ok_update [inv_intros]: "dfs_ok s \<Longrightarrow> dfs_ok (dfs_update f s)"
proof -
  assume ok: "dfs_ok s"
  let ?cid = "hdr_id (fr_header f)"
  have "\<forall>(i, g)\<in>set (dfs_frames (dfs_update f s)). hdr_id (fr_header g) = i"
    using ok set_omap_insert by (fastforce simp: dfs_update_frames dfs_ok_def)
  moreover have "fst ` set (dfs_deltas (dfs_update f s)) \<subseteq> fst ` set (dfs_frames (dfs_update f s))"
    using ok by (auto simp: dfs_update_frames dfs_update_deltas fst_set_omap_insert dfs_ok_def split: option.split)
  ultimately show ?thesis
    using ok by (auto simp: dfs_ok_def dfs_update_frames dfs_update_deltas intro!: omap_ok_insert split: option.split)
qed

lemma dfs_ok_run: "dfs_ok s \<Longrightarrow> dfs_ok (dfs_run fs s)"
  unfolding dfs_run_def by (induction fs arbitrary: s) (auto intro: inv_intros)

lemma dfs_run_snoc: "dfs_run (fs @ [f]) s = dfs_update f (dfs_run fs s)"
  by (simp add: dfs_run_def)

text \<open>
  The abstract contract: the history of an id, the last frame in it, and the signals of the
  last frame in it that carried any.
\<close>

definition of_id :: "u32 \<Rightarrow> can_frame list \<Rightarrow> can_frame list" where
  "of_id cid fs = filter (\<lambda>f. hdr_id (fr_header f) = cid) fs"

definition last_decoded :: "can_frame list \<Rightarrow> decoded_signal list" where
  "last_decoded fs = (let gs = filter (\<lambda>f. fr_decoded f \<noteq> []) fs in if gs = [] then [] else fr_decoded (last gs))"

lemma last_decoded_snoc:
  "last_decoded (fs @ [f]) = (if fr_decoded f = [] then last_decoded fs else fr_decoded f)"
  by (simp add: last_decoded_def Let_def)

lemma last_decoded_Nil [simp]: "last_decoded [] = []"
  by (simp add: last_decoded_def)

lemma of_id_snoc: "of_id cid (fs @ [f]) = of_id cid fs @ (if hdr_id (fr_header f) = cid then [f] else [])"
  by (simp add: of_id_def)

definition entry_matches :: "can_frame list \<Rightarrow> can_frame option \<Rightarrow> bool" where
  "entry_matches hist e \<longleftrightarrow>
     (case e of
        None \<Rightarrow> hist = []
      | Some g \<Rightarrow> hist \<noteq> [] \<and> fr_header g = fr_header (last hist) \<and> fr_payload g = fr_payload (last hist)
          \<and> fr_timestamp g = fr_timestamp (last hist) \<and> fr_decoded g = last_decoded hist)"

lemma entry_matches_stored:
  "entry_matches hist e \<Longrightarrow> entry_matches (hist @ [f]) (Some (dfs_stored e f))"
  by (auto simp: entry_matches_def dfs_stored_def last_decoded_snoc split: option.splits)

lemma dfs_run_entry:
  "entry_matches (of_id cid fs) (map_of (dfs_frames (dfs_run fs (mk_data_frame_set iface))) cid)"
proof (induction fs rule: rev_induct)
  case Nil
  then show ?case by (simp add: dfs_run_def mk_data_frame_set_def entry_matches_def of_id_def)
next
  case (snoc f fs)
  then show ?case
    by (auto simp: dfs_run_snoc of_id_snoc dfs_update_frames intro: entry_matches_stored)
qed

lemma dfs_run_delta_aux:
  "map_of (dfs_deltas (dfs_run fs (mk_data_frame_set iface))) cid =
     (case rev (of_id cid fs) of
        f # g # _ \<Rightarrow> Some (fr_timestamp f - fr_timestamp g) | _ \<Rightarrow> None)"
proof (induction fs rule: rev_induct)
  case Nil
  then show ?case by (simp add: dfs_run_def mk_data_frame_set_def of_id_def)
next
  case (snoc f fs)
  note e = dfs_run_entry [of cid fs iface]
  show ?case
  proof (cases "hdr_id (fr_header f) = cid")
    case True
    show ?thesis
    proof (cases "map_of (dfs_frames (dfs_run fs (mk_data_frame_set iface))) cid")
      case None
      with e True snoc show ?thesis
        by (simp add: entry_matches_def dfs_run_snoc of_id_snoc dfs_update_deltas)
    next
      case (Some old)
      with e have "of_id cid fs \<noteq> []" "fr_timestamp old = fr_timestamp (last (of_id cid fs))"
        by (simp_all add: entry_matches_def)
      then obtain hs g where "of_id cid fs = hs @ [g]" "fr_timestamp old = fr_timestamp g"
        by (metis append_butlast_last_id)
      with True Some show ?thesis by (simp add: dfs_run_snoc of_id_snoc dfs_update_deltas)
    qed
  next
    case False
    with snoc show ?thesis
      by (simp add: dfs_run_snoc of_id_snoc dfs_update_deltas split: option.split)
  qed
qed

section \<open>Properties\<close>

text \<open>C1: after any sequence of frames the set holds, for every CAN id seen, the header, payload
  and time of the last frame with that id together with the signals of the last frame of that
  id that was decoded (so an undecodable frame never blanks the view), and no entry for an id
  that was never seen.\<close>

theorem dfs_holds_latest:
  "entry_matches (of_id cid fs) (map_of (dfs_frames (dfs_run fs (mk_data_frame_set iface))) cid)"
  by (rule dfs_run_entry)

text \<open>The reported delta of an id is the time between its last two frames, and is absent
  exactly when fewer than two were received.\<close>

theorem dfs_delta_last_two:
  "dfs_delta (dfs_run fs (mk_data_frame_set iface)) cid =
     (case rev (of_id cid fs) of
        f # g # _ \<Rightarrow> Some (fr_timestamp f - fr_timestamp g) | _ \<Rightarrow> None)"
  by (simp add: dfs_delta_def dfs_run_delta_aux)

text \<open>The set is always a well-formed ordered map: ids strictly increasing, each frame filed
  under its own cid, deltas only for ids that have a frame.\<close>

theorem dfs_always_ok: "dfs_ok (dfs_run fs (mk_data_frame_set iface))"
  by (rule dfs_ok_run [OF dfs_ok_empty])

end
