(* ===== verification/Decoder.thy ===== *)
theory Decoder
  imports Frame
begin

text \<open>
  \<open>src/decoder\<close>: decoding a frame with the DBC of its interface. The dbcppp library is not
  part of the repository: a signal is the record of what the code asks it, with its four
  conversion functions (\<open>Decode\<close>, \<open>Encode\<close>, \<open>RawToPhys\<close>, \<open>PhysToRaw\<close>) as fields, a
  message is the record of its accessors, and loading a file is a function from the path to
  one of the three outcomes the code distinguishes.
\<close>

section \<open>What the code asks dbcppp\<close>

datatype ext_value_type = EVT_Float | EVT_Double | EVT_Other

record isignal =
  sg_name :: string
  sg_unit :: string
  sg_minimum :: dbl
  sg_maximum :: dbl
  sg_factor :: dbl
  sg_offset :: dbl
  sg_bit_size :: u64
  sg_start_bit :: u64
  sg_is_mux_value :: bool
  sg_mux_switch_value :: u64
  sg_value_type :: ext_value_type
  sg_decode :: "bytes \<Rightarrow> u64"
  sg_encode :: "u64 \<Rightarrow> bytes \<Rightarrow> bytes"
  sg_raw_to_phys :: "u64 \<Rightarrow> dbl"
  sg_phys_to_raw :: "dbl \<Rightarrow> u64"

record imessage =
  ms_id :: u64
  ms_name :: string
  ms_size :: nat
  ms_signals :: "isignal list"
  ms_mux_signal :: "isignal option"

type_synonym network = "imessage list"

datatype dbc_file = Dbc_unopenable | Dbc_unparsable | Dbc_network network

section \<open>DbcPppWrapper\<close>

type_synonym dbc_wrapper = "u64 \<rightharpoonup> imessage"

text \<open>\<open>unordered_map::emplace\<close> keeps the first message of an id.\<close>

definition index_messages :: "network \<Rightarrow> dbc_wrapper" where
  "index_messages net = fold (\<lambda>msg m. if m (ms_id msg) = None then m(ms_id msg \<mapsto> msg) else m) net Map.empty"

definition mk_dbc_wrapper :: "(string \<Rightarrow> dbc_file) \<Rightarrow> string \<Rightarrow> dbc_wrapper result" where
  "mk_dbc_wrapper load path =
     (case load path of
        Dbc_unopenable \<Rightarrow> Inl (Exn (''Failed to open DBC file: '' @ path))
      | Dbc_unparsable \<Rightarrow> Inl (Exn (''Failed to parse DBC file: '' @ path))
      | Dbc_network net \<Rightarrow> Inr (index_messages net))"

definition signal_active :: "isignal option \<Rightarrow> bytes \<Rightarrow> isignal \<Rightarrow> bool" where
  "signal_active mux raw sig =
     (\<not> (sg_is_mux_value sig \<and>
         (case mux of None \<Rightarrow> True | Some m \<Rightarrow> sg_decode m raw \<noteq> sg_mux_switch_value sig)))"

definition signal_y_max :: "isignal \<Rightarrow> dbl" where
  "signal_y_max sig =
     (if f64_eq (sg_minimum sig) 0 \<and> f64_eq (sg_maximum sig) 0 then f64_pow2 (sg_bit_size sig)
      else sg_maximum sig)"

definition signal_mask :: "isignal \<Rightarrow> u64" where
  "signal_mask sig = (if sg_bit_size sig < 64 then push_bit (unat (sg_bit_size sig)) 1 - 1 else NOT 0)"

definition signal_phys :: "isignal \<Rightarrow> u64 \<Rightarrow> dbl" where
  "signal_phys sig raw_decoded =
     (case sg_value_type sig of
        EVT_Float \<Rightarrow> f64_of_f32 (ucast raw_decoded)
      | EVT_Double \<Rightarrow> raw_decoded
      | EVT_Other \<Rightarrow>
          (let phys = sg_raw_to_phys sig raw_decoded; y_min = sg_minimum sig; y_max = signal_y_max sig
           in if f64_lt phys y_min \<and> f64_le 0 y_min \<and> f64_lt y_min y_max
              then f64_add (f64_mul (f64_of_u64 (raw_decoded AND signal_mask sig)) (sg_factor sig)) (sg_offset sig)
              else phys))"

definition decode_signal :: "bytes \<Rightarrow> isignal \<Rightarrow> decoded_signal" where
  "decode_signal raw sig =
     \<lparr>ds_name = sg_name sig, ds_value = signal_phys sig (sg_decode sig raw), ds_unit = sg_unit sig,
      ds_min_val = sg_minimum sig, ds_max_val = signal_y_max sig\<rparr>"

fun decode_signals :: "isignal option \<Rightarrow> isignal list \<Rightarrow> can_frame \<Rightarrow> can_frame" where
  "decode_signals mux [] frame = frame"
| "decode_signals mux (sig # sigs) frame =
     (if signal_active mux (fr_payload frame) sig
      then decode_signals mux sigs (add_decoded (decode_signal (fr_payload frame) sig) frame)
      else decode_signals mux sigs frame)"

definition dbc_decode :: "dbc_wrapper \<Rightarrow> can_frame \<Rightarrow> can_frame" where
  "dbc_decode messages frame =
     (case messages (ucast (hdr_id (fr_header frame))) of
        None \<Rightarrow> frame
      | Some msg \<Rightarrow>
          if length (fr_payload frame) < ms_size msg then frame
          else decode_signals (ms_mux_signal msg) (ms_signals msg) (set_msg_name (ms_name msg) frame))"

section \<open>DecoderRegistry\<close>

text \<open>
  The registry holds decoders by interface and dispatches through the abstract \<open>Decoder\<close>,
  whose one method is the parameter \<open>dec\<close>.
\<close>

type_synonym 'd registry = "string \<rightharpoonup> 'd"

definition registry_add :: "(string \<Rightarrow> dbc_file) \<Rightarrow> string \<Rightarrow> string \<Rightarrow> dbc_wrapper registry \<Rightarrow> dbc_wrapper registry result" where
  "registry_add load iface path reg =
     bind_result (mk_dbc_wrapper load path) (\<lambda>d. Inr (reg(iface \<mapsto> d)))"

definition registry_decode :: "('d \<Rightarrow> can_frame \<Rightarrow> can_frame) \<Rightarrow> 'd registry \<Rightarrow> can_frame \<Rightarrow> can_frame result" where
  "registry_decode dec reg frame =
     (case reg (hdr_interface (fr_header frame)) of
        None \<Rightarrow> Inl (Exn (''No decoder registered for interface: '' @ hdr_interface (fr_header frame)))
      | Some d \<Rightarrow> Inr (dec d frame))"

text \<open>
  The contract of a \<open>Decoder\<close>: it may name the message and append signals, and touches
  nothing else of the frame.
\<close>

locale frame_decoder =
  fixes dec :: "'d \<Rightarrow> can_frame \<Rightarrow> can_frame"
  assumes dec_header: "fr_header (dec d f) = fr_header f"
    and dec_payload: "fr_payload (dec d f) = fr_payload f"
    and dec_timestamp: "fr_timestamp (dec d f) = fr_timestamp f"
    and dec_appends: "\<exists>ss. fr_decoded (dec d f) = fr_decoded f @ ss"
begin

lemma registry_keeps_raw:
  assumes "registry_decode dec reg f = Inr g"
  shows "fr_header g = fr_header f \<and> fr_payload g = fr_payload f \<and> fr_timestamp g = fr_timestamp f
    \<and> (\<exists>ss. fr_decoded g = fr_decoded f @ ss)"
  using assms by (auto simp: registry_decode_def dec_header dec_payload dec_timestamp dec_appends split: option.splits)

lemma registry_error_iff:
  "(\<exists>e. registry_decode dec reg f = Inl e) \<longleftrightarrow> hdr_interface (fr_header f) \<notin> dom reg"
  by (auto simp: registry_decode_def domIff split: option.split)

end

lemma decode_signals_frame [simp, frame_simps]:
  "fr_header (decode_signals mux sigs f) = fr_header f"
  "fr_payload (decode_signals mux sigs f) = fr_payload f"
  "fr_timestamp (decode_signals mux sigs f) = fr_timestamp f"
  "fr_msg_name (decode_signals mux sigs f) = fr_msg_name f"
  by (induction mux sigs f rule: decode_signals.induct) auto

lemma decode_signals_decoded:
  "fr_decoded (decode_signals mux sigs f) =
     fr_decoded f @ map (decode_signal (fr_payload f)) (filter (signal_active mux (fr_payload f)) sigs)"
  by (induction mux sigs f rule: decode_signals.induct) auto

interpretation dbc: frame_decoder dbc_decode
  by unfold_locales (auto simp: dbc_decode_def decode_signals_decoded split: option.split)

lemma index_messages_aux:
  "fold (\<lambda>msg m. if m (ms_id msg) = None then m(ms_id msg \<mapsto> msg) else m) net m0 i =
     (case m0 i of Some x \<Rightarrow> Some x | None \<Rightarrow> List.find (\<lambda>msg. ms_id msg = i) net)"
proof (induction net arbitrary: m0)
  case Nil
  then show ?case by (simp split: option.split)
next
  case (Cons msg net)
  then show ?case by (cases "ms_id msg = i"; cases "m0 (ms_id msg)") (auto split: option.splits)
qed

lemma index_messages_find: "index_messages net i = List.find (\<lambda>msg. ms_id msg = i) net"
  by (simp add: index_messages_def index_messages_aux)

section \<open>The re-interpretation of sign-extended values\<close>

lemma signal_mask_uint:
  assumes "sg_bit_size sig < 64"
  shows "uint (raw AND signal_mask sig) = uint raw mod 2 ^ unat (sg_bit_size sig)"
proof -
  have "signal_mask sig = mask (unat (sg_bit_size sig))"
    using assms by (simp add: signal_mask_def mask_eq_exp_minus_1 push_bit_eq_mult)
  then have "raw AND signal_mask sig = take_bit (unat (sg_bit_size sig)) raw"
    by (simp add: take_bit_eq_mask)
  then show ?thesis by (simp only: unsigned_take_bit_eq) (simp add: take_bit_eq_mod)
qed

definition reinterpreted :: "isignal \<Rightarrow> u64 \<Rightarrow> nat" where
  "reinterpreted sig raw = unat raw mod 2 ^ unat (sg_bit_size sig)"

lemma reinterpreted_bound:
  assumes "sg_bit_size sig \<le> 52"
  shows "reinterpreted sig raw < 2 ^ 53" and "reinterpreted sig raw < 2 ^ unat (sg_bit_size sig)"
proof -
  show lt: "reinterpreted sig raw < 2 ^ unat (sg_bit_size sig)" by (simp add: reinterpreted_def)
  have "unat (sg_bit_size sig) \<le> 52" using assms by (simp add: word_le_nat_alt)
  then have "(2::nat) ^ unat (sg_bit_size sig) \<le> 2 ^ 52" by (intro power_increasing) simp_all
  with lt show "reinterpreted sig raw < 2 ^ 53" by simp
qed

lemma reinterpreted_value:
  assumes "sg_bit_size sig \<le> 52" "sg_factor sig = f64_one" "sg_offset sig = 0"
  shows "f64_add (f64_mul (f64_of_u64 (raw AND signal_mask sig)) (sg_factor sig)) (sg_offset sig)
    = f64_of_int (int (reinterpreted sig raw))"
proof -
  have "sg_bit_size sig < 64" using assms(1) by (simp add: word_le_nat_alt word_less_nat_alt)
  then have u: "uint (raw AND signal_mask sig) = int (reinterpreted sig raw)"
    by (simp add: signal_mask_uint reinterpreted_def zmod_int)
  note n = reinterpreted_bound(1) [OF assms(1), of raw]
  note fin = f64_of_nat_finite [OF n]
  have "f64_add (f64_of_int (int (reinterpreted sig raw))) 0 = f64_of_int (int (reinterpreted sig raw))"
  proof (cases "reinterpreted sig raw = 0")
    case True
    then show ?thesis by (simp add: f64_add_def signed_fin_def f64_pack_def mag_bits_def)
  next
    case False
    then have "\<not> f64_eq (f64_of_int (int (reinterpreted sig raw))) 0"
      using f64_eq_of_nat [OF n, of 0] by simp
    then show ?thesis using f64_add_zero [OF fin] by simp
  qed
  then show ?thesis using f64_mul_one [OF fin] by (simp add: assms(2,3) f64_of_u64_def u)
qed

section \<open>Properties\<close>


text \<open>The registry fails exactly for an interface without a decoder, naming it, and a
  decoded frame keeps its header, payload and receive time and all signals it had.\<close>

theorem registry_decode_total:
  "case registry_decode dbc_decode reg f of
     Inl e \<Rightarrow> hdr_interface (fr_header f) \<notin> dom reg
       \<and> what e = ''No decoder registered for interface: '' @ hdr_interface (fr_header f)
   | Inr g \<Rightarrow> hdr_interface (fr_header f) \<in> dom reg \<and> fr_header g = fr_header f
       \<and> fr_payload g = fr_payload f \<and> fr_timestamp g = fr_timestamp f
       \<and> (\<exists>ss. fr_decoded g = fr_decoded f @ ss)"
proof (cases "registry_decode dbc_decode reg f")
  case (Inl e)
  then show ?thesis by (auto simp: registry_decode_def split: option.splits)
next
  case (Inr g)
  then show ?thesis using dbc.registry_keeps_raw [OF Inr] dbc.registry_error_iff [of reg f] by force
qed


definition ex_signed :: "u64 \<Rightarrow> dbl \<Rightarrow> dbl \<Rightarrow> isignal" where
  "ex_signed n lo hi =
     \<lparr>sg_name = ''Sollgierrate'', sg_unit = [], sg_minimum = lo, sg_maximum = hi, sg_factor = f64_one,
      sg_offset = 0, sg_bit_size = n, sg_start_bit = 0, sg_is_mux_value = False, sg_mux_switch_value = 0,
      sg_value_type = EVT_Other, sg_decode = (\<lambda>_. - 1), sg_encode = (\<lambda>_ b. b),
      sg_raw_to_phys = (\<lambda>r. f64_of_int (sint r)), sg_phys_to_raw = (\<lambda>_. 0)\<rparr>"

lemma reinterpreted_ex_signed: "reinterpreted (ex_signed 16 lo hi) (- 1) = 65535"
proof -
  have "unat (- 1 :: u64) = 18446744073709551615" by code_simp
  then show ?thesis by (simp add: reinterpreted_def ex_signed_def)
qed

lemma f64_of_int_minus_one: "f64_lt (f64_of_int (- 1)) 0"
  using f64_lt_neg_zero [of 1] by simp


text \<open>A signed integer signal whose DBC entry declares no range (minimum and maximum 0) is
  never reported negative: the range is widened to \<open>[0, 2^n]\<close> first, so a negative value
  \<open>-k\<close> is reported as \<open>2^n - k\<close>.\<close>

theorem unranged_negative_misread:
  assumes "sg_value_type sig = EVT_Other" "sg_bit_size sig \<le> 52" "sg_factor sig = f64_one" "sg_offset sig = 0"
    and "sg_minimum sig = 0" "sg_maximum sig = 0"
    and "0 < k" "k \<le> 2 ^ unat (sg_bit_size sig)" "sg_raw_to_phys sig (- of_nat k) = f64_of_int (- int k)"
  shows "signal_phys sig (- of_nat k) = f64_of_int (2 ^ unat (sg_bit_size sig) - int k)"
proof -
  let ?n = "unat (sg_bit_size sig)"
  have n: "?n \<le> 52" using assms(2) by (simp add: word_le_nat_alt)
  then have p: "(2::nat) ^ ?n \<le> 2 ^ 52" by (intro power_increasing) simp_all
  have ymax: "signal_y_max sig = f64_of_int (int (2 ^ ?n))"
    using assms f64_eq_of_nat [of 0 0] by (simp add: signal_y_max_def f64_pow2_eq)
  have lt1: "f64_lt (f64_of_int (- int k)) 0" using f64_lt_neg_zero assms(7,8) p by simp
  have lt2: "f64_lt 0 (f64_of_int (int (2 ^ ?n)))" using f64_lt_of_nat [of 0 "2 ^ ?n"] p by simp
  have le: "f64_le 0 0" using f64_eq_of_nat [of 0 0] by (simp add: f64_le_def)
  have "signal_phys sig (- of_nat k) = f64_of_int (int (reinterpreted sig (- of_nat k)))"
    using assms lt1 lt2 le ymax reinterpreted_value [OF assms(2-4), of "- of_nat k"]
    by (simp add: signal_phys_def Let_def)
  also have "int (reinterpreted sig (- of_nat k)) = 2 ^ ?n - int k"
  proof -
    have k: "k < 2 ^ 64" using assms(8) p by simp
    have dv: "(2::int) ^ 64 = 2 ^ ?n * 2 ^ (64 - ?n)" using n by (simp flip: power_add)
    have "int (unat (- of_nat k :: u64)) = (- int k) mod 2 ^ 64"
      using k by (simp add: uint_word_ariths take_bit_eq_mod unsigned_of_nat zmod_int mod_minus_eq)
    then have "int (reinterpreted sig (- of_nat k)) = (- int k) mod 2 ^ 64 mod 2 ^ ?n"
      by (simp add: reinterpreted_def zmod_int)
    also have "\<dots> = (- int k) mod 2 ^ ?n" unfolding dv by (rule mod_mod_cancel) simp
    also have "\<dots> = (2 ^ ?n - int k) mod 2 ^ ?n" by simp
    also have "\<dots> = 2 ^ ?n - int k"
    proof (rule mod_pos_pos_trivial)
      have "int k \<le> int (2 ^ ?n)" using assms(8) by (simp only: of_nat_le_iff)
      then show "0 \<le> 2 ^ ?n - int k" by simp
      show "2 ^ ?n - int k < 2 ^ ?n" using assms(7) by simp
    qed
    finally show ?thesis .
  qed
  finally show ?thesis .
qed

theorem unranged_negative_misread_witness:
  "signal_phys (ex_signed 16 0 0) (- of_nat 1) = f64_of_int (2 ^ 16 - int 1)"
  using unranged_negative_misread [of "ex_signed 16 0 0" 1] by (simp add: ex_signed_def)

end
