(* ===== verification/Send.thy ===== *)
theory Send
  imports Decoder
begin

text \<open>
  \<open>src/send\<close>: \<open>SendModel\<close>, the editable copy of a DBC's messages from which payloads are
  encoded. \<open>std::ranges::sort\<close> leaves the order of equal keys open; the model keeps their
  DBC order, and the theorems here do not depend on it.
\<close>

section \<open>The model of a DBC\<close>

record send_signal =
  ss_name :: string
  ss_unit :: string
  ss_min_val :: dbl
  ss_max_val :: dbl
  ss_value :: dbl
  ss_sig :: isignal

record send_message =
  sm_id :: u64
  sm_name :: string
  sm_dlc :: nat
  sm_signals :: "send_signal list"

type_synonym send_model = "send_message list"

definition mk_send_signal :: "isignal \<Rightarrow> send_signal" where
  "mk_send_signal sig =
     \<lparr>ss_name = sg_name sig, ss_unit = sg_unit sig, ss_min_val = sg_minimum sig,
      ss_max_val = sg_maximum sig, ss_value = 0, ss_sig = sig\<rparr>"

definition mk_send_message :: "imessage \<Rightarrow> send_message" where
  "mk_send_message msg =
     \<lparr>sm_id = ms_id msg, sm_name = ms_name msg, sm_dlc = ms_size msg,
      sm_signals = sort_key (\<lambda>s. sg_start_bit (ss_sig s)) (map mk_send_signal (ms_signals msg))\<rparr>"

definition mk_send_model :: "(string \<Rightarrow> dbc_file) \<Rightarrow> string \<Rightarrow> send_model result" where
  "mk_send_model load path =
     (case load path of
        Dbc_unopenable \<Rightarrow> Inl (Exn (''Cannot open DBC: '' @ path))
      | Dbc_unparsable \<Rightarrow> Inl (Exn (''Cannot parse DBC: '' @ path))
      | Dbc_network net \<Rightarrow> Inr (sort_key sm_id (map mk_send_message net)))"

text \<open>Indexing outside the vectors is undefined in C++ and None here.\<close>

definition set_value :: "send_model \<Rightarrow> int \<Rightarrow> int \<Rightarrow> dbl \<Rightarrow> send_model option" where
  "set_value model mi si v =
     do { msg \<leftarrow> nth_opt model mi;
          sig \<leftarrow> nth_opt (sm_signals msg) si;
          sigs \<leftarrow> update_opt (sm_signals msg) si (sig\<lparr>ss_value := v\<rparr>);
          update_opt model mi (msg\<lparr>sm_signals := sigs\<rparr>) }"

definition encode_raw :: "isignal \<Rightarrow> dbl \<Rightarrow> u64" where
  "encode_raw sig v =
     (case sg_value_type sig of
        EVT_Float \<Rightarrow> ucast (f32_of_f64 v)
      | EVT_Double \<Rightarrow> v
      | EVT_Other \<Rightarrow> sg_phys_to_raw sig v)"

fun encode_signals :: "send_signal list \<Rightarrow> bytes \<Rightarrow> bytes" where
  "encode_signals [] data = data"
| "encode_signals (ss # sigs) data =
     encode_signals sigs (sg_encode (ss_sig ss) (encode_raw (ss_sig ss) (ss_value ss)) data)"

definition encode_message :: "send_message \<Rightarrow> bytes" where
  "encode_message msg = encode_signals (sm_signals msg) (replicate (sm_dlc msg) 0)"

definition encode :: "send_model \<Rightarrow> int \<Rightarrow> bytes option" where
  "encode model mi = map_option encode_message (nth_opt model mi)"

section \<open>Shape of a model\<close>

text \<open>What the editors rely on: which messages and signals there are never changes.\<close>

definition model_shape :: "send_model \<Rightarrow> (u64 \<times> isignal list) list" where
  "model_shape model = map (\<lambda>m. (sm_id m, map ss_sig (sm_signals m))) model"

lemma set_value_inside:
  assumes "0 \<le> mi" "mi < int (length model)" "0 \<le> si" "si < int (length (sm_signals (model ! nat mi)))"
  shows "set_value model mi si v = Some (model[nat mi := (model ! nat mi)\<lparr>sm_signals :=
     (sm_signals (model ! nat mi))[nat si := (sm_signals (model ! nat mi) ! nat si)\<lparr>ss_value := v\<rparr>]\<rparr>])"
  using assms by (simp add: set_value_def)

lemma set_value_None_iff:
  "set_value model mi si v = None \<longleftrightarrow>
     mi < 0 \<or> int (length model) \<le> mi \<or> si < 0 \<or> int (length (sm_signals (model ! nat mi))) \<le> si"
  by (auto simp: set_value_def nth_opt_def update_opt_def)

lemma set_value_shape: "set_value model mi si v = Some model' \<Longrightarrow> model_shape model' = model_shape model"
proof -
  assume s: "set_value model mi si v = Some model'"
  then have b: "0 \<le> mi" "mi < int (length model)" "0 \<le> si" "si < int (length (sm_signals (model ! nat mi)))"
    using set_value_None_iff [of model mi si v] by auto
  let ?m = "model ! nat mi"
  have "map ss_sig ((sm_signals ?m)[nat si := (sm_signals ?m ! nat si)\<lparr>ss_value := v\<rparr>]) = map ss_sig (sm_signals ?m)"
    by (rule map_update_same) simp
  then have "map (\<lambda>m. (sm_id m, map ss_sig (sm_signals m))) (model[nat mi := ?m\<lparr>sm_signals :=
      (sm_signals ?m)[nat si := (sm_signals ?m ! nat si)\<lparr>ss_value := v\<rparr>]\<rparr>])
    = map (\<lambda>m. (sm_id m, map ss_sig (sm_signals m))) model"
    by (intro map_update_same) simp
  then show ?thesis using s set_value_inside [OF b, of v] by (simp add: model_shape_def)
qed

lemma model_shape_length: "model_shape m' = model_shape m \<Longrightarrow> length m' = length m"
  by (drule arg_cong [of _ _ length]) (simp add: model_shape_def)

lemma model_shape_signals:
  "model_shape m' = model_shape m \<Longrightarrow> i < length m \<Longrightarrow>
    sm_id (m' ! i) = sm_id (m ! i) \<and> length (sm_signals (m' ! i)) = length (sm_signals (m ! i))"
proof -
  assume e: "model_shape m' = model_shape m" and i: "i < length m"
  then have i': "i < length m'" using model_shape_length [OF e] by simp
  from e have "model_shape m' ! i = model_shape m ! i" by simp
  then have h: "sm_id (m' ! i) = sm_id (m ! i)"
    "map ss_sig (sm_signals (m' ! i)) = map ss_sig (sm_signals (m ! i))"
    using i i' by (simp_all add: model_shape_def)
  show ?thesis using h(1) map_eq_imp_length_eq [OF h(2)] by simp
qed

lemma ss_sig_mk_send_signal [simp]: "ss_sig \<circ> mk_send_signal = id"
  by (auto simp: mk_send_signal_def)

lemma mset_mk_send_message: "mset (map ss_sig (sm_signals (mk_send_message m))) = mset (ms_signals m)"
  by (simp add: mk_send_message_def multiset.map_comp)

section \<open>What dbcppp promises of its codec\<close>

text \<open>
  For the signals of a message of \<open>n\<close> bytes with values \<open>val\<close>: encoding keeps the length,
  reading a signal back gives the raw value just written, and writing one signal leaves the
  others alone (they do not share bits).
\<close>

definition codec_ok :: "nat \<Rightarrow> (isignal \<Rightarrow> dbl) \<Rightarrow> isignal list \<Rightarrow> bool" where
  "codec_ok n val sigs \<longleftrightarrow> distinct sigs \<and>
     (\<forall>s\<in>set sigs. \<forall>b. length b = n \<longrightarrow>
        length (sg_encode s (encode_raw s (val s)) b) = n
        \<and> sg_decode s (sg_encode s (encode_raw s (val s)) b) = encode_raw s (val s)
        \<and> (\<forall>t\<in>set sigs. t \<noteq> s \<longrightarrow> sg_decode t (sg_encode s (encode_raw s (val s)) b) = sg_decode t b))"

definition with_values :: "(isignal \<Rightarrow> dbl) \<Rightarrow> send_message \<Rightarrow> send_message" where
  "with_values val msg = msg\<lparr>sm_signals := map (\<lambda>ss. ss\<lparr>ss_value := val (ss_sig ss)\<rparr>) (sm_signals msg)\<rparr>"

lemma codec_ok_tail:
  "codec_ok n val sigs \<Longrightarrow> set ts \<subseteq> set sigs \<Longrightarrow> distinct ts \<Longrightarrow> codec_ok n val ts"
  by (auto simp: codec_ok_def)

lemma encode_signals_codec:
  assumes "codec_ok n val sigs" "length b = n" "map ss_sig sss = ts" "set ts \<subseteq> set sigs" "distinct ts"
    "\<forall>ss\<in>set sss. ss_value ss = val (ss_sig ss)"
  shows "length (encode_signals sss b) = n
    \<and> (\<forall>t\<in>set sigs. sg_decode t (encode_signals sss b) = (if t \<in> set ts then encode_raw t (val t) else sg_decode t b))"
  using assms
proof (induction sss arbitrary: b ts)
  case Nil
  then show ?case by simp
next
  case (Cons ss sss)
  let ?s = "ss_sig ss"
  let ?b = "sg_encode ?s (encode_raw ?s (val ?s)) b"
  from Cons.prems have s: "?s \<in> set sigs" by auto
  with Cons.prems(1,2) have b: "length ?b = n" "sg_decode ?s ?b = encode_raw ?s (val ?s)"
    "\<forall>t\<in>set sigs. t \<noteq> ?s \<longrightarrow> sg_decode t ?b = sg_decode t b"
    by (auto simp: codec_ok_def)
  have v: "ss_value ss = val ?s" using Cons.prems(6) by simp
  have d: "distinct (map ss_sig sss)" "?s \<notin> set (map ss_sig sss)" using Cons.prems(3,5) by auto
  have "set (map ss_sig sss) \<subseteq> set sigs" "\<forall>x\<in>set sss. ss_value x = val (ss_sig x)"
    using Cons.prems(3,4,6) by auto
  note ih = Cons.IH [OF Cons.prems(1) b(1) refl this(1) d(1) this(2)]
  show ?case using ih b(2,3) d(2) Cons.prems(3) s by (auto simp: v)
qed

lemma encode_message_codec:
  assumes "codec_ok (ms_size msg) val (ms_signals msg)"
  defines "p \<equiv> encode_message (with_values val (mk_send_message msg))"
  shows "length p = ms_size msg"
    and "t \<in> set (ms_signals msg) \<Longrightarrow> sg_decode t p = encode_raw t (val t)"
proof -
  define sss where "sss = sm_signals (with_values val (mk_send_message msg))"
  have "mset (map ss_sig sss) = mset (ms_signals msg)"
    using mset_mk_send_message [of msg]
    by (simp add: sss_def with_values_def multiset.map_comp comp_def)
  then have m: "set (map ss_sig sss) = set (ms_signals msg)" "distinct (map ss_sig sss)"
    using assms(1) mset_eq_setD [of "map ss_sig sss"] mset_eq_imp_distinct_iff [of "map ss_sig sss"]
    by (simp_all add: codec_ok_def)
  have v: "\<forall>ss\<in>set sss. ss_value ss = val (ss_sig ss)"
    by (auto simp: sss_def with_values_def)
  have "p = encode_signals sss (replicate (ms_size msg) 0)"
    by (simp add: p_def encode_message_def sss_def with_values_def mk_send_message_def)
  with encode_signals_codec [OF assms(1) _ refl _ m(2) v, of "replicate (ms_size msg) 0"] m(1)
  show "length p = ms_size msg" and "t \<in> set (ms_signals msg) \<Longrightarrow> sg_decode t p = encode_raw t (val t)"
    by auto
qed

lemma decode_encoded:
  assumes "List.find (\<lambda>m. ms_id m = ucast (hdr_id (fr_header f))) net = Some msg"
    and "codec_ok (ms_size msg) val (ms_signals msg)"
    and "\<forall>s\<in>set (ms_signals msg). \<not> sg_is_mux_value s"
    and "fr_payload f = encode_message (with_values val (mk_send_message msg))"
    and "fr_decoded f = []"
  shows "map (\<lambda>d. (ds_name d, ds_value d)) (fr_decoded (dbc_decode (index_messages net) f))
    = map (\<lambda>s. (sg_name s, signal_phys s (encode_raw s (val s)))) (ms_signals msg)
    \<and> (\<forall>s\<in>set (ms_signals msg). sg_value_type s = EVT_Double \<longrightarrow> signal_phys s (encode_raw s (val s)) = val s)"
proof -
  note c = encode_message_codec [OF assms(2), folded assms(4)]
  have all: "filter (signal_active (ms_mux_signal msg) (fr_payload f)) (ms_signals msg) = ms_signals msg"
    using assms(3) by (intro filter_True) (auto simp: signal_active_def)
  have "fr_decoded (dbc_decode (index_messages net) f) = map (decode_signal (fr_payload f)) (ms_signals msg)"
    using assms(1,5) c(1) all by (simp add: dbc_decode_def index_messages_find decode_signals_decoded)
  moreover have "\<forall>s\<in>set (ms_signals msg). sg_value_type s = EVT_Double \<longrightarrow> signal_phys s (encode_raw s (val s)) = val s"
    by (simp add: signal_phys_def encode_raw_def)
  ultimately show ?thesis using c(2) by (simp add: decode_signal_def)
qed

section \<open>Properties\<close>

text \<open>A model lists the messages of its DBC in increasing id order and the signals of each in
  increasing start-bit order, losing and inventing none.\<close>

theorem send_model_sorted:
  "case mk_send_model load path of
     Inl e \<Rightarrow> load path \<in> {Dbc_unopenable, Dbc_unparsable}
   | Inr model \<Rightarrow> \<exists>net. load path = Dbc_network net \<and> sorted (map sm_id model)
       \<and> mset model = mset (map mk_send_message net)
       \<and> list_all (\<lambda>m. sorted (map (\<lambda>s. sg_start_bit (ss_sig s)) (sm_signals m))) model
       \<and> image_mset (\<lambda>m. mset (map ss_sig (sm_signals m))) (mset model)
           = image_mset (\<lambda>m. mset (ms_signals m)) (mset net)"
proof (cases "load path")
  case (Dbc_network net)
  with Dbc_network show ?thesis
    using mset_mk_send_message
    by (auto simp: mk_send_model_def list_all_iff multiset.map_comp comp_def)
      (simp add: mk_send_message_def)
qed (simp_all add: mk_send_model_def)

text \<open>C2: what the send side encodes, the receive side decodes: if the codec keeps its promise
  for the values chosen, a frame carrying the encoded payload of a message without
  multiplexed signals decodes to every signal of the DBC, each with the physical value of the
  raw value that was encoded; a signal of type double arrives unchanged.\<close>

theorem send_decode_roundtrip:
  assumes "List.find (\<lambda>m. ms_id m = ucast (hdr_id (fr_header f))) net = Some msg"
    and "codec_ok (ms_size msg) val (ms_signals msg)"
    and "\<forall>s\<in>set (ms_signals msg). \<not> sg_is_mux_value s"
    and "fr_payload f = encode_message (with_values val (mk_send_message msg))"
    and "fr_decoded f = []"
  shows "map (\<lambda>d. (ds_name d, ds_value d)) (fr_decoded (dbc_decode (index_messages net) f))
    = map (\<lambda>s. (sg_name s, signal_phys s (encode_raw s (val s)))) (ms_signals msg)
    \<and> (\<forall>s\<in>set (ms_signals msg). sg_value_type s = EVT_Double \<longrightarrow> signal_phys s (encode_raw s (val s)) = val s)"
  by (rule decode_encoded [OF assms])

definition ex_byte_signal :: "string \<Rightarrow> nat \<Rightarrow> isignal" where
  "ex_byte_signal n k =
     \<lparr>sg_name = n, sg_unit = [], sg_minimum = 0, sg_maximum = 0, sg_factor = f64_one, sg_offset = 0,
      sg_bit_size = 8, sg_start_bit = of_nat (8 * k), sg_is_mux_value = False, sg_mux_switch_value = 0,
      sg_value_type = EVT_Other, sg_decode = (\<lambda>b. ucast (b ! k)), sg_encode = (\<lambda>r b. b[k := ucast r]),
      sg_raw_to_phys = f64_of_u64, sg_phys_to_raw = (\<lambda>v. if v = 0 then 0 else 7)\<rparr>"

definition ex_message :: imessage where
  "ex_message = \<lparr>ms_id = 291, ms_name = ''M'', ms_size = 2,
     ms_signals = [ex_byte_signal ''A'' 1, ex_byte_signal ''B'' 0], ms_mux_signal = None\<rparr>"

definition ex_values :: "isignal \<Rightarrow> dbl" where
  "ex_values s = (if sg_name s = ''A'' then 0 else 1)"

lemma ex_message_codec: "codec_ok 2 ex_values (ms_signals ex_message)"
proof -
  have "ex_byte_signal ''A'' 1 \<noteq> ex_byte_signal ''B'' 0"
    by (simp add: ex_byte_signal_def)
  then show ?thesis
    by (auto simp: codec_ok_def ex_message_def encode_raw_def ex_byte_signal_def ex_values_def)
qed

theorem send_decode_roundtrip_witness:
  "\<exists>f. map (\<lambda>d. (ds_name d, ds_value d)) (fr_decoded (dbc_decode (index_messages [ex_message]) f))
    = map (\<lambda>s. (sg_name s, signal_phys s (encode_raw s (ex_values s)))) (ms_signals ex_message)"
proof -
  let ?f = "mk_can_frame 0 \<lparr>hdr_id = 291, hdr_interface = ''vcan0'', hdr_dlc = 2\<rparr>
    (encode_message (with_values ex_values (mk_send_message ex_message)))"
  have "codec_ok (ms_size ex_message) ex_values (ms_signals ex_message)"
    using ex_message_codec by (simp add: ex_message_def)
  then show ?thesis
    using send_decode_roundtrip [of ?f "[ex_message]" ex_message ex_values]
    by (intro exI [of _ ?f]) (auto simp: ex_message_def ex_byte_signal_def)
qed

end
