(* ===== verification/Action.thy ===== *)
theory Action
  imports Send
begin

text \<open>
  \<open>src/action\<close>: the periodic senders. An \<open>Action\<close> is an object with an identity (its
  address) that owns one \<open>steady_timer\<close>; \<open>ActionHandler\<close> owns the actions and changes them
  only in tasks posted to the asio thread. The model keeps asio's queue of ready handlers and
  its list of pending timer waits: \<open>cancel\<close> and \<open>expires_after\<close> complete a pending wait with
  an error, but cannot recall one that is already in the queue. A handler that runs on a
  destroyed action is the value None. Times are nanosecond counts of \<open>steady_clock\<close>.
\<close>

section \<open>Actions\<close>

text \<open>
  \<open>'m\<close> is the state the encoder of a sine action works on (the \<open>SendModel\<close> it writes its
  value to); the encoder may leave that state's bounds, which is None.
\<close>

record 'm sin_params =
  sp_interval :: int
  sp_encode :: "'m \<Rightarrow> dbl \<Rightarrow> ('m \<times> bytes) option"
  sp_amplitude :: dbl
  sp_sin_period :: int
  sp_offset :: dbl
  sp_resume_time :: int
  sp_accumulated :: dbl

datatype 'm action_kind = Single_action | Periodic_action (period_ms: int) | Sin_action "'m sin_params"

record 'm action =
  ac_interface :: string
  ac_msg_id :: u64
  ac_msg_name :: string
  ac_payload :: bytes
  ac_kind :: "'m action_kind"
  ac_last_sent :: int
  ac_ever_sent :: bool
  ac_paused :: bool

definition mk_action :: "string \<Rightarrow> u64 \<Rightarrow> string \<Rightarrow> bytes \<Rightarrow> 'm action_kind \<Rightarrow> 'm action" where
  "mk_action iface mid name payload k =
     \<lparr>ac_interface = iface, ac_msg_id = mid, ac_msg_name = name, ac_payload = payload, ac_kind = k,
      ac_last_sent = 0, ac_ever_sent = False, ac_paused = False\<rparr>"

definition mk_sin_action :: "int \<Rightarrow> string \<Rightarrow> u64 \<Rightarrow> string \<Rightarrow> int \<Rightarrow> ('m \<Rightarrow> dbl \<Rightarrow> ('m \<times> bytes) option)
    \<Rightarrow> dbl \<Rightarrow> int \<Rightarrow> dbl \<Rightarrow> 'm action" where
  "mk_sin_action now iface mid name interval enc amp sin_period offset =
     mk_action iface mid name [] (Sin_action
       \<lparr>sp_interval = interval, sp_encode = enc, sp_amplitude = amp, sp_sin_period = sin_period,
        sp_offset = offset, sp_resume_time = now, sp_accumulated = 0\<rparr>)"

fun is_periodic :: "'m action_kind \<Rightarrow> bool" where
  "is_periodic Single_action = False"
| "is_periodic (Periodic_action _) = True"
| "is_periodic (Sin_action _) = True"

fun type_name :: "'m action_kind \<Rightarrow> string" where
  "type_name Single_action = ''Single''"
| "type_name (Periodic_action _) = ''Periodic''"
| "type_name (Sin_action _) = ''Sin''"

fun period :: "'m action_kind \<Rightarrow> int" where
  "period Single_action = 0"
| "period (Periodic_action ms) = ms"
| "period (Sin_action p) = sp_interval p"

definition elapsed_seconds :: "int \<Rightarrow> 'm sin_params \<Rightarrow> dbl" where
  "elapsed_seconds now p = f64_add (sp_accumulated p) (seconds (now - sp_resume_time p))"

text \<open>\<open>2.0 * std::numbers::pi\<close> and the value a sine action encodes; \<open>sine\<close> is \<open>std::sin\<close>,
  whose last bit the standard leaves to the implementation.\<close>

definition two_pi :: dbl where "two_pi = 0x401921FB54442D18"

definition sin_value :: "(dbl \<Rightarrow> dbl) \<Rightarrow> int \<Rightarrow> 'm sin_params \<Rightarrow> dbl" where
  "sin_value sine now p =
     (let omega = f64_div two_pi (f64_div (f64_of_int (sp_sin_period p)) (f64_of_int 1000))
      in f64_add (f64_mul (sp_amplitude p) (sine (f64_mul omega (elapsed_seconds now p)))) (sp_offset p))"

section \<open>The asio thread\<close>

datatype 'm task =
    Add_action nat "'m action"
  | Add_action_paused nat "'m action"
  | Remove_action nat
  | Toggle_pause nat
  | Update_sin_param nat int dbl
  | Update_payload nat bytes

datatype 'm job = Task "'m task" | Wait nat (succeeded: bool)

record action_info =
  ai_idx :: nat
  ai_msg_id :: u64
  ai_msg_name :: string
  ai_type_name :: string
  ai_interface :: string
  ai_is_periodic :: bool
  ai_paused :: bool
  ai_sin_amplitude :: dbl
  ai_sin_period_ms :: int
  ai_sin_offset :: dbl
  ai_period :: int
  ai_last_sent :: int
  ai_ever_sent :: bool

record can_send =
  snd_interface :: string
  snd_id :: u64
  snd_data :: bytes
  snd_time :: int

text \<open>
  The handler with the asio state it lives in: \<open>ah_actions\<close> pairs each owned action with its
  address, \<open>ah_queue\<close> are the ready handlers, \<open>ah_waits\<close> the pending waits (action, expiry),
  \<open>ah_fresh\<close> the next address, \<open>ah_sent\<close> the calls of \<open>send_fn_\<close> so far.
\<close>

record 'm action_handler =
  ah_actions :: "(nat \<times> 'm action) list"
  ah_snapshot :: "action_info list"
  ah_notify :: bool
  ah_notified :: nat
  ah_queue :: "'m job list"
  ah_waits :: "(nat \<times> int) list"
  ah_fresh :: nat
  ah_now :: int
  ah_sent :: "can_send list"
  ah_store :: 'm

definition mk_action_handler :: "int \<Rightarrow> 'm \<Rightarrow> 'm action_handler" where
  "mk_action_handler now store =
     \<lparr>ah_actions = [], ah_snapshot = [], ah_notify = False, ah_notified = 0, ah_queue = [], ah_waits = [],
      ah_fresh = 0, ah_now = now, ah_sent = [], ah_store = store\<rparr>"

definition set_notify :: "'m action_handler \<Rightarrow> 'm action_handler" where
  "set_notify s = s\<lparr>ah_notify := True\<rparr>"

definition action_info_of :: "nat \<Rightarrow> 'm action \<Rightarrow> action_info" where
  "action_info_of i a =
     \<lparr>ai_idx = i, ai_msg_id = ac_msg_id a, ai_msg_name = ac_msg_name a, ai_type_name = type_name (ac_kind a),
      ai_interface = ac_interface a, ai_is_periodic = is_periodic (ac_kind a), ai_paused = ac_paused a,
      ai_sin_amplitude = (case ac_kind a of Sin_action p \<Rightarrow> sp_amplitude p | _ \<Rightarrow> 0),
      ai_sin_period_ms = (case ac_kind a of Sin_action p \<Rightarrow> sp_sin_period p | _ \<Rightarrow> 0),
      ai_sin_offset = (case ac_kind a of Sin_action p \<Rightarrow> sp_offset p | _ \<Rightarrow> 0),
      ai_period = period (ac_kind a), ai_last_sent = ac_last_sent a, ai_ever_sent = ac_ever_sent a\<rparr>"

definition infos_of :: "(nat \<times> 'm action) list \<Rightarrow> action_info list" where
  "infos_of as = map (\<lambda>(i, _, a). action_info_of i a) (enumerate 0 as)"

definition rebuild_snapshot :: "'m action_handler \<Rightarrow> 'm action_handler" where
  "rebuild_snapshot s =
     s\<lparr>ah_snapshot := infos_of (ah_actions s),
       ah_notified := (if ah_notify s then Suc (ah_notified s) else ah_notified s)\<rparr>"

definition upd_action :: "nat \<Rightarrow> ('m action \<Rightarrow> 'm action) \<Rightarrow> 'm action_handler \<Rightarrow> 'm action_handler" where
  "upd_action p f s = s\<lparr>ah_actions := map (\<lambda>(q, a). (q, if q = p then f a else a)) (ah_actions s)\<rparr>"

text \<open>\<open>timer_.cancel()\<close>, and \<open>expires_after\<close> followed by \<open>async_wait\<close>.\<close>

definition cancel_timer :: "nat \<Rightarrow> 'm action_handler \<Rightarrow> 'm action_handler" where
  "cancel_timer p s =
     s\<lparr>ah_waits := filter (\<lambda>w. fst w \<noteq> p) (ah_waits s),
       ah_queue := ah_queue s @ map (\<lambda>w. Wait (fst w) False) (filter (\<lambda>w. fst w = p) (ah_waits s))\<rparr>"

definition arm_timer :: "nat \<Rightarrow> int \<Rightarrow> 'm action_handler \<Rightarrow> 'm action_handler" where
  "arm_timer p ms s =
     (let s' = cancel_timer p s in s'\<lparr>ah_waits := ah_waits s' @ [(p, ah_now s + ms * 1000000)]\<rparr>)"

definition schedule :: "nat \<Rightarrow> 'm action \<Rightarrow> 'm action_handler \<Rightarrow> 'm action_handler" where
  "schedule p a s = arm_timer p (period (ac_kind a)) s"

definition pause_kind :: "int \<Rightarrow> 'm action_kind \<Rightarrow> 'm action_kind" where
  "pause_kind now k =
     (case k of
        Sin_action p \<Rightarrow> Sin_action (p\<lparr>sp_accumulated := f64_add (sp_accumulated p) (seconds (now - sp_resume_time p))\<rparr>)
      | _ \<Rightarrow> k)"

definition resume_kind :: "int \<Rightarrow> 'm action_kind \<Rightarrow> 'm action_kind" where
  "resume_kind now k = (case k of Sin_action p \<Rightarrow> Sin_action (p\<lparr>sp_resume_time := now\<rparr>) | _ \<Rightarrow> k)"

definition pause :: "nat \<Rightarrow> 'm action_handler \<Rightarrow> 'm action_handler" where
  "pause p s =
     cancel_timer p (upd_action p (\<lambda>a. a\<lparr>ac_kind := pause_kind (ah_now s) (ac_kind a), ac_paused := True\<rparr>) s)"

definition resume :: "nat \<Rightarrow> 'm action \<Rightarrow> 'm action_handler \<Rightarrow> 'm action_handler" where
  "resume p a s =
     schedule p a (upd_action p (\<lambda>a. a\<lparr>ac_kind := resume_kind (ah_now s) (ac_kind a), ac_paused := False\<rparr>) s)"

definition fire :: "nat \<Rightarrow> 'm action \<Rightarrow> 'm action_handler \<Rightarrow> 'm action_handler" where
  "fire p a s =
     rebuild_snapshot (upd_action p (\<lambda>a. a\<lparr>ac_last_sent := ah_now s, ac_ever_sent := True\<rparr>)
       (s\<lparr>ah_sent := ah_sent s @ [\<lparr>snd_interface = ac_interface a, snd_id = ac_msg_id a,
                                   snd_data = ac_payload a, snd_time = ah_now s\<rparr>]\<rparr>))"

text \<open>Erasing an action destroys its timer, which cancels the pending wait.\<close>

definition on_action_done :: "nat \<Rightarrow> 'm action_handler \<Rightarrow> 'm action_handler" where
  "on_action_done p s =
     rebuild_snapshot (cancel_timer p (s\<lparr>ah_actions := filter (\<lambda>(q, _). q \<noteq> p) (ah_actions s)\<rparr>))"

section \<open>Running a handler\<close>

definition run_wait :: "(dbl \<Rightarrow> dbl) \<Rightarrow> nat \<Rightarrow> 'm action_handler \<Rightarrow> 'm action_handler option" where
  "run_wait sine p s =
     (case map_of (ah_actions s) p of
        None \<Rightarrow> None
      | Some a \<Rightarrow>
          (case ac_kind a of
             Single_action \<Rightarrow> Some (on_action_done p (fire p a s))
           | Periodic_action ms \<Rightarrow> Some (schedule p a (fire p a s))
           | Sin_action sp \<Rightarrow>
               (case sp_encode sp (ah_store s) (sin_value sine (ah_now s) sp) of
                  None \<Rightarrow> None
                | Some (m, payload) \<Rightarrow>
                    (let a' = a\<lparr>ac_payload := payload\<rparr>
                     in Some (schedule p a' (fire p a'
                          (upd_action p (\<lambda>_. a') (s\<lparr>ah_store := m\<rparr>))))))))"

definition start_action :: "nat \<Rightarrow> 'm action \<Rightarrow> 'm action_handler \<Rightarrow> 'm action_handler" where
  "start_action p a s = schedule p a (s\<lparr>ah_actions := ah_actions s @ [(p, a)]\<rparr>)"

text \<open>The conversion of the period to \<open>long\<close> is undefined outside its range: None.\<close>

definition set_sin_param :: "int \<Rightarrow> dbl \<Rightarrow> 'm sin_params \<Rightarrow> 'm sin_params option" where
  "set_sin_param param v p =
     (if param = 0 then Some (p\<lparr>sp_amplitude := v\<rparr>)
      else if param = 1 then map_option (\<lambda>ms. p\<lparr>sp_sin_period := ms\<rparr>) (f64_to_long v)
      else if param = 2 then Some (p\<lparr>sp_offset := v\<rparr>)
      else Some p)"

fun run_task :: "'m task \<Rightarrow> 'm action_handler \<Rightarrow> 'm action_handler option" where
  "run_task (Add_action p a) s = Some (rebuild_snapshot (start_action p a s))"
| "run_task (Add_action_paused p a) s = Some (rebuild_snapshot (pause p (start_action p a s)))"
| "run_task (Remove_action i) s =
     (if length (ah_actions s) \<le> i then Some s
      else Some (rebuild_snapshot ((cancel_timer (fst (ah_actions s ! i)) s)
                  \<lparr>ah_actions := erase_idx i (ah_actions s)\<rparr>)))"
| "run_task (Toggle_pause i) s =
     (if length (ah_actions s) \<le> i then Some s
      else (let (p, a) = ah_actions s ! i
            in Some (rebuild_snapshot (if ac_paused a then resume p a s else pause p s))))"
| "run_task (Update_sin_param i param v) s =
     (if length (ah_actions s) \<le> i then Some s
      else (let (p, a) = ah_actions s ! i
            in case ac_kind a of
                 Sin_action sp \<Rightarrow>
                   map_option (\<lambda>sp'. rebuild_snapshot (upd_action p (\<lambda>a. a\<lparr>ac_kind := Sin_action sp'\<rparr>) s))
                     (set_sin_param param v sp)
               | _ \<Rightarrow> Some s))"
| "run_task (Update_payload i payload) s =
     (if i < length (ah_actions s)
      then Some (upd_action (fst (ah_actions s ! i)) (\<lambda>a. a\<lparr>ac_payload := payload\<rparr>) s)
      else Some s)"

fun run_job :: "(dbl \<Rightarrow> dbl) \<Rightarrow> 'm job \<Rightarrow> 'm action_handler \<Rightarrow> 'm action_handler option" where
  "run_job sine (Task t) s = run_task t s"
| "run_job sine (Wait p ok) s = (if ok then run_wait sine p s else Some s)"

section \<open>Calls from other threads\<close>

definition post_task :: "'m task \<Rightarrow> 'm action_handler \<Rightarrow> 'm action_handler" where
  "post_task t s = s\<lparr>ah_queue := ah_queue s @ [Task t]\<rparr>"

definition add_action :: "'m action \<Rightarrow> 'm action_handler \<Rightarrow> 'm action_handler" where
  "add_action a s = post_task (Add_action (ah_fresh s) a) (s\<lparr>ah_fresh := Suc (ah_fresh s)\<rparr>)"

definition add_action_paused :: "'m action \<Rightarrow> 'm action_handler \<Rightarrow> 'm action_handler" where
  "add_action_paused a s = post_task (Add_action_paused (ah_fresh s) a) (s\<lparr>ah_fresh := Suc (ah_fresh s)\<rparr>)"

definition remove_action :: "nat \<Rightarrow> 'm action_handler \<Rightarrow> 'm action_handler" where
  "remove_action i s = post_task (Remove_action i) s"

definition toggle_pause :: "nat \<Rightarrow> 'm action_handler \<Rightarrow> 'm action_handler" where
  "toggle_pause i s = post_task (Toggle_pause i) s"

definition update_sin_param :: "nat \<Rightarrow> int \<Rightarrow> dbl \<Rightarrow> 'm action_handler \<Rightarrow> 'm action_handler" where
  "update_sin_param i param v s = post_task (Update_sin_param i param v) s"

definition update_payload :: "nat \<Rightarrow> bytes \<Rightarrow> 'm action_handler \<Rightarrow> 'm action_handler" where
  "update_payload i payload s = post_task (Update_payload i payload) s"

definition snapshot :: "'m action_handler \<Rightarrow> action_info list" where
  "snapshot s = ah_snapshot s"

section \<open>The system\<close>

text \<open>One turn of the asio thread; None is undefined behaviour.\<close>

definition run_next :: "(dbl \<Rightarrow> dbl) \<Rightarrow> 'm action_handler \<Rightarrow> 'm action_handler option" where
  "run_next sine s =
     (case ah_queue s of [] \<Rightarrow> Some s | j # js \<Rightarrow> run_job sine j (s\<lparr>ah_queue := js\<rparr>))"

text \<open>The wait at position \<open>i\<close> expires: its handler becomes ready with success.\<close>

definition expire_wait :: "nat \<Rightarrow> 'm action_handler \<Rightarrow> 'm action_handler" where
  "expire_wait i s =
     s\<lparr>ah_waits := erase_idx i (ah_waits s), ah_queue := ah_queue s @ [Wait (fst (ah_waits s ! i)) True]\<rparr>"

text \<open>
  Any thread may call the handler, time passes, expired waits become ready in any order, and
  the asio thread runs the queue in order; \<open>guard\<close> restricts when it runs its next handler.
\<close>

inductive aio_step :: "(dbl \<Rightarrow> dbl) \<Rightarrow> ('m action_handler \<Rightarrow> bool) \<Rightarrow> 'm action_handler \<Rightarrow> 'm action_handler \<Rightarrow> bool"
  for sine :: "dbl \<Rightarrow> dbl" and guard :: "'m action_handler \<Rightarrow> bool" where
  call_notify: "aio_step sine guard s (set_notify s)"
| call_add: "\<not> ac_ever_sent a \<Longrightarrow> \<not> ac_paused a \<Longrightarrow> aio_step sine guard s (add_action a s)"
| call_add_paused: "\<not> ac_ever_sent a \<Longrightarrow> \<not> ac_paused a \<Longrightarrow> aio_step sine guard s (add_action_paused a s)"
| call_remove: "aio_step sine guard s (remove_action i s)"
| call_toggle: "aio_step sine guard s (toggle_pause i s)"
| call_sin: "aio_step sine guard s (update_sin_param i param v s)"
| call_payload: "aio_step sine guard s (update_payload i payload s)"
| edit: "aio_step sine guard s (s\<lparr>ah_store := m\<rparr>)"
| tick: "0 \<le> d \<Longrightarrow> aio_step sine guard s (s\<lparr>ah_now := ah_now s + d\<rparr>)"
| expire: "i < length (ah_waits s) \<Longrightarrow> snd (ah_waits s ! i) \<le> ah_now s \<Longrightarrow> aio_step sine guard s (expire_wait i s)"
| run: "guard s \<Longrightarrow> run_next sine s = Some s' \<Longrightarrow> aio_step sine guard s s'"

inductive_cases aio_stepE: "aio_step sine guard s s'"

definition initial :: "'m action_handler \<Rightarrow> bool" where
  "initial s \<longleftrightarrow> s = mk_action_handler (ah_now s) (ah_store s)"

abbreviation aio_reach :: "(dbl \<Rightarrow> dbl) \<Rightarrow> 'm action_handler \<Rightarrow> bool" where
  "aio_reach sine s \<equiv> \<exists>s0. initial s0 \<and> (aio_step sine (\<lambda>_. True))\<^sup>*\<^sup>* s0 s"

section \<open>Invariant of every schedule\<close>

fun succ_waits :: "'m job list \<Rightarrow> nat list" where
  "succ_waits [] = []"
| "succ_waits (Wait p True # q) = p # succ_waits q"
| "succ_waits (_ # q) = succ_waits q"

fun queued_adds :: "'m job list \<Rightarrow> (nat \<times> 'm action) list" where
  "queued_adds [] = []"
| "queued_adds (Task (Add_action p a) # q) = (p, a) # queued_adds q"
| "queued_adds (Task (Add_action_paused p a) # q) = (p, a) # queued_adds q"
| "queued_adds (_ # q) = queued_adds q"

definition ptrs :: "'m action_handler \<Rightarrow> nat list" where
  "ptrs s = map fst (ah_actions s)"

definition aio_core :: "'m action_handler \<Rightarrow> bool" where
  "aio_core s \<longleftrightarrow> distinct (ptrs s @ map fst (queued_adds (ah_queue s)))
     \<and> (\<forall>p\<in>set (ptrs s @ map fst (queued_adds (ah_queue s))). p < ah_fresh s)
     \<and> distinct (map fst (ah_waits s)) \<and> fst ` set (ah_waits s) \<subseteq> set (ptrs s)"

definition aio_ok :: "'m action_handler \<Rightarrow> bool" where
  "aio_ok s \<longleftrightarrow> aio_core s \<and> ah_snapshot s = infos_of (ah_actions s)"

lemma succ_waits_append [simp]: "succ_waits (q @ r) = succ_waits q @ succ_waits r"
  by (induction q rule: succ_waits.induct) auto

lemma queued_adds_append [simp]: "queued_adds (q @ r) = queued_adds q @ queued_adds r"
  by (induction q rule: queued_adds.induct) auto

lemma aborted_waits [simp]:
  "succ_waits (map (\<lambda>w. Wait (f w) False) ws) = []" "queued_adds (map (\<lambda>w. Wait (f w) False) ws) = []"
  by (induction ws) auto

lemma length_infos_of [simp]: "length (infos_of as) = length as"
  by (simp add: infos_of_def)

lemma nth_infos_of: "i < length as \<Longrightarrow> infos_of as ! i = action_info_of i (snd (as ! i))"
  by (simp add: infos_of_def nth_enumerate_eq split: prod.split)

text \<open>What each building block does to the parts of the state.\<close>

lemma cancel_timer_parts [simp]:
  "ah_actions (cancel_timer p s) = ah_actions s" "ah_snapshot (cancel_timer p s) = ah_snapshot s"
  "ah_waits (cancel_timer p s) = filter (\<lambda>w. fst w \<noteq> p) (ah_waits s)"
  "succ_waits (ah_queue (cancel_timer p s)) = succ_waits (ah_queue s)"
  "queued_adds (ah_queue (cancel_timer p s)) = queued_adds (ah_queue s)"
  "ah_fresh (cancel_timer p s) = ah_fresh s" "ah_now (cancel_timer p s) = ah_now s"
  "ah_sent (cancel_timer p s) = ah_sent s" "ah_store (cancel_timer p s) = ah_store s"
  by (simp_all add: cancel_timer_def)

lemma schedule_parts [simp]:
  "ah_actions (schedule p a s) = ah_actions s" "ah_snapshot (schedule p a s) = ah_snapshot s"
  "ah_waits (schedule p a s) =
     filter (\<lambda>w. fst w \<noteq> p) (ah_waits s) @ [(p, ah_now s + period (ac_kind a) * 1000000)]"
  "succ_waits (ah_queue (schedule p a s)) = succ_waits (ah_queue s)"
  "queued_adds (ah_queue (schedule p a s)) = queued_adds (ah_queue s)"
  "ah_fresh (schedule p a s) = ah_fresh s" "ah_now (schedule p a s) = ah_now s"
  "ah_sent (schedule p a s) = ah_sent s" "ah_store (schedule p a s) = ah_store s"
  by (simp_all add: schedule_def arm_timer_def Let_def)

lemma upd_action_parts [simp]:
  "ah_actions (upd_action p f s) = map (\<lambda>(q, a). (q, if q = p then f a else a)) (ah_actions s)"
  "ah_snapshot (upd_action p f s) = ah_snapshot s" "ah_waits (upd_action p f s) = ah_waits s"
  "ah_queue (upd_action p f s) = ah_queue s" "ah_fresh (upd_action p f s) = ah_fresh s"
  "ah_now (upd_action p f s) = ah_now s" "ah_sent (upd_action p f s) = ah_sent s"
  "ah_store (upd_action p f s) = ah_store s"
  by (simp_all add: upd_action_def)

lemma rebuild_snapshot_parts [simp]:
  "ah_actions (rebuild_snapshot s) = ah_actions s" "ah_snapshot (rebuild_snapshot s) = infos_of (ah_actions s)"
  "ah_waits (rebuild_snapshot s) = ah_waits s" "ah_queue (rebuild_snapshot s) = ah_queue s"
  "ah_fresh (rebuild_snapshot s) = ah_fresh s" "ah_now (rebuild_snapshot s) = ah_now s"
  "ah_sent (rebuild_snapshot s) = ah_sent s" "ah_store (rebuild_snapshot s) = ah_store s"
  by (simp_all add: rebuild_snapshot_def)

lemma map_fst_upd [simp]: "map fst (map (\<lambda>(q, a). (q, g q a)) as) = map fst as"
  by (induction as) auto

lemma fst_upd [simp]: "fst ` (\<lambda>(q, a). (q, g q a)) ` A = fst ` A"
  by (simp add: image_image case_prod_beta)

lemma ptrs_parts [simp]:
  "ptrs (cancel_timer p s) = ptrs s" "ptrs (schedule p a s) = ptrs s" "ptrs (upd_action p f s) = ptrs s"
  "ptrs (rebuild_snapshot s) = ptrs s" "ptrs (s\<lparr>ah_queue := q\<rparr>) = ptrs s"
  "ptrs (s\<lparr>ah_store := m\<rparr>) = ptrs s"
  by (simp_all add: ptrs_def case_prod_beta comp_def)

lemma distinct_map_filter_snoc:
  "distinct (map fst ws) \<Longrightarrow> distinct (map fst (filter (\<lambda>w. fst w \<noteq> p) ws @ [(p, t)]))"
  by (auto simp: distinct_map inj_on_def)

lemma core_cancel [inv_intros]: "aio_core s \<Longrightarrow> aio_core (cancel_timer p s)"
  by (auto simp: aio_core_def distinct_map inj_on_def)

lemma core_schedule [inv_intros]: "aio_core s \<Longrightarrow> p \<in> set (ptrs s) \<Longrightarrow> aio_core (schedule p a s)"
  by (auto simp: aio_core_def distinct_map inj_on_def)

lemma core_upd [inv_intros]: "aio_core s \<Longrightarrow> aio_core (upd_action p f s)"
  by (simp add: aio_core_def)

lemma core_fields [inv_intros]:
  "aio_core s \<Longrightarrow> aio_core (s\<lparr>ah_store := m\<rparr>)" "aio_core s \<Longrightarrow> aio_core (s\<lparr>ah_sent := l\<rparr>)"
  "aio_core s \<Longrightarrow> aio_core (s\<lparr>ah_now := n\<rparr>)" "aio_core s \<Longrightarrow> aio_core (s\<lparr>ah_notify := b\<rparr>)"
  by (simp_all add: aio_core_def ptrs_def)

lemma core_rebuild [inv_intros]: "aio_core s \<Longrightarrow> aio_ok (rebuild_snapshot s)"
  by (simp add: aio_core_def aio_ok_def)

lemma core_of_ok: "aio_ok s \<Longrightarrow> aio_core s"
  by (simp add: aio_ok_def)

lemma core_start [inv_intros]:
  assumes "aio_core s" "p \<notin> set (ptrs s @ map fst (queued_adds (ah_queue s)))" "p < ah_fresh s"
  shows "aio_core (start_action p a s)"
proof -
  have "aio_core (s\<lparr>ah_actions := ah_actions s @ [(p, a)]\<rparr>)"
    using assms by (auto simp: aio_core_def ptrs_def)
  then show ?thesis unfolding start_action_def by (rule core_schedule) (simp add: ptrs_def)
qed

lemma core_pop:
  "aio_core s \<Longrightarrow> ah_queue s = j # js \<Longrightarrow> aio_core (s\<lparr>ah_queue := js\<rparr>)
    \<and> (\<forall>p a. j = Task (Add_action p a) \<or> j = Task (Add_action_paused p a) \<longrightarrow>
        p \<notin> set (ptrs s @ map fst (queued_adds js)) \<and> p < ah_fresh s)"
proof (cases j)
  case (Task t)
  then show "aio_core s \<Longrightarrow> ah_queue s = j # js \<Longrightarrow> ?thesis"
    by (cases t) (auto simp: aio_core_def ptrs_def)
qed (auto simp: aio_core_def ptrs_def)

lemma ok_fire [inv_intros]: "aio_core s \<Longrightarrow> aio_ok (fire p a s)"
  unfolding fire_def by (intro inv_intros)

lemma core_fire [inv_intros]: "aio_core s \<Longrightarrow> aio_core (fire p a s)"
  using ok_fire core_of_ok by blast

lemma infos_of_upd:
  assumes "\<And>i q a. action_info_of i (g q a) = action_info_of i a"
  shows "infos_of (map (\<lambda>(q, a). (q, g q a)) as) = infos_of as"
  by (rule nth_equalityI) (simp_all add: nth_infos_of case_prod_beta assms)

lemma ptrs_fire [simp]: "ptrs (fire p a s) = ptrs s"
  by (simp add: fire_def ptrs_def case_prod_beta comp_def)

lemma core_erase_waits:
  assumes "aio_core s" "set acts = {e \<in> set (ah_actions s). fst e \<noteq> p}" "distinct (map fst acts)"
  shows "aio_core ((cancel_timer p s)\<lparr>ah_actions := acts\<rparr>)"
proof -
  have "fst ` set acts = fst ` set (ah_actions s) - {p}" using assms(2) by force
  then show ?thesis using assms(1,3) by (auto simp: aio_core_def ptrs_def distinct_map inj_on_def)
qed

lemma set_without:
  "distinct (map f (xs @ y # ys)) \<Longrightarrow> set (xs @ ys) = {e \<in> set (xs @ y # ys). f e \<noteq> f y}"
  by (auto, (metis imageI)+)

lemma set_erase_key:
  "distinct (map f xs) \<Longrightarrow> i < length xs \<Longrightarrow> set (erase_idx i xs) = {e \<in> set xs. f e \<noteq> f (xs ! i)}"
  using set_without [of f "take i xs" "xs ! i" "drop (Suc i) xs"] erase_idx_split [of i xs]
  by (simp add: erase_idx_def)

lemma ok_erase_idx:
  assumes "aio_core s" "i < length (ah_actions s)"
  shows "aio_ok (rebuild_snapshot ((cancel_timer (fst (ah_actions s ! i)) s)\<lparr>ah_actions := erase_idx i (ah_actions s)\<rparr>))"
proof (intro core_rebuild core_erase_waits assms)
  have d: "distinct (map fst (ah_actions s))" using assms(1) by (simp add: aio_core_def ptrs_def)
  then show "distinct (map fst (erase_idx i (ah_actions s)))" by (simp add: map_erase_idx distinct_erase_idx)
  show "set (erase_idx i (ah_actions s)) = {e \<in> set (ah_actions s). fst e \<noteq> fst (ah_actions s ! i)}"
    by (rule set_erase_key [OF d assms(2)])
qed

lemma cancel_erase: "cancel_timer p (s\<lparr>ah_actions := as\<rparr>) = (cancel_timer p s)\<lparr>ah_actions := as\<rparr>"
  by (simp add: cancel_timer_def)

lemma ok_done: "aio_core s \<Longrightarrow> aio_ok (on_action_done p s)"
proof -
  assume c: "aio_core s"
  let ?f = "filter (\<lambda>(q, _). q \<noteq> p) (ah_actions s)"
  have "distinct (map fst ?f)" using c by (auto simp: aio_core_def ptrs_def distinct_map inj_on_def)
  moreover have "set ?f = {e \<in> set (ah_actions s). fst e \<noteq> p}" by auto
  ultimately show ?thesis unfolding on_action_done_def
    using core_erase_waits [OF c, of ?f p] by (simp add: core_rebuild cancel_erase)
qed

lemma ok_core_schedule [inv_intros]: "aio_ok s \<Longrightarrow> p \<in> set (ptrs s) \<Longrightarrow> aio_ok (schedule p a s)"
  by (simp add: aio_ok_def core_schedule)

lemma run_wait_ok: "aio_core s \<Longrightarrow> run_wait sine p s = Some s' \<Longrightarrow> aio_ok s'"
proof -
  assume c: "aio_core s" and r: "run_wait sine p s = Some s'"
  then obtain a where a: "map_of (ah_actions s) p = Some a"
    by (auto simp: run_wait_def split: option.splits)
  then have p: "p \<in> set (ptrs s)" by (force simp: ptrs_def dest: map_of_SomeD)
  then show ?thesis using r a c
    by (auto simp: run_wait_def Let_def split: action_kind.splits option.splits
        intro!: inv_intros ok_done)
qed

lemma run_task_ok:
  assumes "aio_ok s" "run_task t s = Some s'"
    and "\<forall>p a. t = Add_action p a \<or> t = Add_action_paused p a \<longrightarrow>
          p \<notin> set (ptrs s @ map fst (queued_adds (ah_queue s))) \<and> p < ah_fresh s"
  shows "aio_ok s'"
proof -
  note c = core_of_ok [OF assms(1)]
  have fst_nth: "fst (ah_actions s ! i) \<in> set (ptrs s)" if "i < length (ah_actions s)" for i
    using that by (simp add: ptrs_def)
  show ?thesis
  proof (cases t)
    case (Toggle_pause i)
    show ?thesis
    proof (cases "i < length (ah_actions s)")
      case True
      with fst_nth [OF True] Toggle_pause assms(2) c show ?thesis
        by (auto simp: pause_def resume_def split: prod.splits intro!: inv_intros)
    qed (use Toggle_pause assms(1,2) in simp)
  next
    case (Update_payload i b)
    with assms(1,2) show ?thesis
      by (auto simp: aio_ok_def core_upd action_info_of_def intro!: infos_of_upd [symmetric] split: if_splits)
  next
    case (Remove_action i)
    with assms(1,2) ok_erase_idx [OF c, of i] show ?thesis by (auto split: if_splits)
  qed (use assms c in \<open>auto simp: pause_def split: if_splits action_kind.splits prod.splits
      intro!: inv_intros\<close>)
qed

lemma run_next_ok: "aio_ok s \<Longrightarrow> run_next sine s = Some s' \<Longrightarrow> aio_ok s'"
proof (cases "ah_queue s")
  case (Cons j js)
  assume ok: "aio_ok s" and r: "run_next sine s = Some s'"
  from r Cons have r': "run_job sine j (s\<lparr>ah_queue := js\<rparr>) = Some s'" by (simp add: run_next_def)
  note pop = core_pop [OF core_of_ok [OF ok] Cons]
  then have pok: "aio_ok (s\<lparr>ah_queue := js\<rparr>)" using ok by (simp add: aio_ok_def)
  show ?thesis
  proof (cases j)
    case (Task t)
    with r' pop show ?thesis by (intro run_task_ok [OF pok, of t]) auto
  next
    case (Wait p b)
    with r' pok pop show ?thesis by (auto split: if_splits intro: run_wait_ok)
  qed
qed (simp add: run_next_def)

lemma post_ok [inv_intros]:
  "aio_ok s \<Longrightarrow> \<forall>p a. t \<noteq> Add_action p a \<and> t \<noteq> Add_action_paused p a \<Longrightarrow> aio_ok (post_task t s)"
  by (cases t) (simp_all add: aio_ok_def aio_core_def post_task_def ptrs_def)

lemma add_ok [inv_intros]: "aio_ok s \<Longrightarrow> aio_ok (add_action a s)" "aio_ok s \<Longrightarrow> aio_ok (add_action_paused a s)"
  by (auto simp: aio_ok_def aio_core_def add_action_def add_action_paused_def post_task_def ptrs_def
      less_Suc_eq image_iff)

lemma expire_ok [inv_intros]: "aio_ok s \<Longrightarrow> aio_ok (expire_wait i s)"
proof -
  assume ok: "aio_ok s"
  have "fst ` set (erase_idx i (ah_waits s)) \<subseteq> fst ` set (ah_waits s)"
    by (rule image_mono [OF set_erase_idx])
  also have "\<dots> \<subseteq> set (ptrs s)" using ok by (simp add: aio_ok_def aio_core_def)
  finally have "fst ` set (erase_idx i (ah_waits s)) \<subseteq> set (ptrs s)" .
  with ok show ?thesis
    by (simp add: aio_ok_def aio_core_def expire_wait_def map_erase_idx distinct_erase_idx ptrs_def)
qed

lemma aio_step_ok: "aio_step sine guard s s' \<Longrightarrow> aio_ok s \<Longrightarrow> aio_ok s'"
proof (induction rule: aio_step.induct)
  case (run s s')
  then show ?case by (blast intro: run_next_ok)
qed (auto simp: remove_action_def toggle_pause_def update_sin_param_def update_payload_def set_notify_def
    aio_ok_def [of "_\<lparr>ah_notify := _\<rparr>"] aio_ok_def [of "_\<lparr>ah_store := _\<rparr>"] aio_ok_def [of "_\<lparr>ah_now := _\<rparr>"]
    core_of_ok dest: aio_ok_def [THEN iffD1] intro: inv_intros)

lemma initial_ok: "initial s \<Longrightarrow> aio_ok s"
  unfolding initial_def by (erule ssubst) (simp add: aio_ok_def aio_core_def mk_action_handler_def ptrs_def infos_of_def)

interpretation aio: safe_system initial "aio_step sine guard" aio_ok
  by unfold_locales (auto intro: initial_ok aio_step_ok)

section \<open>Orderly schedules\<close>

text \<open>
  A schedule is orderly when the asio thread never runs a \<open>remove_action\<close> or \<open>toggle_pause\<close>
  while an expired wait of the action it addresses is behind it in the queue.
\<close>

definition orderly :: "'m action_handler \<Rightarrow> bool" where
  "orderly s =
     (case ah_queue s of
        Task (Remove_action i) # js \<Rightarrow> i < length (ah_actions s) \<longrightarrow> fst (ah_actions s ! i) \<notin> set (succ_waits js)
      | Task (Toggle_pause i) # js \<Rightarrow> i < length (ah_actions s) \<longrightarrow> fst (ah_actions s ! i) \<notin> set (succ_waits js)
      | _ \<Rightarrow> True)"

abbreviation orderly_reach :: "(dbl \<Rightarrow> dbl) \<Rightarrow> 'm action_handler \<Rightarrow> bool" where
  "orderly_reach sine s \<equiv> \<exists>s0. initial s0 \<and> (aio_step sine orderly)\<^sup>*\<^sup>* s0 s"

text \<open>The waits that have not run yet, pending or queued with success.\<close>

definition outstanding :: "'m action_handler \<Rightarrow> nat list" where
  "outstanding s = map fst (ah_waits s) @ succ_waits (ah_queue s)"

definition next_due :: "'m action \<Rightarrow> int" where
  "next_due a = ac_last_sent a + period (ac_kind a) * 1000000"

definition entry_ok :: "'m action_handler \<Rightarrow> nat \<Rightarrow> 'm action \<Rightarrow> bool" where
  "entry_ok s p a \<longleftrightarrow> (p \<in> set (outstanding s) \<longleftrightarrow> \<not> ac_paused a)
     \<and> (ac_ever_sent a \<longrightarrow> ac_kind a \<noteq> Single_action \<and> ac_last_sent a \<le> ah_now s
         \<and> (\<forall>t. (p, t) \<in> set (ah_waits s) \<longrightarrow> next_due a \<le> t)
         \<and> (p \<in> set (succ_waits (ah_queue s)) \<longrightarrow> next_due a \<le> ah_now s))"

text \<open>The invariant, for all actions but those in \<open>P\<close>, which have no wait outstanding.\<close>

definition ord_but :: "nat set \<Rightarrow> 'm action_handler \<Rightarrow> bool" where
  "ord_but P s \<longleftrightarrow> distinct (outstanding s) \<and> set (outstanding s) \<subseteq> set (ptrs s) - P
     \<and> (\<forall>(q, a)\<in>set (ah_actions s). q \<notin> P \<longrightarrow> entry_ok s q a)
     \<and> (\<forall>(q, a)\<in>set (queued_adds (ah_queue s)). \<not> ac_ever_sent a \<and> \<not> ac_paused a)"

definition ord_ok :: "'m action_handler \<Rightarrow> bool" where
  "ord_ok s \<longleftrightarrow> aio_ok s \<and> ord_but {} s"

lemma outstanding_parts [simp]:
  "outstanding (upd_action p f s) = outstanding s" "outstanding (rebuild_snapshot s) = outstanding s"
  "outstanding (s\<lparr>ah_store := m\<rparr>) = outstanding s" "outstanding (s\<lparr>ah_sent := l\<rparr>) = outstanding s"
  "outstanding (s\<lparr>ah_actions := as\<rparr>) = outstanding s"
  by (simp_all add: outstanding_def)

lemma entry_ok_parts [simp]:
  "entry_ok (upd_action p f s) = entry_ok s" "entry_ok (rebuild_snapshot s) = entry_ok s"
  "entry_ok (s\<lparr>ah_store := m\<rparr>) = entry_ok s" "entry_ok (s\<lparr>ah_sent := l\<rparr>) = entry_ok s"
  "entry_ok (s\<lparr>ah_actions := as\<rparr>) = entry_ok s"
  by (auto simp: entry_ok_def fun_eq_iff outstanding_def)

lemma ord_upd [inv_intros]: "ord_but {p} s \<Longrightarrow> ord_but {p} (upd_action p f s)"
  by (fastforce simp: ord_but_def)

lemma ord_rebuild [simp]: "ord_but P (rebuild_snapshot s) = ord_but P s"
  by (simp add: ord_but_def)

lemma ord_store [simp]: "ord_but P (s\<lparr>ah_store := m\<rparr>) = ord_but P s"
  by (simp add: ord_but_def)

lemma ord_sent [simp]: "ord_but P (s\<lparr>ah_sent := m\<rparr>) = ord_but P s"
  by (simp add: ord_but_def ptrs_def)

lemma ord_fire [inv_intros]: "ord_but {p} s \<Longrightarrow> ord_but {p} (fire p a s)"
  unfolding fire_def by (simp add: ord_upd)

lemma outstanding_cancel: "set (outstanding (cancel_timer p s)) = fst ` {w \<in> set (ah_waits s). fst w \<noteq> p} \<union> set (succ_waits (ah_queue s))"
  by (auto simp: outstanding_def)

lemma entry_ok_cancel: "q \<noteq> p \<Longrightarrow> entry_ok (cancel_timer p s) q a = entry_ok s q a"
  by (force simp: entry_ok_def outstanding_def)

lemma distinct_outstanding_cancel: "distinct (outstanding s) \<Longrightarrow> distinct (outstanding (cancel_timer p s))"
  by (auto simp: outstanding_def distinct_map inj_on_def)

lemma ord_cancel:
  assumes "ord_but P s" "P \<subseteq> {p}" "p \<notin> set (succ_waits (ah_queue s))"
  shows "ord_but {p} (cancel_timer p s)"
proof -
  have "set (outstanding (cancel_timer p s)) \<subseteq> set (outstanding s) - {p}"
    using assms(3) unfolding outstanding_cancel by (auto simp: outstanding_def)
  then show ?thesis using assms(1,2) distinct_outstanding_cancel [of s p]
    by (auto simp: ord_but_def entry_ok_cancel)
qed

text \<open>From the exception of one action back to all of them.\<close>

lemma not_outstanding:
  "p \<notin> set (outstanding s) \<Longrightarrow> (p, t) \<notin> set (ah_waits s) \<and> p \<notin> set (succ_waits (ah_queue s))"
  by (force simp: outstanding_def)

lemma ord_paused:
  assumes "ord_but {p} s"
    and "\<forall>(q, a)\<in>set (ah_actions s). q = p \<longrightarrow> ac_paused a
      \<and> (ac_ever_sent a \<longrightarrow> ac_kind a \<noteq> Single_action \<and> ac_last_sent a \<le> ah_now s)"
  shows "ord_but {} s"
proof -
  have no: "p \<notin> set (outstanding s)" using assms(1) by (auto simp: ord_but_def)
  have "entry_ok s q a" if "(q, a) \<in> set (ah_actions s)" for q a
  proof (cases "q = p")
    case True
    with that assms(2) no not_outstanding [OF no] show ?thesis by (auto simp: entry_ok_def)
  next
    case False
    with that assms(1) show ?thesis by (auto simp: ord_but_def)
  qed
  with assms(1) show ?thesis by (auto simp: ord_but_def)
qed

lemma ord_schedule:
  assumes "ord_but {p} s" "p \<in> set (ptrs s)"
    and "\<forall>(q, b)\<in>set (ah_actions s). q = p \<longrightarrow> \<not> ac_paused b \<and> period (ac_kind b) = period (ac_kind a)
      \<and> (ac_ever_sent b \<longrightarrow> ac_kind b \<noteq> Single_action \<and> ac_last_sent b \<le> ah_now s)"
  shows "ord_but {} (schedule p a s)"
proof -
  have no: "p \<notin> set (outstanding s)" using assms(1) by (auto simp: ord_but_def)
  then have w: "filter (\<lambda>w. fst w \<noteq> p) (ah_waits s) = ah_waits s"
    by (intro filter_True) (auto simp: outstanding_def)
  have o: "set (outstanding (schedule p a s)) = insert p (set (outstanding s))"
    "distinct (outstanding (schedule p a s))"
    using no assms(1) by (auto simp: outstanding_def w ord_but_def)
  have "entry_ok (schedule p a s) q b" if "(q, b) \<in> set (ah_actions s)" for q b
  proof (cases "q = p")
    case True
    with that assms(3) no not_outstanding [OF no] show ?thesis
      by (auto simp: entry_ok_def o next_due_def w)
  next
    case False
    with that assms(1) have "entry_ok s q b" by (auto simp: ord_but_def)
    with False show ?thesis by (simp add: entry_ok_def o w)
  qed
  with assms(1,2) o show ?thesis by (auto simp: ord_but_def)
qed

lemma ord_add:
  "ord_but {} s \<Longrightarrow> p \<notin> set (ptrs s) \<Longrightarrow> ord_but {p} (s\<lparr>ah_actions := ah_actions s @ [(p, a)]\<rparr>)"
  by (auto simp: ord_but_def ptrs_def)

lemma ord_erase:
  assumes "ord_but {p} s" "set acts = {e \<in> set (ah_actions s). fst e \<noteq> p}"
  shows "ord_but {} (s\<lparr>ah_actions := acts\<rparr>)"
proof -
  have "set (map fst acts) = set (ptrs s) - {p}" using assms(2) by (force simp: ptrs_def)
  then show ?thesis using assms by (auto simp: ord_but_def ptrs_def)
qed

lemma ord_pop:
  assumes "ord_but {} s" "ah_queue s = j # js"
  shows "ord_but (case j of Wait p True \<Rightarrow> {p} | _ \<Rightarrow> {}) (s\<lparr>ah_queue := js\<rparr>)"
    and "\<forall>p a. j = Task (Add_action p a) \<or> j = Task (Add_action_paused p a) \<longrightarrow> \<not> ac_ever_sent a \<and> \<not> ac_paused a"
proof -
  let ?s = "s\<lparr>ah_queue := js\<rparr>"
  show "\<forall>p a. j = Task (Add_action p a) \<or> j = Task (Add_action_paused p a) \<longrightarrow> \<not> ac_ever_sent a \<and> \<not> ac_paused a"
    using assms by (auto simp: ord_but_def)
  show "ord_but (case j of Wait p True \<Rightarrow> {p} | _ \<Rightarrow> {}) ?s"
  proof (cases "\<exists>p. j = Wait p True")
    case True
    then obtain p where j: "j = Wait p True" by blast
    with assms have d: "distinct (outstanding s)" "outstanding s = map fst (ah_waits s) @ p # succ_waits js"
      by (auto simp: ord_but_def outstanding_def)
    then have o: "distinct (outstanding ?s)" "set (outstanding ?s) = set (outstanding s) - {p}"
      by (auto simp: outstanding_def)
    have "entry_ok ?s q a" if "entry_ok s q a" "q \<noteq> p" for q a
      using that o assms(2) j by (auto simp: entry_ok_def)
    then show ?thesis using assms j o by (fastforce simp: ord_but_def)
  next
    case False
    then have n: "succ_waits (j # js) = succ_waits js" "(case j of Wait p True \<Rightarrow> {p} | _ \<Rightarrow> {}) = {}"
      by (cases j; auto split: bool.splits)+
    then have "outstanding ?s = outstanding s" using assms(2) by (simp add: outstanding_def)
    moreover have "set (queued_adds js) \<subseteq> set (queued_adds (j # js))"
      by (cases "j # js" rule: queued_adds.cases) auto
    ultimately show ?thesis using assms n
      by (auto simp: ord_but_def entry_ok_def)
  qed
qed

lemma ord_start:
  assumes "ord_but {} s" "p \<notin> set (ptrs s)" "\<not> ac_ever_sent a" "\<not> ac_paused a"
  shows "ord_but {} (start_action p a s)"
  unfolding start_action_def using assms
  by (intro ord_schedule ord_add) (auto simp: ptrs_def image_iff)

lemma ord_start_paused:
  assumes "ord_but {} s" "p \<notin> set (ptrs s)" "\<not> ac_ever_sent a" "\<not> ac_paused a"
  shows "ord_but {} (pause p (start_action p a s))"
proof -
  have "p \<notin> set (succ_waits (ah_queue (start_action p a s)))"
    using assms(1,2) by (auto simp: start_action_def ord_but_def outstanding_def)
  then have "ord_but {p} (cancel_timer p (start_action p a s))"
    by (intro ord_cancel [OF ord_start [OF assms]]) simp_all
  then have c: "ord_but {p} (upd_action p f (cancel_timer p (start_action p a s)))" for f
    by (rule ord_upd)
  have "cancel_timer p (upd_action p f x) = upd_action p f (cancel_timer p x)" for f and x :: "'a action_handler"
    by (simp add: cancel_timer_def upd_action_def)
  then show ?thesis unfolding pause_def
    by (simp only:) (rule ord_paused [OF c], use assms in \<open>auto simp: start_action_def ptrs_def image_iff\<close>)
qed

lemma ord_entry:
  assumes "ord_but {} s" "(p, a) \<in> set (ah_actions s)"
  shows "entry_ok s p a"
  using assms by (auto simp: ord_but_def)

lemma ord_weaken: "ord_but {} s \<Longrightarrow> p \<notin> set (outstanding s) \<Longrightarrow> ord_but {p} s"
  by (auto simp: ord_but_def)

lemma core_unique: "aio_core s \<Longrightarrow> (p, a) \<in> set (ah_actions s) \<Longrightarrow> (p, b) \<in> set (ah_actions s) \<Longrightarrow> b = a"
  unfolding aio_core_def ptrs_def by (auto dest: eq_key_imp_eq_value)

lemma fire_actions:
  "ah_actions (fire p a s) = map (\<lambda>(q, b). (q, if q = p then b\<lparr>ac_last_sent := ah_now s, ac_ever_sent := True\<rparr> else b)) (ah_actions s)"
  by (simp add: fire_def)

lemma fire_parts [simp]:
  "ah_queue (fire p a s) = ah_queue s" "ah_waits (fire p a s) = ah_waits s" "ah_now (fire p a s) = ah_now s"
  "ah_store (fire p a s) = ah_store s"
  "ah_sent (fire p a s) = ah_sent s @ [\<lparr>snd_interface = ac_interface a, snd_id = ac_msg_id a,
     snd_data = ac_payload a, snd_time = ah_now s\<rparr>]"
  by (simp_all add: fire_def)

lemma ord_done:
  assumes "ord_but {p} s"
  shows "ord_but {} (on_action_done p s)"
proof -
  have "p \<notin> set (succ_waits (ah_queue s))" using assms by (auto simp: ord_but_def outstanding_def)
  then have "ord_but {p} (cancel_timer p s)" by (rule ord_cancel [OF assms subset_refl])
  then have "ord_but {} ((cancel_timer p s)\<lparr>ah_actions := filter (\<lambda>(q, _). q \<noteq> p) (ah_actions s)\<rparr>)"
    by (rule ord_erase) auto
  then show ?thesis by (simp add: on_action_done_def cancel_erase)
qed

lemma run_wait_ord:
  assumes "ord_but {p} s" "aio_core s" "\<forall>a. (p, a) \<in> set (ah_actions s) \<longrightarrow> \<not> ac_paused a"
    and "run_wait sine p s = Some s'"
  shows "ord_but {} s'"
proof -
  obtain a where a: "map_of (ah_actions s) p = Some a"
    using assms(4) by (auto simp: run_wait_def split: option.splits)
  then have m: "(p, a) \<in> set (ah_actions s)" by (rule map_of_SomeD)
  then have p: "p \<in> set (ptrs s)" by (force simp: ptrs_def)
  note u = core_unique [OF assms(2) m]
  show ?thesis
  proof (cases "ac_kind a")
    case Single_action
    with assms(4) a show ?thesis by (auto simp: run_wait_def intro: ord_done ord_fire assms(1))
  next
    case (Periodic_action ms)
    with assms(4) a have s': "s' = schedule p a (fire p a s)" by (simp add: run_wait_def)
    show ?thesis unfolding s'
      using assms(3) u Periodic_action p
      by (intro ord_schedule ord_fire assms(1)) (auto simp: fire_actions)
  next
    case (Sin_action sp)
    with assms(4) a obtain m b where s': "s' = schedule p (a\<lparr>ac_payload := b\<rparr>)
        (fire p (a\<lparr>ac_payload := b\<rparr>) (upd_action p (\<lambda>_. a\<lparr>ac_payload := b\<rparr>) (s\<lparr>ah_store := m\<rparr>)))"
      by (auto simp: run_wait_def Let_def split: option.splits)
    have na: "\<not> ac_paused a" using assms(3) m by blast
    show ?thesis unfolding s'
    proof (intro ord_schedule ord_fire ord_upd)
      show "ord_but {p} (s\<lparr>ah_store := m\<rparr>)" using assms(1) by simp
    qed (use na Sin_action p in \<open>auto simp: fire_actions\<close>)
  qed
qed

lemma ord_upd_same:
  assumes "ord_but {} s"
    and "\<forall>a. (p, a) \<in> set (ah_actions s) \<longrightarrow> ac_paused (f a) = ac_paused a \<and> ac_ever_sent (f a) = ac_ever_sent a
      \<and> ac_last_sent (f a) = ac_last_sent a \<and> period (ac_kind (f a)) = period (ac_kind a)
      \<and> (ac_kind a \<noteq> Single_action \<longrightarrow> ac_kind (f a) \<noteq> Single_action)"
  shows "ord_but {} (upd_action p f s)"
proof -
  have "entry_ok s q (if q = p then f a else a)" if m: "(q, a) \<in> set (ah_actions s)" for q a
    using ord_entry [OF assms(1) m] assms(2) m by (auto simp: entry_ok_def next_due_def)
  then show ?thesis using assms(1) by (auto simp: ord_but_def)
qed

lemma toggle_ord:
  assumes "ord_but {} s" "aio_core s" "i < length (ah_actions s)" "ah_actions s ! i = (p, a)"
    and "p \<notin> set (succ_waits (ah_queue s))"
  shows "ord_but {} (if ac_paused a then resume p a s else pause p s)"
proof -
  have m: "(p, a) \<in> set (ah_actions s)" using assms(3,4) nth_mem by metis
  then have p: "p \<in> set (ptrs s)" by (force simp: ptrs_def)
  note e = ord_entry [OF assms(1) m] and u = core_unique [OF assms(2) m]
  have same: "period (resume_kind n k) = period k" "(resume_kind n k = Single_action) = (k = Single_action)"
    "(pause_kind n k = Single_action) = (k = Single_action)" for n k
    by (cases k; simp add: resume_kind_def pause_kind_def)+
  show ?thesis
  proof (cases "ac_paused a")
    case True
    with e have "p \<notin> set (outstanding s)" by (simp add: entry_ok_def)
    then have w: "ord_but {p} s" by (rule ord_weaken [OF assms(1)])
    have "ord_but {} (resume p a s)" unfolding resume_def
      using e u p by (intro ord_schedule ord_upd w) (auto simp: same entry_ok_def)
    with True show ?thesis by simp
  next
    case False
    have "ord_but {p} (cancel_timer p s)" by (rule ord_cancel [OF assms(1) _ assms(5)]) simp
    then have c: "ord_but {p} (upd_action p f (cancel_timer p s))" for f by (rule ord_upd)
    have "cancel_timer p (upd_action p f s) = upd_action p f (cancel_timer p s)" for f
      by (simp add: cancel_timer_def upd_action_def)
    then have "ord_but {} (pause p s)" unfolding pause_def
      by (simp only:) (rule ord_paused [OF c], use e u in \<open>auto simp: same entry_ok_def\<close>)
    with False show ?thesis by simp
  qed
qed

lemma set_sin_param_interval [simp]: "set_sin_param param v q = Some q' \<Longrightarrow> sp_interval q' = sp_interval q"
  by (auto simp: set_sin_param_def split: if_splits)

lemma run_task_ord:
  assumes "ord_but {} s" "aio_ok s" "run_task t s = Some s'"
    and "\<forall>p a. t = Add_action p a \<or> t = Add_action_paused p a \<longrightarrow>
          p \<notin> set (ptrs s) \<and> \<not> ac_ever_sent a \<and> \<not> ac_paused a"
    and "\<forall>i. t = Remove_action i \<or> t = Toggle_pause i \<longrightarrow> i < length (ah_actions s)
          \<longrightarrow> fst (ah_actions s ! i) \<notin> set (succ_waits (ah_queue s))"
  shows "ord_but {} s'"
proof -
  note c = core_of_ok [OF assms(2)]
  show ?thesis
  proof (cases t)
    case (Add_action p a)
    with assms show ?thesis by (auto intro: ord_start)
  next
    case (Add_action_paused p a)
    with assms show ?thesis by (auto intro: ord_start_paused)
  next
    case (Remove_action i)
    show ?thesis
    proof (cases "i < length (ah_actions s)")
      case True
      let ?p = "fst (ah_actions s ! i)"
      have d: "distinct (map fst (ah_actions s))" using c by (simp add: aio_core_def ptrs_def)
      have "ord_but {?p} (cancel_timer ?p s)"
        using Remove_action True assms(5) by (intro ord_cancel [OF assms(1)]) auto
      then have "ord_but {} ((cancel_timer ?p s)\<lparr>ah_actions := erase_idx i (ah_actions s)\<rparr>)"
        by (rule ord_erase) (simp add: set_erase_key [OF d True])
      with Remove_action True assms(3) show ?thesis by auto
    qed (use Remove_action assms(1,3) in simp)
  next
    case (Toggle_pause i)
    show ?thesis
    proof (cases "i < length (ah_actions s)")
      case True
      obtain p a where pa: "ah_actions s ! i = (p, a)" by (cases "ah_actions s ! i")
      with Toggle_pause True assms(5) have "p \<notin> set (succ_waits (ah_queue s))" by fastforce
      from toggle_ord [OF assms(1) c True pa this] Toggle_pause True pa assms(3) show ?thesis by auto
    qed (use Toggle_pause assms(1,3) in simp)
  next
    case (Update_sin_param i param v)
    show ?thesis
    proof (cases "i < length (ah_actions s)")
      case True
      obtain p a where pa: "ah_actions s ! i = (p, a)" by (cases "ah_actions s ! i")
      then have u: "b = a" if "(p, b) \<in> set (ah_actions s)" for b
        using core_unique [OF c _ that] True nth_mem by metis
      show ?thesis using Update_sin_param True pa assms(1,3) u
        by (auto split: action_kind.splits intro!: ord_upd_same)
    qed (use Update_sin_param assms(1,3) in simp)
  next
    case (Update_payload i b)
    with assms(1,3) show ?thesis by (auto split: if_splits intro!: ord_upd_same)
  qed
qed

lemma run_next_ord: "ord_ok s \<Longrightarrow> orderly s \<Longrightarrow> run_next sine s = Some s' \<Longrightarrow> ord_ok s'"
proof (cases "ah_queue s")
  case (Cons j js)
  assume ok: "ord_ok s" and o: "orderly s" and r: "run_next sine s = Some s'"
  then have aok: "aio_ok s" and ord: "ord_but {} s" by (simp_all add: ord_ok_def)
  from r Cons have r': "run_job sine j (s\<lparr>ah_queue := js\<rparr>) = Some s'" by (simp add: run_next_def)
  note pop = ord_pop [OF ord Cons] and cpop = core_pop [OF core_of_ok [OF aok] Cons]
  then have pok: "aio_ok (s\<lparr>ah_queue := js\<rparr>)" using aok by (simp add: aio_ok_def)
  have "ord_but {} s'"
  proof (cases j)
    case (Task t)
    show ?thesis
    proof (rule run_task_ord [OF _ pok])
      show "run_task t (s\<lparr>ah_queue := js\<rparr>) = Some s'" using r' Task by simp
    qed (use pop cpop Task o Cons in \<open>auto simp: orderly_def\<close>)
  next
    case (Wait p b)
    show ?thesis
    proof (cases b)
      case True
      have "p \<in> set (outstanding s)" using Wait True Cons by (simp add: outstanding_def)
      with ord have "\<forall>a. (p, a) \<in> set (ah_actions s) \<longrightarrow> \<not> ac_paused a"
        by (auto simp: ord_but_def entry_ok_def)
      with Wait True pop(1) r' cpop show ?thesis by (auto intro: run_wait_ord)
    qed (use Wait pop(1) r' in simp)
  qed
  with run_next_ok [OF aok r] show ?thesis by (simp add: ord_ok_def)
qed (simp add: run_next_def)

lemma ord_post [inv_intros]:
  "ord_but {} s \<Longrightarrow> \<forall>p a. t \<noteq> Add_action p a \<and> t \<noteq> Add_action_paused p a \<Longrightarrow> ord_but {} (post_task t s)"
  by (cases t) (auto simp: ord_but_def entry_ok_def outstanding_def post_task_def ptrs_def)

lemma ord_add_call [inv_intros]:
  assumes "ord_but {} s" "\<not> ac_ever_sent a" "\<not> ac_paused a"
  shows "ord_but {} (add_action a s)" "ord_but {} (add_action_paused a s)"
  using assms
  by (auto simp: ord_but_def entry_ok_def outstanding_def add_action_def add_action_paused_def post_task_def ptrs_def)

lemma entry_ok_tick: "entry_ok s q a \<Longrightarrow> 0 \<le> d \<Longrightarrow> entry_ok (s\<lparr>ah_now := ah_now s + d\<rparr>) q a"
  by (auto simp: entry_ok_def outstanding_def)

lemma ord_tick: "ord_but {} s \<Longrightarrow> 0 \<le> d \<Longrightarrow> ord_but {} (s\<lparr>ah_now := ah_now s + d\<rparr>)"
  by (fastforce simp: ord_but_def outstanding_def ptrs_def intro!: entry_ok_tick)

lemma ord_notify: "ord_but {} s \<Longrightarrow> ord_but {} (set_notify s)"
  by (simp add: ord_but_def entry_ok_def outstanding_def set_notify_def ptrs_def)

lemma ord_expire:
  assumes "ord_but {} s" "i < length (ah_waits s)" "snd (ah_waits s ! i) \<le> ah_now s"
  shows "ord_but {} (expire_wait i s)"
proof -
  obtain p t where w: "ah_waits s ! i = (p, t)" by (cases "ah_waits s ! i")
  let ?e = "erase_idx i (ah_waits s)" and ?s = "expire_wait i s"
  have m: "mset (map fst ?e @ [p]) = mset (map fst (ah_waits s))"
    by (subst erase_idx_split [OF assms(2)]) (simp add: erase_idx_def w)
  have parts: "ah_waits ?s = ?e" "ah_queue ?s = ah_queue s @ [Wait p True]" "ah_now ?s = ah_now s"
    "ah_actions ?s = ah_actions s" "ptrs ?s = ptrs s"
    by (simp_all add: expire_wait_def w ptrs_def)
  have o: "mset (outstanding ?s) = mset (outstanding s)"
    using m by (simp add: outstanding_def parts)
  then have os: "set (outstanding ?s) = set (outstanding s)" "distinct (outstanding ?s) = distinct (outstanding s)"
    using mset_eq_setD mset_eq_imp_distinct_iff by blast+
  have pt: "(p, t) \<in> set (ah_waits s)" using assms(2) w nth_mem by metis
  have "entry_ok ?s q a" if "entry_ok s q a" for q a
  proof -
    have "(q, u) \<in> set (ah_waits s)" if "(q, u) \<in> set ?e" for u using that set_erase_idx by fastforce
    with that pt assms(3) show ?thesis by (auto simp: entry_ok_def os parts w)
  qed
  with assms(1) os parts show ?thesis by (auto simp: ord_but_def)
qed

lemma ord_mk: "ord_but {} (mk_action_handler n m)"
  by (simp add: ord_but_def mk_action_handler_def outstanding_def)

lemma ord_initial: "initial s \<Longrightarrow> ord_ok s"
  using initial_ok ord_mk unfolding ord_ok_def initial_def by metis

lemma aio_step_ord: "aio_step sine orderly s s' \<Longrightarrow> ord_ok s \<Longrightarrow> ord_ok s'"
proof -
  assume st: "aio_step sine orderly s s'" and ok: "ord_ok s"
  then have "aio_ok s'" using aio_step_ok by (auto simp: ord_ok_def)
  moreover from ok have o: "ord_but {} s" by (simp add: ord_ok_def)
  from st ok have "ord_but {} s'"
  proof (induction rule: aio_step.induct)
    case (run s s')
    then show ?case using run_next_ord by (auto simp: ord_ok_def)
  qed (auto simp: ord_ok_def remove_action_def toggle_pause_def update_sin_param_def update_payload_def
      intro: inv_intros ord_tick ord_notify ord_expire)
  ultimately show ?thesis by (simp add: ord_ok_def)
qed

interpretation aio_orderly: safe_system initial "aio_step sine orderly" ord_ok
  by unfold_locales (auto intro: ord_initial aio_step_ord)

section \<open>Schedules as event lists\<close>

datatype 'm event =
    Ev_add "'m action" | Ev_add_paused "'m action" | Ev_remove nat | Ev_toggle nat
  | Ev_tick nat | Ev_expire nat | Ev_run

fun do_event :: "(dbl \<Rightarrow> dbl) \<Rightarrow> ('m action_handler \<Rightarrow> bool) \<Rightarrow> 'm event \<Rightarrow> 'm action_handler \<Rightarrow> 'm action_handler option" where
  "do_event sine guard (Ev_add a) s = (if ac_ever_sent a \<or> ac_paused a then None else Some (add_action a s))"
| "do_event sine guard (Ev_add_paused a) s = (if ac_ever_sent a \<or> ac_paused a then None else Some (add_action_paused a s))"
| "do_event sine guard (Ev_remove i) s = Some (remove_action i s)"
| "do_event sine guard (Ev_toggle i) s = Some (toggle_pause i s)"
| "do_event sine guard (Ev_tick d) s = Some (s\<lparr>ah_now := ah_now s + int d\<rparr>)"
| "do_event sine guard (Ev_expire i) s =
     (if i < length (ah_waits s) \<and> snd (ah_waits s ! i) \<le> ah_now s then Some (expire_wait i s) else None)"
| "do_event sine guard Ev_run s = (if guard s then run_next sine s else None)"

fun do_events :: "(dbl \<Rightarrow> dbl) \<Rightarrow> ('m action_handler \<Rightarrow> bool) \<Rightarrow> 'm event list \<Rightarrow> 'm action_handler \<Rightarrow> 'm action_handler option" where
  "do_events sine guard [] s = Some s"
| "do_events sine guard (e # es) s =
     (case do_event sine guard e s of None \<Rightarrow> None | Some s' \<Rightarrow> do_events sine guard es s')"

lemma do_event_step: "do_event sine guard e s = Some s' \<Longrightarrow> aio_step sine guard s s'"
  by (cases e) (auto intro: aio_step.intros split: if_splits)

lemma do_events_steps: "do_events sine guard es s = Some s' \<Longrightarrow> (aio_step sine guard)\<^sup>*\<^sup>* s s'"
proof (induction es arbitrary: s)
  case (Cons e es)
  then obtain s1 where "do_event sine guard e s = Some s1" "do_events sine guard es s1 = Some s'"
    by (auto split: option.splits)
  with Cons.IH do_event_step show ?case by (meson converse_rtranclp_into_rtranclp)
qed simp

lemma do_events_reach:
  "do_events sine guard es (mk_action_handler n m) = Some s \<Longrightarrow>
    \<exists>s0. initial s0 \<and> (aio_step sine guard)\<^sup>*\<^sup>* s0 s"
  by (rule exI [of _ "mk_action_handler n m"]) (simp add: do_events_steps initial_def, simp add: mk_action_handler_def)

section \<open>Addresses are never reused\<close>

definition known :: "'m action_handler \<Rightarrow> nat set" where
  "known s = set (ptrs s) \<union> fst ` set (queued_adds (ah_queue s))"

lemma ptrs_actions [simp]: "ptrs (s\<lparr>ah_actions := as\<rparr>) = map fst as" "ptrs (s\<lparr>ah_sent := l\<rparr>) = ptrs s"
  by (simp_all add: ptrs_def)

lemma start_action_parts [simp]:
  "ptrs (start_action p a s) = ptrs s @ [p]" "queued_adds (ah_queue (start_action p a s)) = queued_adds (ah_queue s)"
  by (simp_all add: start_action_def ptrs_def)

lemma pause_resume_parts [simp]:
  "ptrs (pause p s) = ptrs s" "queued_adds (ah_queue (pause p s)) = queued_adds (ah_queue s)"
  "ptrs (resume p a s) = ptrs s" "queued_adds (ah_queue (resume p a s)) = queued_adds (ah_queue s)"
  by (simp_all add: pause_def resume_def)

lemma on_action_done_parts [simp]:
  "set (ptrs (on_action_done p s)) = set (ptrs s) - {p}"
  "queued_adds (ah_queue (on_action_done p s)) = queued_adds (ah_queue s)"
proof -
  have "fst ` {x \<in> A. case x of (q, _) \<Rightarrow> q \<noteq> p} = fst ` A - {p}" for A :: "(nat \<times> 'a action) set" by force
  then show "set (ptrs (on_action_done p s)) = set (ptrs s) - {p}"
    by (simp add: on_action_done_def) (simp add: ptrs_def)
qed (simp add: on_action_done_def)

lemma in_erase_idx: "x \<in> set (erase_idx i xs) \<Longrightarrow> x \<in> set xs"
  using set_erase_idx by fastforce

lemma run_task_known:
  "run_task t s = Some s' \<Longrightarrow> known s' \<subseteq> known s \<union> fst ` set (queued_adds [Task t])"
  by (cases t) (auto simp: known_def map_erase_idx ptrs_def [symmetric] dest: in_erase_idx split: if_splits prod.splits action_kind.splits)

lemma run_wait_known: "run_wait sine p s = Some s' \<Longrightarrow> known s' \<subseteq> known s"
  by (auto simp: known_def run_wait_def Let_def split: option.splits action_kind.splits)

lemma run_job_fresh: "run_job sine j s = Some s' \<Longrightarrow> ah_fresh s' = ah_fresh s"
proof (cases j)
  case (Task t)
  then show "run_job sine j s = Some s' \<Longrightarrow> ?thesis"
    by (cases t) (auto simp: start_action_def pause_def resume_def split: if_splits prod.splits action_kind.splits)
qed (auto simp: run_wait_def on_action_done_def fire_def Let_def split: if_splits option.splits action_kind.splits)

lemma run_next_known: "run_next sine s = Some s' \<Longrightarrow> known s' \<subseteq> known s \<and> ah_fresh s' = ah_fresh s"
proof (cases "ah_queue s")
  case (Cons j js)
  assume r: "run_next sine s = Some s'"
  with Cons have r: "run_job sine j (s\<lparr>ah_queue := js\<rparr>) = Some s'" by (simp add: run_next_def)
  have q: "known (s\<lparr>ah_queue := js\<rparr>) \<union> fst ` set (queued_adds [j]) = known s"
    using queued_adds_append [of "[j]" js] Cons by (auto simp: known_def)
  have "known s' \<subseteq> known s"
  proof (cases j)
    case (Task t)
    with r run_task_known [of t "s\<lparr>ah_queue := js\<rparr>" s'] q show ?thesis by auto
  next
    case (Wait p b)
    with r run_wait_known [of sine p "s\<lparr>ah_queue := js\<rparr>" s'] q show ?thesis by (auto split: if_splits)
  qed
  with run_job_fresh [OF r] show ?thesis by simp
qed (simp add: run_next_def)

lemma aio_step_known: "aio_step sine guard s s' \<Longrightarrow> known s' \<subseteq> known s \<union> {ah_fresh s..} \<and> ah_fresh s \<le> ah_fresh s'"
proof (induction rule: aio_step.induct)
  case (run s s')
  then show ?case using run_next_known by fastforce
qed (auto simp: known_def ptrs_def set_notify_def add_action_def add_action_paused_def remove_action_def
    toggle_pause_def update_sin_param_def update_payload_def post_task_def expire_wait_def)

lemma steps_known: "(aio_step sine guard)\<^sup>*\<^sup>* s s' \<Longrightarrow> known s' \<subseteq> known s \<union> {ah_fresh s..} \<and> ah_fresh s \<le> ah_fresh s'"
proof (induction rule: rtranclp_induct)
  case (step x y)
  then show ?case using aio_step_known [OF step(2)] by fastforce
qed simp

section \<open>Properties\<close>

definition ex_periodic :: "unit action" where
  "ex_periodic = mk_action ''vcan0'' 291 ''M'' [1] (Periodic_action 100)"

definition ex_single :: "unit action" where
  "ex_single = mk_action ''vcan0'' 292 ''S'' [2] Single_action"

definition ex_start :: "unit action_handler" where
  "ex_start = mk_action_handler 0 ()"

definition ex_ready_events :: "unit event list" where
  "ex_ready_events = [Ev_add ex_periodic, Ev_run, Ev_tick 100000000, Ev_expire 0]"

lemmas exec_defs = ex_ready_events_def ex_start_def ex_periodic_def ex_single_def mk_action_def mk_action_handler_def
  add_action_def remove_action_def toggle_pause_def post_task_def run_next_def start_action_def orderly_def
  expire_wait_def erase_idx_def run_wait_def fire_def pause_def pause_kind_def upd_action_def rebuild_snapshot_def
  schedule_def arm_timer_def cancel_timer_def on_action_done_def Let_def

text \<open>C4: the snapshot the UI reads always describes exactly the actions that exist, in order,
  entry \<open>i\<close> carrying index \<open>i\<close>, under every interleaving of calls, timers and handlers.\<close>

theorem snapshot_is_current:
  assumes "aio_reach sine s"
  shows "length (snapshot s) = length (ah_actions s)
    \<and> (\<forall>i<length (ah_actions s). snapshot s ! i = action_info_of i (snd (ah_actions s ! i)))"
proof -
  from assms have "aio_ok s" using aio.inv_reachable by blast
  then show ?thesis by (simp add: snapshot_def aio_ok_def nth_infos_of)
qed

theorem snapshot_is_current_witness:
  "\<exists>s. do_events (\<lambda>x. x) (\<lambda>_. True) [Ev_add ex_periodic, Ev_run] ex_start = Some s
    \<and> length (snapshot s) = 1 \<and> snapshot s ! 0 = action_info_of 0 ex_periodic"
proof -
  obtain s where s: "do_events (\<lambda>x. x) (\<lambda>_. True) [Ev_add ex_periodic, Ev_run] ex_start = Some s"
    "ah_actions s = [(0, ex_periodic)]"
    by (simp add: exec_defs)
  have "aio_reach (\<lambda>x. x) s" by (rule do_events_reach [OF s(1) [unfolded ex_start_def]])
  from snapshot_is_current [OF this] s show ?thesis by auto
qed

text \<open>C3: in an orderly schedule an expired wait only ever runs on an action that still exists
  and is not paused: no handler touches a destroyed action.\<close>

theorem orderly_no_use_after_free:
  assumes "orderly_reach sine s" "ah_queue s = Wait p True # js"
  shows "\<exists>a. map_of (ah_actions s) p = Some a \<and> \<not> ac_paused a"
proof -
  from assms(1) have ok: "ord_ok s" using aio_orderly.inv_reachable by blast
  have p: "p \<in> set (outstanding s)" using assms(2) by (simp add: outstanding_def)
  with ok obtain a where a: "(p, a) \<in> set (ah_actions s)"
    by (auto simp: ord_ok_def ord_but_def ptrs_def)
  with ok p have "\<not> ac_paused a" by (auto simp: ord_ok_def ord_but_def entry_ok_def)
  moreover have "distinct (map fst (ah_actions s))" using ok by (simp add: ord_ok_def aio_ok_def aio_core_def ptrs_def)
  ultimately show ?thesis using a by auto
qed

lemma ex_ready:
  obtains s where "do_events sine orderly ex_ready_events ex_start = Some s" "ah_queue s = [Wait 0 True]"
    "ah_actions s = [(0, ex_periodic)]" "ah_now s = 100000000"
  by (simp add: exec_defs)

theorem orderly_no_use_after_free_witness:
  "\<exists>s. do_events (\<lambda>x. x) orderly ex_ready_events ex_start = Some s \<and> ah_queue s = [Wait 0 True]
    \<and> (\<exists>a. map_of (ah_actions s) 0 = Some a \<and> \<not> ac_paused a)"
proof -
  obtain s where s: "do_events (\<lambda>x. x) orderly ex_ready_events ex_start = Some s" "ah_queue s = [Wait 0 True]"
    by (rule ex_ready)
  from orderly_no_use_after_free [OF do_events_reach [OF s(1) [unfolded ex_start_def]] s(2)] s show ?thesis by blast
qed

text \<open>C14: in an orderly schedule every action that is not paused has exactly one timer wait
  outstanding, and every paused action has none.\<close>

theorem one_wait_per_action:
  assumes "orderly_reach sine s" "(p, a) \<in> set (ah_actions s)"
  shows "count (mset (outstanding s)) p = (if ac_paused a then 0 else 1)"
proof -
  from assms(1) have ok: "ord_ok s" using aio_orderly.inv_reachable by blast
  then have "p \<in> set (outstanding s) \<longleftrightarrow> \<not> ac_paused a" "distinct (outstanding s)"
    using assms(2) by (auto simp: ord_ok_def ord_but_def entry_ok_def)
  then show ?thesis by (simp add: distinct_count_atmost_1)
qed

theorem one_wait_per_action_witness:
  "\<exists>s. do_events (\<lambda>x. x) orderly ex_ready_events ex_start = Some s \<and> count (mset (outstanding s)) 0 = 1"
proof -
  obtain s where s: "do_events (\<lambda>x. x) orderly ex_ready_events ex_start = Some s" "ah_actions s = [(0, ex_periodic)]"
    by (rule ex_ready)
  from one_wait_per_action [OF do_events_reach [OF s(1) [unfolded ex_start_def]], of 0 ex_periodic] s
  show ?thesis by (simp add: ex_periodic_def mk_action_def)
qed



text \<open>C15: when the expired wait of a single-shot action runs, its payload is sent exactly once,
  the action is erased and the others are untouched, and no later step of any schedule brings
  the action back.\<close>

theorem single_fires_once:
  assumes "aio_reach sine s" "ah_queue s = Wait p True # js" "map_of (ah_actions s) p = Some a"
    and "ac_kind a = Single_action"
  shows "\<exists>s'. run_next sine s = Some s' \<and> ah_actions s' = filter (\<lambda>(q, _). q \<noteq> p) (ah_actions s)
    \<and> ah_sent s' = ah_sent s @ [\<lparr>snd_interface = ac_interface a, snd_id = ac_msg_id a, snd_data = ac_payload a, snd_time = ah_now s\<rparr>]
    \<and> (\<forall>s''. (aio_step sine (\<lambda>_. True))\<^sup>*\<^sup>* s' s'' \<longrightarrow> p \<notin> set (ptrs s''))"
proof -
  from assms(1) have ok: "aio_ok s" using aio.inv_reachable by blast
  let ?s = "on_action_done p (fire p a (s\<lparr>ah_queue := js\<rparr>))"
  have r: "run_next sine s = Some ?s" using assms by (simp add: run_next_def run_wait_def)
  have f: "filter (\<lambda>(q, _). q \<noteq> p) (map (\<lambda>(q, b). (q, if q = p then g b else b)) as)
      = filter (\<lambda>(q, _). q \<noteq> p) as" for g and as :: "(nat \<times> 'a action) list"
    by (induction as) auto
  have p: "p \<in> set (ptrs s)" using map_of_SomeD [OF assms(3)] by (force simp: ptrs_def)
  have "p \<notin> known ?s" and fr: "p < ah_fresh ?s"
    using ok p assms(2) by (auto simp: known_def aio_ok_def aio_core_def on_action_done_def fire_def)
  then have "p \<notin> set (ptrs s'')" if "(aio_step sine (\<lambda>_. True))\<^sup>*\<^sup>* ?s s''" for s''
    using steps_known [OF that] by (auto simp: known_def)
  with r show ?thesis by (auto simp: on_action_done_def fire_actions f)
qed

definition ex_single_events :: "unit event list" where
  "ex_single_events = [Ev_add ex_single, Ev_run, Ev_expire 0]"

theorem single_fires_once_witness:
  "\<exists>s s'. do_events (\<lambda>x. x) (\<lambda>_. True) ex_single_events ex_start = Some s \<and> run_next (\<lambda>x. x) s = Some s'
    \<and> ah_actions s' = [] \<and> map snd_data (ah_sent s') = [[2]]"
proof -
  obtain s where s: "do_events (\<lambda>x. x) (\<lambda>_. True) ex_single_events ex_start = Some s"
    "ah_queue s = Wait 0 True # []" "ah_actions s = [(0, ex_single)]" "ah_sent s = []"
    by (simp add: ex_single_events_def exec_defs)
  have r: "aio_reach (\<lambda>x. x) s" by (rule do_events_reach [OF s(1) [unfolded ex_start_def]])
  from single_fires_once [OF r s(2), of ex_single] s show ?thesis
    by (auto simp: ex_single_def mk_action_def)
qed

definition ex_pause_race :: "unit event list" where
  "ex_pause_race = [Ev_add ex_periodic, Ev_run, Ev_tick 100000000, Ev_toggle 0, Ev_expire 0, Ev_run, Ev_run]"

definition ex_round :: "unit event list" where
  "ex_round = [Ev_tick 100000000, Ev_expire 0, Ev_run]"

definition runaway :: "unit action_handler \<Rightarrow> nat \<Rightarrow> bool" where
  "runaway s n \<longleftrightarrow> (\<exists>a. ah_actions s = [(0, a)] \<and> ac_kind a = Periodic_action 100 \<and> ac_paused a)
     \<and> ah_waits s = [(0, ah_now s + 100000000)] \<and> ah_queue s = [] \<and> length (ah_sent s) = n
     \<and> map ai_paused (ah_snapshot s) = [True]"

lemma do_events_append:
  "do_events sine guard (es @ fs) s = (case do_events sine guard es s of None \<Rightarrow> None | Some s' \<Rightarrow> do_events sine guard fs s')"
  by (induction es arbitrary: s) (auto split: option.split)

lemma runaway_round:
  assumes "runaway s n"
  shows "\<exists>s'. do_events sine (\<lambda>_. True) ex_round s = Some s' \<and> runaway s' (Suc n)"
proof -
  obtain a where "ah_actions s = [(0, a)]" "ac_kind a = Periodic_action 100" "ac_paused a"
    using assms by (auto simp: runaway_def)
  with assms show ?thesis
    by (simp add: runaway_def ex_round_def exec_defs infos_of_def action_info_of_def)
qed

text \<open>Pausing an action whose expired wait is already queued does not stop it: the handler
  still fires and re-arms the timer, so the action goes on sending every period (here \<open>n\<close> more
  times) while the UI shows it as paused.\<close>

theorem pause_may_not_stop:
  "\<exists>s. do_events sine (\<lambda>_. True) (ex_pause_race @ concat (replicate n ex_round)) ex_start = Some s
    \<and> map ai_paused (snapshot s) = [True] \<and> length (ah_sent s) = Suc n"
proof -
  have "\<exists>s'. do_events sine (\<lambda>_. True) (concat (replicate n ex_round)) s = Some s' \<and> runaway s' (k + n)"
    if "runaway s k" for s k
    using that
  proof (induction n arbitrary: s k)
    case (Suc n)
    from runaway_round [OF Suc.prems] obtain s1
      where "do_events sine (\<lambda>_. True) ex_round s = Some s1" "runaway s1 (Suc k)" by blast
    with Suc.IH [of s1 "Suc k"] show ?case by (auto simp: do_events_append)
  qed simp
  moreover obtain s where "do_events sine (\<lambda>_. True) ex_pause_race ex_start = Some s" "runaway s 1"
    by (simp add: ex_pause_race_def exec_defs runaway_def infos_of_def action_info_of_def)
  ultimately show ?thesis by (fastforce simp: do_events_append runaway_def snapshot_def)
qed

definition ex_remove_race :: "unit event list" where
  "ex_remove_race = [Ev_add ex_periodic, Ev_run, Ev_tick 100000000, Ev_remove 0, Ev_expire 0, Ev_run]"

text \<open>Removing an action whose expired wait is already queued destroys it before that
  handler runs: the handler then uses a destroyed object.\<close>

theorem remove_race_use_after_free:
  "\<exists>s. do_events sine (\<lambda>_. True) ex_remove_race ex_start = Some s
    \<and> ah_queue s = [Wait 0 True] \<and> ah_actions s = [] \<and> run_next sine s = None"
  by (simp add: ex_remove_race_def exec_defs)

text \<open>C17: indices are resolved when the posted task runs, not when the user picked the row: if an
  earlier single-shot action finishes in between, \<open>remove_action\<close> removes the action after the
  one that was picked.\<close>

definition ex_other :: "unit action" where
  "ex_other = mk_action ''vcan0'' 293 ''N'' [3] (Periodic_action 100)"

definition ex_stale_index :: "unit event list" where
  "ex_stale_index = [Ev_add ex_single, Ev_add ex_periodic, Ev_add ex_other, Ev_run, Ev_run, Ev_run, Ev_expire 0]"

theorem stale_index_removes_neighbour:
  "\<exists>s s'. do_events sine (\<lambda>_. True) ex_stale_index ex_start = Some s
    \<and> do_events sine (\<lambda>_. True) [Ev_remove 1, Ev_run, Ev_run] s = Some s'
    \<and> map ai_msg_id (snapshot s) = [292, 291, 293] \<and> map ai_msg_id (snapshot s') = [291]"
  by (simp add: ex_stale_index_def ex_other_def exec_defs snapshot_def infos_of_def action_info_of_def)

end
