(* ===== verification/Config.thy ===== *)
theory Config
  imports TextFmt
begin

text \<open>
  \<open>src/config\<close>: the configuration file and the command line. yaml-cpp, the file system and
  gflags are not part of the repository: \<open>yaml_api\<close> holds the operations the code calls on a
  node, \<open>environment\<close> what it asks the process, and the parsed flags are a record.
\<close>

section \<open>What the code asks yaml-cpp and the process\<close>

text \<open>
  \<open>y_get\<close> is \<open>node[key]\<close> (it throws on a scalar), \<open>y_defined\<close> the conversion to bool,
  \<open>y_pairs\<close> and \<open>y_elems\<close> iterate over a node as \<open>first/second\<close> pairs and as elements,
  and the conversions are \<open>as<T>()\<close>.
\<close>

record 'n yaml_api =
  y_load :: "string \<Rightarrow> 'n result"
  y_get :: "'n \<Rightarrow> string \<Rightarrow> 'n result"
  y_defined :: "'n \<Rightarrow> bool"
  y_is_scalar :: "'n \<Rightarrow> bool"
  y_is_map :: "'n \<Rightarrow> bool"
  y_is_seq :: "'n \<Rightarrow> bool"
  y_pairs :: "'n \<Rightarrow> ('n \<times> 'n) list"
  y_elems :: "'n \<Rightarrow> 'n list"
  y_string :: "'n \<Rightarrow> string result"
  y_bool :: "'n \<Rightarrow> bool result"
  y_u32 :: "'n \<Rightarrow> u32 result"
  y_int :: "'n \<Rightarrow> int result"
  y_dbl :: "'n \<Rightarrow> dbl result"

record environment =
  env_cwd :: string
  env_home :: "string option"
  env_exists :: "string \<Rightarrow> bool"
  env_create_directories :: "string \<Rightarrow> unit result"

text \<open>\<open>node[key] ? node[key].as<T>() : default\<close>.\<close>

definition y_opt :: "'n yaml_api \<Rightarrow> ('n \<Rightarrow> 'a result) \<Rightarrow> 'n \<Rightarrow> string \<Rightarrow> 'a \<Rightarrow> 'a result" where
  "y_opt Y conv node key d =
     bind_result (y_get Y node key) (\<lambda>c. if y_defined Y c then conv c else Inr d)"

text \<open>\<open>path / p\<close> on POSIX.\<close>

definition path_append :: "string \<Rightarrow> string \<Rightarrow> string" where
  "path_append dir p =
     (if starts_with p ''/'' then p
      else if dir = [] \<or> last dir = CHR ''/'' then dir @ p
      else dir @ ''/'' @ p)"

section \<open>The configuration file\<close>

record interface_config =
  ic_name :: string
  ic_dbc :: string
  ic_actions_file :: string
  ic_baudrate :: u32

record config =
  cf_virtual_can :: bool
  cf_log_file_path :: "string option"
  cf_graphs_file :: string
  cf_interfaces :: "interface_config list"

definition empty_config :: config where
  "empty_config = \<lparr>cf_virtual_can = False, cf_log_file_path = None, cf_graphs_file = [], cf_interfaces = []\<rparr>"

definition mk_interface_config :: "string \<Rightarrow> interface_config" where
  "mk_interface_config name = \<lparr>ic_name = name, ic_dbc = [], ic_actions_file = [], ic_baudrate = 0\<rparr>"

definition expand_path :: "environment \<Rightarrow> string \<Rightarrow> string" where
  "expand_path env raw =
     (if raw = ''.'' then env_cwd env
      else if starts_with raw ''~/''
           then (case env_home env of Some home \<Rightarrow> path_append home (drop 2 raw) | None \<Rightarrow> raw)
      else raw)"

text \<open>A scalar is the path of the DBC, a map has the fields one by one, anything else is ignored.\<close>

definition parse_interface :: "'n yaml_api \<Rightarrow> 'n \<times> 'n \<Rightarrow> interface_config result" where
  "parse_interface Y entry =
     bind_result (y_string Y (fst entry)) (\<lambda>name.
       let cfg = mk_interface_config name; node = snd entry
       in if \<not> y_defined Y node then Inr cfg
          else if y_is_scalar Y node
          then bind_result (y_string Y node) (\<lambda>dbc. Inr (cfg\<lparr>ic_dbc := dbc\<rparr>))
          else if y_is_map Y node
          then bind_result (y_opt Y (y_string Y) node ''dbc'' []) (\<lambda>dbc.
               bind_result (y_opt Y (y_u32 Y) node ''baudrate'' 0) (\<lambda>baud.
               bind_result (y_opt Y (y_string Y) node ''actions'' []) (\<lambda>act.
                 Inr (cfg\<lparr>ic_dbc := dbc, ic_baudrate := baud, ic_actions_file := act\<rparr>))))
          else Inr cfg)"

fun parse_interfaces :: "'n yaml_api \<Rightarrow> ('n \<times> 'n) list \<Rightarrow> interface_config list result" where
  "parse_interfaces Y [] = Inr []"
| "parse_interfaces Y (e # es) =
     bind_result (parse_interface Y e) (\<lambda>cfg.
     bind_result (parse_interfaces Y es) (\<lambda>cfgs. Inr (cfg # cfgs)))"

definition parse_config :: "'n yaml_api \<Rightarrow> environment \<Rightarrow> 'n \<Rightarrow> config result" where
  "parse_config Y env root =
     bind_result (y_opt Y (y_bool Y) root ''virtual'' False) (\<lambda>virt.
     bind_result (y_opt Y (\<lambda>n. bind_result (y_string Y n) (\<lambda>p. Inr (Some (expand_path env p)))) root ''log_file_path'' None) (\<lambda>log.
     bind_result (y_opt Y (y_string Y) root ''graphs_preset'' []) (\<lambda>graphs.
     bind_result (y_get Y root ''interfaces'') (\<lambda>interfaces.
       if \<not> y_defined Y interfaces then Inl (Exn ''Config: missing 'interfaces' key'')
       else bind_result (parse_interfaces Y (y_pairs Y interfaces)) (\<lambda>ifs.
         Inr \<lparr>cf_virtual_can = virt, cf_log_file_path = log, cf_graphs_file = graphs, cf_interfaces = ifs\<rparr>)))))"

definition load_config :: "'n yaml_api \<Rightarrow> environment \<Rightarrow> string \<Rightarrow> config result" where
  "load_config Y env path = bind_result (y_load Y path) (parse_config Y env)"

definition try_load_default_config :: "'n yaml_api \<Rightarrow> environment \<Rightarrow> config option result" where
  "try_load_default_config Y env =
     (if \<not> env_exists env ''caneo.yaml'' then Inr None
      else bind_result (load_config Y env ''caneo.yaml'') (\<lambda>c. Inr (Some c)))"

section \<open>The command line\<close>

record flags =
  fl_tui :: bool
  fl_gui :: bool
  fl_log :: bool
  fl_debug :: bool
  fl_grpc_server :: bool
  fl_grpc_client :: string
  fl_grpc_port :: u32
  fl_config :: string
  fl_model :: string
  fl_playback :: string

record app_config =
  app_tui_mode :: bool
  app_gui_mode :: bool
  app_log_mode :: bool
  app_debug_mode :: bool
  app_grpc_server :: bool
  app_grpc_client :: string
  app_grpc_port :: "16 word"
  app_model_path :: string
  app_playback_path :: string
  app_config_file :: config

definition parse_iface_arg :: "string \<Rightarrow> interface_config" where
  "parse_iface_arg arg =
     (case split_first (CHR '':'') arg of
        None \<Rightarrow> mk_interface_config arg
      | Some (name, dbc) \<Rightarrow> (mk_interface_config name)\<lparr>ic_dbc := dbc\<rparr>)"

definition parse_app_config :: "'n yaml_api \<Rightarrow> environment \<Rightarrow> flags \<Rightarrow> string list \<Rightarrow> app_config result" where
  "parse_app_config Y env fl iface_args =
     (let app = \<lparr>app_tui_mode = fl_tui fl, app_gui_mode = fl_gui fl, app_log_mode = fl_log fl,
                 app_debug_mode = fl_debug fl, app_grpc_server = fl_grpc_server fl,
                 app_grpc_client = fl_grpc_client fl, app_grpc_port = ucast (fl_grpc_port fl),
                 app_model_path = fl_model fl, app_playback_path = fl_playback fl,
                 app_config_file = empty_config\<rparr>
      in if fl_config fl \<noteq> []
         then bind_result (load_config Y env (fl_config fl)) (\<lambda>c. Inr (app\<lparr>app_config_file := c\<rparr>))
         else if iface_args = []
         then bind_result (try_load_default_config Y env) (\<lambda>c.
                Inr (case c of None \<Rightarrow> app | Some c \<Rightarrow> app\<lparr>app_config_file := c\<rparr>))
         else Inr (app\<lparr>app_config_file := empty_config\<lparr>cf_interfaces := map parse_iface_arg iface_args\<rparr>\<rparr>))"

text \<open>The local time as \<open>strftime\<close> sees it: year, month, day, hour, minute, second.\<close>

record local_time =
  lt_year :: nat
  lt_month :: nat
  lt_day :: nat
  lt_hour :: nat
  lt_minute :: nat
  lt_second :: nat

definition two_digits :: "nat \<Rightarrow> string" where
  "two_digits n = pad_left 2 (CHR ''0'') (dec_of_nat n)"

definition log_name :: "local_time \<Rightarrow> string" where
  "log_name t =
     ''caneo_'' @ dec_of_nat (lt_year t) @ two_digits (lt_month t) @ two_digits (lt_day t) @ ''_''
     @ two_digits (lt_hour t) @ two_digits (lt_minute t) @ two_digits (lt_second t) @ ''.mcap''"

definition make_log_path :: "environment \<Rightarrow> local_time \<Rightarrow> app_config \<Rightarrow> string result" where
  "make_log_path env t app =
     (let dir = (case cf_log_file_path (app_config_file app) of Some d \<Rightarrow> d | None \<Rightarrow> env_cwd env)
      in bind_result (env_create_directories env dir) (\<lambda>_. Inr (path_append dir (log_name t))))"

section \<open>Facts\<close>

lemma split_first_Some:
  "split_first c s = Some (a, b) \<Longrightarrow> s = a @ c # b \<and> c \<notin> set a"
proof -
  assume "split_first c s = Some (a, b)"
  then have c: "c \<in> set s" and a: "a = takeWhile (\<lambda>x. x \<noteq> c) s" and b: "b = tl (dropWhile (\<lambda>x. x \<noteq> c) s)"
    by (auto simp: split_first_def split: if_splits)
  from c have "dropWhile (\<lambda>x. x \<noteq> c) s = c # b"
    using hd_dropWhile [of "\<lambda>x. x \<noteq> c" s] b by (cases "dropWhile (\<lambda>x. x \<noteq> c) s") auto
  then have "s = a @ c # b" using a takeWhile_dropWhile_id [of "\<lambda>x. x \<noteq> c" s] by simp
  moreover have "c \<notin> set a" using a by (auto dest: set_takeWhileD)
  ultimately show ?thesis by simp
qed

lemma split_first_None: "split_first c s = None \<longleftrightarrow> c \<notin> set s"
  by (simp add: split_first_def)

lemma parse_interface_name:
  "parse_interface Y e = Inr i \<Longrightarrow> y_string Y (fst e) = Inr (ic_name i)
    \<and> (y_defined Y (snd e) \<and> y_is_scalar Y (snd e) \<longrightarrow> y_string Y (snd e) = Inr (ic_dbc i) \<and> ic_actions_file i = [])"
  by (auto simp: parse_interface_def bind_result_Inr_iff Let_def mk_interface_config_def split: if_splits)

lemma parse_interfaces_list:
  "parse_interfaces Y es = Inr is \<Longrightarrow> list_all2 (\<lambda>e i. parse_interface Y e = Inr i) es is"
  by (induction Y es arbitrary: "is" rule: parse_interfaces.induct) (auto simp: bind_result_Inr_iff)

lemma dec_of_nat_inj: "dec_of_nat m = dec_of_nat n \<Longrightarrow> m = n"
proof -
  assume e: "dec_of_nat m = dec_of_nat n"
  have "read_digits 10 0 (dec_of_nat k) = (k, length (digits_of 10 k), [])" for k
    using read_digits_map [of 10 "digits_of 10 k" "[]" 0] digits_of_bounded [of 10 k] digits_of_value [of 10 k]
    by (simp add: dec_of_nat_def)
  with e show ?thesis by (metis prod.inject)
qed

lemma digit_char_0: "digit_char 0 = CHR ''0''"
  by code_simp

lemma two_digits_eq: "n < 100 \<Longrightarrow> two_digits n = [digit_char (n div 10), digit_char (n mod 10)]"
  by (cases "n < 10") (simp_all add: two_digits_def dec_of_nat_def pad_left_def digits_of.simps [of 10] digit_char_0)

lemma digit_char_inj: "a < 10 \<Longrightarrow> b < 10 \<Longrightarrow> digit_char a = digit_char b \<Longrightarrow> a = b"
proof -
  assume b: "a < 10" "b < 10" and e: "digit_char a = digit_char b"
  have "Some a = digit_val 10 (digit_char a)" by (rule digit_val_char [symmetric]) (use b in simp_all)
  also have "\<dots> = Some b" unfolding e by (rule digit_val_char) (use b in simp_all)
  finally show ?thesis by simp
qed

lemma two_digits_append:
  "m < 100 \<Longrightarrow> n < 100 \<Longrightarrow> two_digits m @ r = two_digits n @ s \<longleftrightarrow> m = n \<and> r = s"
proof
  assume b: "m < 100" "n < 100" and e: "two_digits m @ r = two_digits n @ s"
  then have "digit_char (m div 10) = digit_char (n div 10)" "digit_char (m mod 10) = digit_char (n mod 10)" "r = s"
    by (simp_all add: two_digits_eq)
  then have "m div 10 = n div 10" "m mod 10 = n mod 10" using b by (auto intro!: digit_char_inj)
  then have "m = n" by (metis div_mult_mod_eq)
  with \<open>r = s\<close> show "m = n \<and> r = s" by simp
qed simp

definition valid_time :: "local_time \<Rightarrow> bool" where
  "valid_time t \<longleftrightarrow> 1000 \<le> lt_year t \<and> lt_year t < 10000 \<and> lt_month t < 100 \<and> lt_day t < 100 \<and> lt_hour t < 100
     \<and> lt_minute t < 100 \<and> lt_second t < 100"

lemma year_length: "1000 \<le> y \<Longrightarrow> y < 10000 \<Longrightarrow> length (dec_of_nat y) = 4"
proof -
  assume y: "1000 \<le> y" "y < 10000"
  then have "y div 10 div 10 div 10 < 10" "\<not> y div 10 div 10 < 10" "\<not> y div 10 < 10" "\<not> y < 10"
    by (simp_all add: div_less_iff_less_mult)
  then show ?thesis by (simp add: dec_of_nat_def digits_of.simps [of 10])
qed

section \<open>Properties\<close>

text \<open>A positional argument is split at its first colon: the interface name never contains
  one, and name, colon and DBC path together are the argument again.\<close>

theorem iface_arg_split:
  "CHR '':'' \<notin> set (ic_name (parse_iface_arg arg))
    \<and> arg = ic_name (parse_iface_arg arg) @ (if CHR '':'' \<in> set arg then CHR '':'' # ic_dbc (parse_iface_arg arg) else [])
    \<and> (CHR '':'' \<notin> set arg \<longleftrightarrow> split_first (CHR '':'') arg = None)"
proof (cases "split_first (CHR '':'') arg")
  case None
  then show ?thesis using split_first_None [of "CHR '':''" arg]
    by (simp add: parse_iface_arg_def mk_interface_config_def)
next
  case (Some p)
  then show ?thesis using split_first_Some [of "CHR '':''" arg]
    by (cases p) (auto simp: parse_iface_arg_def mk_interface_config_def)
qed

text \<open>A configuration that loads has an \<open>interfaces\<close> key, and its interfaces are the entries
  of that key in file order, each under its key and, in the short format, with its DBC path.\<close>

theorem parse_config_interfaces:
  "case parse_config Y env root of
     Inl e \<Rightarrow> True
   | Inr c \<Rightarrow> \<exists>n. y_get Y root ''interfaces'' = Inr n \<and> y_defined Y n
       \<and> list_all2 (\<lambda>e i. y_string Y (fst e) = Inr (ic_name i)
           \<and> (if y_defined Y (snd e) \<and> y_is_scalar Y (snd e)
              then y_string Y (snd e) = Inr (ic_dbc i) \<and> ic_actions_file i = [] else True))
         (y_pairs Y n) (cf_interfaces c)"
proof (cases "parse_config Y env root")
  case (Inr c)
  then obtain n where n: "y_get Y root ''interfaces'' = Inr n" "y_defined Y n"
    "parse_interfaces Y (y_pairs Y n) = Inr (cf_interfaces c)"
    by (auto simp: parse_config_def bind_result_Inr_iff split: if_splits)
  have "list_all2 (\<lambda>e i. y_string Y (fst e) = Inr (ic_name i)
           \<and> (if y_defined Y (snd e) \<and> y_is_scalar Y (snd e)
              then y_string Y (snd e) = Inr (ic_dbc i) \<and> ic_actions_file i = [] else True))
         (y_pairs Y n) (cf_interfaces c)"
    by (rule list_all2_mono [OF parse_interfaces_list [OF n(3)]]) (auto dest!: parse_interface_name)
  with n Inr show ?thesis by auto
qed simp

text \<open>Logs started in different seconds get different file names, whatever the directory.\<close>

theorem log_name_inj:
  assumes "valid_time s" "valid_time t" "log_name s = log_name t"
  shows "s = t"
proof -
  note v = assms(1,2) [unfolded valid_time_def]
  have "dec_of_nat (lt_year s) @ two_digits (lt_month s) @ two_digits (lt_day s) @ ''_''
     @ two_digits (lt_hour s) @ two_digits (lt_minute s) @ two_digits (lt_second s) @ ''.mcap''
   = dec_of_nat (lt_year t) @ two_digits (lt_month t) @ two_digits (lt_day t) @ ''_''
     @ two_digits (lt_hour t) @ two_digits (lt_minute t) @ two_digits (lt_second t) @ ''.mcap''"
    using assms(3) by (simp add: log_name_def)
  then have y: "dec_of_nat (lt_year s) = dec_of_nat (lt_year t)" and r: "two_digits (lt_month s) @ two_digits (lt_day s) @ ''_''
     @ two_digits (lt_hour s) @ two_digits (lt_minute s) @ two_digits (lt_second s) @ ''.mcap''
   = two_digits (lt_month t) @ two_digits (lt_day t) @ ''_''
     @ two_digits (lt_hour t) @ two_digits (lt_minute t) @ two_digits (lt_second t) @ ''.mcap''"
    using v year_length [of "lt_year s"] year_length [of "lt_year t"] by (simp_all add: append_eq_append_conv)
  from r v have "lt_month s = lt_month t" "lt_day s = lt_day t" "lt_hour s = lt_hour t" "lt_minute s = lt_minute t"
    "lt_second s = lt_second t"
    using two_digits_append [of "lt_second s" "lt_second t" "[]" "[]"] by (simp_all add: two_digits_append)
  with dec_of_nat_inj [OF y] show ?thesis by simp
qed

definition ex_time :: "nat \<Rightarrow> local_time" where
  "ex_time s = \<lparr>lt_year = 2024, lt_month = 2, lt_day = 29, lt_hour = 23, lt_minute = 59, lt_second = s\<rparr>"

theorem log_name_inj_witness: "log_name (ex_time 58) \<noteq> log_name (ex_time 59)"
  using log_name_inj [of "ex_time 58" "ex_time 59"] by (auto simp: ex_time_def valid_time_def)

end
