(* ===== verification/Playback.thy ===== *)
theory Playback
  imports Prelude
begin

text \<open>
  \<open>src/playback\<close>: \<open>PlaybackController\<close>, the switches that playback reads while it replays a
  log. Every method holds the controller's mutex, so each is one atomic step.
\<close>

record playback =
  pb_states :: "(string \<times> bool) list"
  pb_stopped :: bool
  pb_messages :: "(string, (string \<times> bool) list) omap"

definition mk_playback :: "string list \<Rightarrow> playback" where
  "mk_playback interfaces = \<lparr>pb_states = map (\<lambda>i. (i, False)) interfaces, pb_stopped = False, pb_messages = []\<rparr>"

definition is_running :: "playback \<Rightarrow> string \<Rightarrow> bool" where
  "is_running c iface = (case map_of (pb_states c) iface of Some b \<Rightarrow> b | None \<Rightarrow> False)"

definition any_running :: "playback \<Rightarrow> bool" where
  "any_running c = list_ex snd (pb_states c)"

text \<open>The loop stops at the first entry of that name.\<close>

fun toggle_state :: "string \<Rightarrow> (string \<times> bool) list \<Rightarrow> (string \<times> bool) list" where
  "toggle_state iface [] = []"
| "toggle_state iface ((name, running) # st) =
     (if name = iface then (name, \<not> running) # st else (name, running) # toggle_state iface st)"

definition pb_toggle :: "string \<Rightarrow> playback \<Rightarrow> playback" where
  "pb_toggle iface c = c\<lparr>pb_states := toggle_state iface (pb_states c)\<rparr>"

definition pb_stop :: "playback \<Rightarrow> playback" where
  "pb_stop c = c\<lparr>pb_stopped := True\<rparr>"

text \<open>The predicates the two blocking calls wait for; \<open>sleep_until\<close> also returns at its time.\<close>

definition sleep_wakes :: "playback \<Rightarrow> int \<Rightarrow> int \<Rightarrow> bool" where
  "sleep_wakes c now tp \<longleftrightarrow> pb_stopped c \<or> tp \<le> now"

definition sleep_result :: "playback \<Rightarrow> bool" where
  "sleep_result c = pb_stopped c"

definition running_wakes :: "playback \<Rightarrow> bool" where
  "running_wakes c \<longleftrightarrow> pb_stopped c \<or> list_ex snd (pb_states c)"

definition set_messages :: "string \<Rightarrow> string list \<Rightarrow> playback \<Rightarrow> playback" where
  "set_messages iface names c = c\<lparr>pb_messages := omap_insert iface (map (\<lambda>n. (n, True)) names) (pb_messages c)\<rparr>"

text \<open>Index 0 toggles all; a negative index reads before the vector, which is None.\<close>

definition toggle_message :: "string \<Rightarrow> int \<Rightarrow> playback \<Rightarrow> playback option" where
  "toggle_message iface idx c =
     (case map_of (pb_messages c) iface of
        None \<Rightarrow> Some c
      | Some vec \<Rightarrow>
          if idx = 0
          then (let any = list_ex snd vec
                in Some (c\<lparr>pb_messages := omap_insert iface (map (\<lambda>(n, _). (n, \<not> any)) vec) (pb_messages c)\<rparr>))
          else (let i = idx - 1
                in if i < int (length vec)
                   then do { e \<leftarrow> nth_opt vec i;
                             vec' \<leftarrow> update_opt vec i (fst e, \<not> snd e);
                             Some (c\<lparr>pb_messages := omap_insert iface vec' (pb_messages c)\<rparr>) }
                   else Some c))"

definition is_message_enabled :: "playback \<Rightarrow> string \<Rightarrow> string \<Rightarrow> bool" where
  "is_message_enabled c iface msg_name =
     (case map_of (pb_messages c) iface of
        None \<Rightarrow> True
      | Some vec \<Rightarrow> (case map_of vec msg_name of Some b \<Rightarrow> b | None \<Rightarrow> True))"

definition message_snapshot :: "playback \<Rightarrow> string \<Rightarrow> (string \<times> bool) list" where
  "message_snapshot c iface = (case map_of (pb_messages c) iface of None \<Rightarrow> [] | Some vec \<Rightarrow> vec)"

section \<open>Facts\<close>

lemma map_of_toggle_state:
  "map_of (toggle_state iface st) i =
     (if i = iface then map_option Not (map_of st i) else map_of st i)"
  by (induction iface st rule: toggle_state.induct) auto

lemma toggle_state_names [simp]: "map fst (toggle_state iface st) = map fst st"
  by (induction iface st rule: toggle_state.induct) auto

lemma fold_toggle_state:
  "map_of (pb_states (fold pb_toggle ts c)) i = map_option (\<lambda>b. b \<noteq> odd (count_list ts i)) (map_of (pb_states c) i)"
proof (induction ts arbitrary: c)
  case Nil
  then show ?case by (cases "map_of (pb_states c) i") simp_all
next
  case (Cons t ts)
  then show ?case
    by (cases "map_of (pb_states c) i") (auto simp: pb_toggle_def map_of_toggle_state)
qed

lemma map_of_initial: "map_of (pb_states (mk_playback ifs)) i = (if i \<in> set ifs then Some False else None)"
  by (induction ifs) (auto simp: mk_playback_def)

lemma any_running_iff: "distinct (map fst (pb_states c)) \<Longrightarrow> any_running c \<longleftrightarrow> (\<exists>i. is_running c i)"
proof -
  assume d: "distinct (map fst (pb_states c))"
  have "any_running c \<longleftrightarrow> (\<exists>i. (i, True) \<in> set (pb_states c))"
    by (force simp: any_running_def list_ex_iff)
  also have "\<dots> \<longleftrightarrow> (\<exists>i. map_of (pb_states c) i = Some True)" using d by simp
  finally show ?thesis by (auto simp: is_running_def split: option.splits)
qed

lemma fold_toggle_names: "map fst (pb_states (fold pb_toggle ts c)) = map fst (pb_states c)"
  by (induction ts arbitrary: c) (auto simp: pb_toggle_def)

lemma fold_toggle_stopped: "pb_stopped (fold pb_toggle ts c) = pb_stopped c"
  by (induction ts arbitrary: c) (auto simp: pb_toggle_def)

section \<open>Properties\<close>

text \<open>Every interface starts paused and runs exactly after an odd number of toggles of its
  name; toggling a name that is not an interface never makes anything run.\<close>

theorem running_is_parity:
  "is_running (fold pb_toggle ts (mk_playback ifs)) i \<longleftrightarrow> i \<in> set ifs \<and> odd (count_list ts i)"
  by (simp add: is_running_def fold_toggle_state map_of_initial)

text \<open>Toggling the messages of an interface touches no other interface; index 0 disables all
  when any is enabled and enables all otherwise, index \<open>k\<close> flips the \<open>k\<close>-th and nothing else,
  an index past the end does nothing, and only a negative index is undefined.\<close>

theorem toggle_message_spec:
  "case toggle_message iface idx c of
     None \<Rightarrow> idx < 0
   | Some c' \<Rightarrow>
       pb_states c' = pb_states c \<and> pb_stopped c' = pb_stopped c
       \<and> message_snapshot c' = (message_snapshot c)(iface :=
           (let vec = message_snapshot c iface; i = nat (idx - 1)
            in if idx = 0 then map (\<lambda>(n, _). (n, \<not> list_ex snd vec)) vec
               else if i < length vec then vec[i := (fst (vec ! i), \<not> snd (vec ! i))] else vec))"
proof (cases "map_of (pb_messages c) iface")
  case None
  then show ?thesis by (auto simp: toggle_message_def message_snapshot_def fun_eq_iff Let_def)
next
  case (Some vec)
  show ?thesis
  proof (cases "idx \<le> 0")
    case True
    with Some show ?thesis
      by (cases "idx = 0") (auto simp: toggle_message_def message_snapshot_def fun_eq_iff nth_opt_def Let_def)
  next
    case False
    then have "nat (idx - 1) < length vec \<longleftrightarrow> idx - 1 < int (length vec)" by linarith
    with False Some show ?thesis
      by (auto simp: toggle_message_def message_snapshot_def fun_eq_iff Let_def)
  qed
qed

end
