(* ===== verification/Preset.thy ===== *)
theory Preset
  imports Action Config
begin

text \<open>
  \<open>src/action/ActionPreset.cpp\<close>: the actions of an interface read from a YAML file. The
  loader works on its own \<open>SendModel\<close>, which the entries change one after the other, and
  posts every action paused. An exception ends the loop, but the actions posted before it
  stay posted.
\<close>

section \<open>Loading\<close>

definition find_msg_idx :: "send_model \<Rightarrow> string \<Rightarrow> int" where
  "find_msg_idx model name = (case find_idx (\<lambda>m. sm_name m = name) model of Some i \<Rightarrow> int i | None \<Rightarrow> -1)"

definition find_sig_idx :: "send_message \<Rightarrow> string \<Rightarrow> int" where
  "find_sig_idx msg name = (case find_idx (\<lambda>s. ss_name s = name) (sm_signals msg) of Some i \<Rightarrow> int i | None \<Rightarrow> -1)"

fun apply_signals :: "'n yaml_api \<Rightarrow> int \<Rightarrow> ('n \<times> 'n) list \<Rightarrow> send_model \<Rightarrow> send_model outcome" where
  "apply_signals Y mi [] model = ret model"
| "apply_signals Y mi ((key, val) # kvs) model =
     bind_out (checked (nth_opt model mi)) (\<lambda>msg.
     bind_out (Some (y_string Y key)) (\<lambda>name.
       let k = find_sig_idx msg name
       in if 0 \<le> k
          then bind_out (Some (y_dbl Y val)) (\<lambda>v.
               bind_out (checked (set_value model mi k v)) (apply_signals Y mi kvs))
          else apply_signals Y mi kvs model))"

definition apply_signals_and_encode :: "'n yaml_api \<Rightarrow> int \<Rightarrow> 'n \<Rightarrow> send_model \<Rightarrow> (send_model \<times> bytes) outcome" where
  "apply_signals_and_encode Y mi signals model =
     bind_out (if y_defined Y signals \<and> y_is_map Y signals then apply_signals Y mi (y_pairs Y signals) model else ret model)
       (\<lambda>model'. bind_out (checked (encode model' mi)) (\<lambda>payload. ret (model', payload)))"

text \<open>The closure of a sine action: it clamps, converts and writes one signal into a copy of the
  base payload.\<close>

definition preset_encode :: "bytes \<Rightarrow> isignal \<Rightarrow> dbl \<Rightarrow> dbl \<Rightarrow> dbl \<Rightarrow> bytes" where
  "preset_encode base isig y_lo y_hi v =
     (let v' = (if f64_lt y_lo y_hi then f64_clamp v y_lo y_hi else v)
      in sg_encode isig (sg_phys_to_raw isig v') base)"

definition preset_periodic :: "'n yaml_api \<Rightarrow> string \<Rightarrow> 'n \<Rightarrow> int \<Rightarrow> send_message \<Rightarrow> send_model
    \<Rightarrow> (send_model \<times> 'm action option) outcome" where
  "preset_periodic Y iface entry mi msg model =
     bind_out (Some (y_opt Y (y_int Y) entry ''period_ms'' 100)) (\<lambda>period_ms.
     bind_out (Some (y_get Y entry ''signals'')) (\<lambda>signals.
     bind_out (apply_signals_and_encode Y mi signals model) (\<lambda>(model', payload).
       ret (model', Some (mk_action iface (sm_id msg) (sm_name msg) payload (Periodic_action period_ms))))))"

definition preset_sin :: "'n yaml_api \<Rightarrow> int \<Rightarrow> string \<Rightarrow> 'n \<Rightarrow> int \<Rightarrow> send_message \<Rightarrow> send_model
    \<Rightarrow> (send_model \<times> 'm action option) outcome" where
  "preset_sin Y now iface entry mi msg model =
     bind_out (Some (y_opt Y (y_string Y) entry ''signal'' [])) (\<lambda>sig_name.
       let si = find_sig_idx msg sig_name
       in if si < 0 then ret (model, None)
          else
            bind_out (Some (y_opt Y (y_dbl Y) entry ''amplitude'' f64_one)) (\<lambda>amplitude.
            bind_out (Some (y_opt Y (y_dbl Y) entry ''offset'' 0)) (\<lambda>offset.
            bind_out (Some (y_opt Y (y_int Y) entry ''sin_period_ms'' 1000)) (\<lambda>period_ms.
            bind_out (Some (y_opt Y (y_int Y) entry ''interval_ms'' 20)) (\<lambda>interval_ms.
            bind_out (Some (y_get Y entry ''signals'')) (\<lambda>signals.
            bind_out (apply_signals_and_encode Y mi signals model) (\<lambda>(model', base).
            bind_out (checked (nth_opt (sm_signals msg) si)) (\<lambda>ssig.
              ret (model', Some (mk_sin_action now iface (sm_id msg) (sm_name msg) interval_ms
                (\<lambda>m v. Some (m, preset_encode base (ss_sig ssig) (ss_min_val ssig) (ss_max_val ssig) v))
                amplitude period_ms offset))))))))))"

definition preset_entry :: "'n yaml_api \<Rightarrow> int \<Rightarrow> string \<Rightarrow> 'n \<Rightarrow> send_model \<Rightarrow> (send_model \<times> 'm action option) outcome" where
  "preset_entry Y now iface entry model =
     bind_out (Some (y_opt Y (y_string Y) entry ''type'' [])) (\<lambda>type.
     bind_out (Some (y_opt Y (y_string Y) entry ''msg'' [])) (\<lambda>msg_name.
       let mi = find_msg_idx model msg_name
       in if mi < 0 then ret (model, None)
          else bind_out (checked (nth_opt model mi)) (\<lambda>msg.
            if type = ''periodic'' then preset_periodic Y iface entry mi msg model
            else if type = ''sin'' then preset_sin Y now iface entry mi msg model
            else ret (model, None))))"

text \<open>The actions posted, and the exception that ended the loop if one did.\<close>

fun preset_entries :: "'n yaml_api \<Rightarrow> int \<Rightarrow> string \<Rightarrow> 'n list \<Rightarrow> send_model \<Rightarrow> ('m action list \<times> exn option) option" where
  "preset_entries Y now iface [] model = Some ([], None)"
| "preset_entries Y now iface (entry # entries) model =
     (case preset_entry Y now iface entry model of
        None \<Rightarrow> None
      | Some (Inl e) \<Rightarrow> Some ([], Some e)
      | Some (Inr (model', a)) \<Rightarrow>
          (case preset_entries Y now iface entries model' of
             None \<Rightarrow> None
           | Some (as, e) \<Rightarrow> Some ((case a of None \<Rightarrow> as | Some a \<Rightarrow> a # as), e)))"

definition load_action_presets :: "'n yaml_api \<Rightarrow> (string \<Rightarrow> dbc_file) \<Rightarrow> int \<Rightarrow> interface_config
    \<Rightarrow> 'm action_handler \<Rightarrow> ('m action_handler \<times> exn option) option" where
  "load_action_presets Y dbc now cfg h =
     (if ic_actions_file cfg = [] \<or> ic_dbc cfg = [] then Some (h, None)
      else case y_load Y (ic_actions_file cfg) of
        Inl e \<Rightarrow> Some (h, Some (Exn (''Failed to load actions file '' @ [CHR 0x27] @ ic_actions_file cfg @ [CHR 0x27] @ '': '' @ what e)))
      | Inr root \<Rightarrow>
          if \<not> y_is_seq Y root then Some (h, Some (Exn ''Actions file must be a YAML sequence (list of action entries)''))
          else (case mk_send_model dbc (ic_dbc cfg) of
                  Inl e \<Rightarrow> Some (h, Some e)
                | Inr model \<Rightarrow>
                    map_option (\<lambda>(as, e). (fold add_action_paused as h, e))
                      (preset_entries Y now (ic_name cfg) (y_elems Y root) model)))"

section \<open>The loader never leaves the model's vectors\<close>

lemma find_msg_idx_nth: "0 \<le> find_msg_idx model name \<Longrightarrow> \<exists>m. nth_opt model (find_msg_idx model name) = Some m"
  using find_idx_nth_opt by (fastforce simp: find_msg_idx_def split: option.splits)

lemma find_sig_idx_nth: "0 \<le> find_sig_idx msg name \<Longrightarrow> \<exists>s. nth_opt (sm_signals msg) (find_sig_idx msg name) = Some s"
  using find_idx_nth_opt by (fastforce simp: find_sig_idx_def split: option.splits)

lemma find_sig_idx_set_value:
  assumes "nth_opt model mi = Some msg" "0 \<le> find_sig_idx msg name"
  shows "\<exists>model'. set_value model mi (find_sig_idx msg name) v = Some model' \<and> model_shape model' = model_shape model"
proof -
  obtain s where "nth_opt (sm_signals msg) (find_sig_idx msg name) = Some s" using find_sig_idx_nth [OF assms(2)] ..
  with assms obtain model' where "set_value model mi (find_sig_idx msg name) v = Some model'"
    using set_value_None_iff [of model mi "find_sig_idx msg name" v] by (fastforce simp: nth_opt_Some_iff)
  with set_value_shape show ?thesis by blast
qed

lemma nth_opt_shape: "model_shape m' = model_shape m \<Longrightarrow> nth_opt m mi \<noteq> None \<Longrightarrow> nth_opt m' mi \<noteq> None"
  using model_shape_length [of m' m] by (simp add: nth_opt_None_iff)

lemma apply_signals_defined:
  "nth_opt model mi \<noteq> None \<Longrightarrow> holds_out (\<lambda>model'. nth_opt model' mi \<noteq> None) (apply_signals Y mi kvs model)"
proof (induction kvs arbitrary: model)
  case (Cons kv kvs)
  then obtain msg where msg: "nth_opt model mi = Some msg" by blast
  have "\<exists>model'. set_value model mi (find_sig_idx msg name) v = Some model'
      \<and> holds_out (\<lambda>model'. nth_opt model' mi \<noteq> None) (apply_signals Y mi kvs model')"
    if "0 \<le> find_sig_idx msg name" for name v
    using find_sig_idx_set_value [OF msg that] nth_opt_shape Cons by blast
  with msg Cons show ?case by (cases kv) (simp add: Let_def)
qed simp

lemma apply_signals_and_encode_defined:
  "nth_opt model mi \<noteq> None \<Longrightarrow> holds_out (\<lambda>_. True) (apply_signals_and_encode Y mi signals model)"
  using apply_signals_defined [of model mi Y "y_pairs Y signals"]
  by (auto simp: apply_signals_and_encode_def encode_def elim!: holds_out_mono)

definition preset_action :: "string \<Rightarrow> 'm action \<Rightarrow> bool" where
  "preset_action iface a \<longleftrightarrow> ac_interface a = iface \<and> is_periodic (ac_kind a) \<and> \<not> ac_paused a \<and> \<not> ac_ever_sent a"

lemma mk_action_preset [simp]:
  "preset_action iface (mk_action iface i n p k) = is_periodic k"
  "preset_action iface (mk_sin_action now iface i n iv enc amp sp off)"
  by (simp_all add: preset_action_def mk_action_def mk_sin_action_def)

definition yields_preset :: "string \<Rightarrow> 'a \<times> 'm action option \<Rightarrow> bool" where
  "yields_preset iface r \<longleftrightarrow> (\<forall>a. snd r = Some a \<longrightarrow> preset_action iface a)"

lemma preset_periodic_spec:
  "nth_opt model mi = Some msg \<Longrightarrow> holds_out (yields_preset iface) (preset_periodic Y iface entry mi msg model)"
  using apply_signals_and_encode_defined [of model mi Y]
  by (auto simp: preset_periodic_def yields_preset_def split_def elim!: holds_out_mono)

lemma preset_sin_spec:
  "nth_opt model mi = Some msg \<Longrightarrow> holds_out (yields_preset iface) (preset_sin Y now iface entry mi msg model)"
proof -
  assume msg: "nth_opt model mi = Some msg"
  then have a: "holds_out (\<lambda>_. True) (apply_signals_and_encode Y mi signals model)" for signals
    by (intro apply_signals_and_encode_defined) simp
  have n: "\<exists>s. nth_opt (sm_signals msg) (find_sig_idx msg name) = Some s" if "\<not> find_sig_idx msg name < 0" for name
    using find_sig_idx_nth [of msg name] that by simp
  show ?thesis
    using n by (auto simp: preset_sin_def Let_def yields_preset_def split_def intro!: holds_out_mono [OF a])
qed

lemma preset_entry_spec: "holds_out (yields_preset iface) (preset_entry Y now iface entry model)"
proof -
  have n: "\<exists>m. nth_opt model (find_msg_idx model name) = Some m" if "\<not> find_msg_idx model name < 0" for name
    using find_msg_idx_nth [of model name] that by simp
  show ?thesis
    using n preset_periodic_spec [of model _ _ iface Y entry] preset_sin_spec [of model _ _ iface Y now entry]
    by (fastforce simp: preset_entry_def Let_def yields_preset_def [of _ "(_, None)"])
qed

lemma preset_entries_spec:
  "\<exists>(as :: 'm action list) e. preset_entries Y now iface entries model = Some (as, e) \<and> list_all (preset_action iface) as"
proof (induction entries arbitrary: model)
  case (Cons entry entries)
  let ?r = "preset_entry Y now iface entry model :: (send_model \<times> 'm action option) outcome"
  have spec: "holds_out (yields_preset iface) ?r" by (rule preset_entry_spec)
  show ?case
  proof (cases ?r)
    case None
    with spec show ?thesis by simp
  next
    case (Some r)
    show ?thesis
    proof (cases r)
      case (Inr p)
      obtain m a where p: "p = (m, a)" by (cases p)
      obtain as :: "'m action list" and e where ih: "preset_entries Y now iface entries m = Some (as, e)" "list_all (preset_action iface) as"
        using Cons by blast
      from spec Some Inr p have "\<forall>b. a = Some b \<longrightarrow> preset_action iface b" by (simp add: yields_preset_def)
      with Some Inr p ih show ?thesis by (cases a) auto
    qed (use Some in simp)
  qed
qed simp

section \<open>Nothing is sent before the user resumes an action\<close>

text \<open>All actions paused, no wait pending, and in the queue only paused actions to add and
  aborted waits.\<close>

definition paused_job :: "'m job \<Rightarrow> bool" where
  "paused_job j \<longleftrightarrow> (case j of Task (Add_action_paused p a) \<Rightarrow> True | Wait p b \<Rightarrow> \<not> b | _ \<Rightarrow> False)"

definition all_paused :: "'m action_handler \<Rightarrow> bool" where
  "all_paused s \<longleftrightarrow> list_all paused_job (ah_queue s) \<and> ah_waits s = [] \<and> list_all (\<lambda>(_, a). ac_paused a) (ah_actions s)"

lemma all_paused_add: "all_paused s \<Longrightarrow> all_paused (add_action_paused a s) \<and> ah_sent (add_action_paused a s) = ah_sent s"
  by (simp add: all_paused_def add_action_paused_def post_task_def paused_job_def)

lemma all_paused_adds: "all_paused s \<Longrightarrow> all_paused (fold add_action_paused as s) \<and> ah_sent (fold add_action_paused as s) = ah_sent s"
  by (induction as arbitrary: s) (auto simp: all_paused_add)

lemma all_paused_run:
  assumes "all_paused s"
  shows "\<exists>s'. run_next sine s = Some s' \<and> all_paused s' \<and> ah_sent s' = ah_sent s"
proof (cases "ah_queue s")
  case Nil
  with assms show ?thesis by (simp add: run_next_def)
next
  case (Cons j js)
  with assms have j: "paused_job j" "list_all paused_job js" "ah_waits s = []"
    "\<forall>(_, a)\<in>set (ah_actions s). ac_paused a"
    by (auto simp: all_paused_def list_all_iff)
  consider (add) p a where "j = Task (Add_action_paused p a)" | (wait) p where "j = Wait p False"
    using j(1) by (auto simp: paused_job_def split: job.splits task.splits)
  then show ?thesis
  proof cases
    case add
    with j Cons show ?thesis
      by (auto simp: run_next_def all_paused_def start_action_def pause_def schedule_def arm_timer_def cancel_timer_def
          Let_def paused_job_def list_all_iff upd_action_def)
  next
    case wait
    with j Cons show ?thesis by (auto simp: run_next_def all_paused_def list_all_iff)
  qed
qed

lemma all_paused_runs:
  "all_paused s \<Longrightarrow> \<exists>s'. do_events sine (\<lambda>_. True) (replicate n Ev_run) s = Some s' \<and> all_paused s' \<and> ah_sent s' = ah_sent s"
proof (induction n arbitrary: s)
  case (Suc n)
  from all_paused_run [OF Suc.prems] obtain s1 where "run_next sine s = Some s1" "all_paused s1" "ah_sent s1 = ah_sent s"
    by blast
  with Suc.IH [of s1] show ?case by auto
qed simp

lemma load_presets_spec:
  "\<exists>as e. load_action_presets Y dbc now cfg (h :: 'm action_handler) = Some (fold add_action_paused as h, e)
    \<and> list_all (\<lambda>a. ac_interface a = ic_name cfg \<and> is_periodic (ac_kind a)) as"
proof -
  have none: "\<exists>as e'. Some (h, e) = Some (fold add_action_paused as h, e')
      \<and> list_all (\<lambda>a. ac_interface a = ic_name cfg \<and> is_periodic (ac_kind a)) as" for e
    by (rule exI [of _ "[]"]) simp
  have some: "\<exists>as e. map_option (\<lambda>(as, e). (fold add_action_paused as h, e))
        (preset_entries Y now (ic_name cfg) es model) = Some (fold add_action_paused as h, e)
      \<and> list_all (\<lambda>a. ac_interface a = ic_name cfg \<and> is_periodic (ac_kind a)) as" for es model
  proof -
    obtain as :: "'m action list" and e where "preset_entries Y now (ic_name cfg) es model = Some (as, e)"
      "list_all (preset_action (ic_name cfg)) as"
      using preset_entries_spec [of Y now "ic_name cfg" es model] by blast
    then show ?thesis by (intro exI [of _ as] exI [of _ e]) (auto simp: preset_action_def list_all_iff)
  qed
  show ?thesis unfolding load_action_presets_def using none some
    by (simp split: sum.splits)
qed

section \<open>Properties\<close>


text \<open>After loading presets into a fresh handler, the asio thread may run as long as it
  likes: nothing is sent, and every action stays paused with no timer pending.\<close>

theorem presets_send_nothing:
  "\<exists>h e s. load_action_presets Y dbc now cfg (mk_action_handler now m) = Some (h, e)
    \<and> do_events sine (\<lambda>_. True) (replicate n Ev_run) h = Some s
    \<and> ah_sent s = [] \<and> ah_waits s = [] \<and> list_all (\<lambda>(_, a). ac_paused a) (ah_actions s)"
proof -
  let ?h = "mk_action_handler now m"
  obtain as e where l: "load_action_presets Y dbc now cfg ?h = Some (fold add_action_paused as ?h, e)"
    using load_presets_spec [of Y dbc now cfg ?h] by blast
  have "all_paused ?h" "ah_sent ?h = []" by (simp_all add: all_paused_def mk_action_handler_def)
  then have h: "all_paused (fold add_action_paused as ?h)" "ah_sent (fold add_action_paused as ?h) = []"
    using all_paused_adds [of ?h as] by simp_all
  from all_paused_runs [OF h(1)] h(2) l show ?thesis by (fastforce simp: all_paused_def)
qed

text \<open>A sine preset on a signal of type double does not encode the sine: the closure always
  goes through \<open>PhysToRaw\<close>, so the receiver reads the converted integer as the bits of a
  double, where \<open>SendModel::encode\<close> writes the value itself.\<close>

theorem preset_sin_double_mismatch:
  assumes "sg_value_type sig = EVT_Double" "\<And>r b. sg_decode sig (sg_encode sig r b) = r"
  shows "signal_phys sig (sg_decode sig (preset_encode base sig lo hi v))
      = sg_phys_to_raw sig (if f64_lt lo hi then f64_clamp v lo hi else v)
    \<and> signal_phys sig (encode_raw sig v) = v"
  using assms by (simp add: preset_encode_def signal_phys_def encode_raw_def Let_def)

definition le_bytes :: "nat \<Rightarrow> nat \<Rightarrow> bytes" where
  "le_bytes k n = map (\<lambda>i. of_nat (n div 256 ^ i)) [0..<k]"

definition le_value :: "bytes \<Rightarrow> nat" where
  "le_value b = foldr (\<lambda>x a. unat x + 256 * a) b 0"

lemma le_value_bytes: "le_value (le_bytes k n) = n mod 256 ^ k"
proof (induction k arbitrary: n)
  case (Suc k)
  have e: "le_bytes (Suc k) n = of_nat n # le_bytes k (n div 256)"
    by (simp add: le_bytes_def upt_rec [of 0] map_Suc_upt [symmetric] comp_def div_mult2_eq del: upt_Suc)
  have "n mod 256 ^ Suc k = n mod 256 + 256 * (n div 256 mod 256 ^ k)"
    using mod_mult2_eq [of n 256 "256 ^ k"] by simp
  with Suc [of "n div 256"] show ?case by (simp add: e le_value_def unat_of_nat)
qed (simp add: le_bytes_def le_value_def)

definition ex_double_signal :: isignal where
  "ex_double_signal =
     \<lparr>sg_name = ''D'', sg_unit = [], sg_minimum = 0, sg_maximum = 0, sg_factor = f64_one, sg_offset = 0,
      sg_bit_size = 64, sg_start_bit = 0, sg_is_mux_value = False, sg_mux_switch_value = 0,
      sg_value_type = EVT_Double, sg_decode = (\<lambda>b. of_nat (le_value b)),
      sg_encode = (\<lambda>r b. le_bytes 8 (unat r)),
      sg_raw_to_phys = f64_of_u64, sg_phys_to_raw = (\<lambda>v. if f64_eq v f64_one then 1 else 0)\<rparr>"

lemma ex_double_signal_codec: "sg_decode ex_double_signal (sg_encode ex_double_signal r b) = r"
proof -
  have "unat r < 256 ^ 8" using unsigned_less [of r] by simp
  then show ?thesis by (simp add: ex_double_signal_def le_value_bytes)
qed

theorem preset_sin_double_mismatch_witness:
  "signal_phys ex_double_signal (sg_decode ex_double_signal (preset_encode [] ex_double_signal 0 0 f64_one)) = 1
    \<and> signal_phys ex_double_signal (encode_raw ex_double_signal f64_one) = f64_one"
proof -
  have "f64_eq f64_one f64_one" "\<not> f64_lt 0 0"
    using f64_eq_of_nat [of 1 1] f64_lt_of_nat [of 0 0] by (simp_all add: f64_one_def)
  then show ?thesis
    using preset_sin_double_mismatch [of ex_double_signal "[]" 0 0 f64_one, OF _ ex_double_signal_codec]
    by (simp add: ex_double_signal_def)
qed

end
