(* ===== verification/Proto.thy ===== *)
theory Proto
  imports Decoder
begin

text \<open>
  \<open>src/proto\<close>: the protobuf types built from a DBC, one message type per CAN message with a
  double field per signal, and the serialisation of decoded frames. The protobuf library is
  the parameter \<open>proto_api\<close>: building a file, looking up descriptors, and reflection.
\<close>

section \<open>What the code asks protobuf\<close>

datatype field_type = TYPE_DOUBLE | TYPE_UINT32 | TYPE_OTHER

datatype field_label = LABEL_OPTIONAL | LABEL_REPEATED

record field_proto =
  fdp_name :: string
  fdp_number :: int
  fdp_type :: field_type
  fdp_label :: field_label

record message_proto =
  mp_name :: string
  mp_fields :: "field_proto list"

record file_proto =
  fp_name :: string
  fp_syntax :: string
  fp_messages :: "message_proto list"

record ('f, 'd, 'fd, 'msg) proto_api =
  pb_build :: "file_proto \<Rightarrow> 'f option"
  pb_find_message :: "'f \<Rightarrow> string \<Rightarrow> 'd option"
  pb_find_field :: "'d \<Rightarrow> string \<Rightarrow> 'fd option"
  pb_fields :: "'d \<Rightarrow> 'fd list"
  pb_field_name :: "'fd \<Rightarrow> string"
  pb_field_type :: "'fd \<Rightarrow> field_type"
  pb_name :: "'d \<Rightarrow> string"
  pb_full_name :: "'d \<Rightarrow> string"
  pb_file_set :: "'d \<Rightarrow> bytes"
  pb_new :: "'d \<Rightarrow> 'msg"
  pb_set_double :: "'msg \<Rightarrow> 'fd \<Rightarrow> dbl \<Rightarrow> 'msg"
  pb_get_double :: "'msg \<Rightarrow> 'fd \<Rightarrow> dbl"
  pb_has_field :: "'msg \<Rightarrow> 'fd \<Rightarrow> bool"
  pb_set_uint32 :: "'msg \<Rightarrow> 'fd \<Rightarrow> u32 \<Rightarrow> 'msg"
  pb_get_uint32 :: "'msg \<Rightarrow> 'fd \<Rightarrow> u32"
  pb_add_uint32 :: "'msg \<Rightarrow> 'fd \<Rightarrow> u32 \<Rightarrow> 'msg"
  pb_uint32s :: "'msg \<Rightarrow> 'fd \<Rightarrow> u32 list"
  pb_serialize :: "'msg \<Rightarrow> bytes"
  pb_parse :: "'d \<Rightarrow> bytes \<Rightarrow> 'msg option"

section \<open>Names\<close>

definition sanitize_char :: "char \<Rightarrow> char" where
  "sanitize_char c = (if is_alnum c \<or> c = CHR ''_'' then c else CHR ''_'')"

definition sanitize :: "string \<Rightarrow> string" where
  "sanitize name =
     (let out = map sanitize_char name;
          out = (if out \<noteq> [] \<and> is_digit (hd out) then CHR ''_'' # out else out)
      in if out = [] then ''_'' else out)"

section \<open>ProtoLog\<close>

record 'd proto_log =
  pl_interface :: string
  pl_descriptors :: "u64 \<rightharpoonup> 'd"
  pl_field_names :: "u64 \<rightharpoonup> (string \<rightharpoonup> string)"

definition independent_msg :: string where
  "independent_msg = ''VECTOR__INDEPENDENT_SIG_MSG''"

definition mk_message_proto :: "imessage \<Rightarrow> message_proto" where
  "mk_message_proto msg =
     \<lparr>mp_name = sanitize (ms_name msg),
      mp_fields = map (\<lambda>(i, sig). \<lparr>fdp_name = sanitize (sg_name sig), fdp_number = int i,
                                         fdp_type = TYPE_DOUBLE, fdp_label = LABEL_OPTIONAL\<rparr>) (enumerate 1 (ms_signals msg))\<rparr>"

definition mk_file_proto :: "string \<Rightarrow> network \<Rightarrow> file_proto" where
  "mk_file_proto interface net =
     \<lparr>fp_name = interface @ ''.proto'', fp_syntax = ''proto2'',
      fp_messages = map mk_message_proto (filter (\<lambda>m. ms_name m \<noteq> independent_msg) net)\<rparr>"

definition signal_names :: "imessage \<Rightarrow> (string \<rightharpoonup> string) \<Rightarrow> (string \<rightharpoonup> string)" where
  "signal_names msg m = fold (\<lambda>sig m. m(sg_name sig \<mapsto> sanitize (sg_name sig))) (ms_signals msg) m"

definition field_names :: "network \<Rightarrow> (u64 \<rightharpoonup> (string \<rightharpoonup> string))" where
  "field_names net =
     fold (\<lambda>msg m. if ms_name msg = independent_msg then m
                   else m(ms_id msg \<mapsto> signal_names msg (case m (ms_id msg) of Some s \<Rightarrow> s | None \<Rightarrow> Map.empty)))
       net Map.empty"

definition descriptors :: "('f, 'd, 'fd, 'msg) proto_api \<Rightarrow> 'f \<Rightarrow> network \<Rightarrow> (u64 \<rightharpoonup> 'd)" where
  "descriptors P file net =
     fold (\<lambda>msg m. if ms_name msg = independent_msg then m
                   else case pb_find_message P file (sanitize (ms_name msg)) of
                          Some d \<Rightarrow> m(ms_id msg \<mapsto> d)
                        | None \<Rightarrow> m)
       net Map.empty"

definition mk_proto_log :: "('f, 'd, 'fd, 'msg) proto_api \<Rightarrow> (string \<Rightarrow> dbc_file) \<Rightarrow> string \<Rightarrow> string \<Rightarrow> 'd proto_log result" where
  "mk_proto_log P load interface dbc_path =
     (case load dbc_path of
        Dbc_unopenable \<Rightarrow> Inl (Exn (''ProtoLog: cannot open DBC: '' @ dbc_path))
      | Dbc_unparsable \<Rightarrow> Inl (Exn (''ProtoLog: cannot parse DBC: '' @ dbc_path))
      | Dbc_network net \<Rightarrow>
          (case pb_build P (mk_file_proto interface net) of
             None \<Rightarrow> Inl (Exn (''ProtoLog: failed to build protobuf descriptors for interface: '' @ interface))
           | Some file \<Rightarrow>
               Inr \<lparr>pl_interface = interface, pl_descriptors = descriptors P file net, pl_field_names = field_names net\<rparr>))"

definition pl_descriptor :: "'d proto_log \<Rightarrow> u64 \<Rightarrow> 'd option" where
  "pl_descriptor pl msg_id = pl_descriptors pl msg_id"

fun set_fields :: "('f, 'd, 'fd, 'msg) proto_api \<Rightarrow> 'd \<Rightarrow> (string \<rightharpoonup> string) \<Rightarrow> decoded_signal list \<Rightarrow> 'msg \<Rightarrow> 'msg" where
  "set_fields P desc names [] msg = msg"
| "set_fields P desc names (sig # sigs) msg =
     set_fields P desc names sigs
       (case names (ds_name sig) of
          None \<Rightarrow> msg
        | Some n \<Rightarrow> (case pb_find_field P desc n of
                        None \<Rightarrow> msg
                      | Some fd \<Rightarrow> pb_set_double P msg fd (ds_value sig)))"

definition build_message :: "('f, 'd, 'fd, 'msg) proto_api \<Rightarrow> 'd proto_log \<Rightarrow> can_frame \<Rightarrow> ('d \<times> 'msg) option" where
  "build_message P pl frame =
     (let cid = ucast (hdr_id (fr_header frame)) :: u64
      in case pl_descriptors pl cid of
           None \<Rightarrow> None
         | Some desc \<Rightarrow>
             (case pl_field_names pl cid of
                None \<Rightarrow> None
              | Some names \<Rightarrow> Some (desc, set_fields P desc names (fr_decoded frame) (pb_new P desc))))"

definition pl_serialize :: "('f, 'd, 'fd, 'msg) proto_api \<Rightarrow> 'd proto_log \<Rightarrow> can_frame \<Rightarrow> bytes" where
  "pl_serialize P pl frame =
     (case build_message P pl frame of None \<Rightarrow> [] | Some (_, msg) \<Rightarrow> pb_serialize P msg)"

definition pl_describe :: "('f, 'd, 'fd, 'msg) proto_api \<Rightarrow> (dbl \<Rightarrow> string) \<Rightarrow> 'd proto_log \<Rightarrow> can_frame \<Rightarrow> string" where
  "pl_describe P num pl frame =
     (case build_message P pl frame of
        None \<Rightarrow> []
      | Some (desc, msg) \<Rightarrow>
          concat (map (\<lambda>fd. ''  '' @ pb_field_name P fd @ '': '' @ num (pb_get_double P msg fd) @ [CHR 0x0A])
            (filter (pb_has_field P msg) (pb_fields P desc))))"

section \<open>ProtoLogRegistry\<close>

type_synonym 'd proto_registry = "string \<rightharpoonup> 'd proto_log"

text \<open>A failing interface is reported on \<open>stderr\<close> and left as it was.\<close>

definition proto_add_interface :: "('f, 'd, 'fd, 'msg) proto_api \<Rightarrow> (string \<Rightarrow> dbc_file) \<Rightarrow> string \<Rightarrow> string
    \<Rightarrow> 'd proto_registry \<Rightarrow> 'd proto_registry" where
  "proto_add_interface P load interface dbc_path logs =
     (if dbc_path = [] then logs
      else case mk_proto_log P load interface dbc_path of Inl e \<Rightarrow> logs | Inr pl \<Rightarrow> logs(interface \<mapsto> pl))"

definition proto_serialize :: "('f, 'd, 'fd, 'msg) proto_api \<Rightarrow> 'd proto_registry \<Rightarrow> can_frame \<Rightarrow> bytes" where
  "proto_serialize P logs frame =
     (case logs (hdr_interface (fr_header frame)) of None \<Rightarrow> [] | Some pl \<Rightarrow> pl_serialize P pl frame)"

definition proto_describe :: "('f, 'd, 'fd, 'msg) proto_api \<Rightarrow> (dbl \<Rightarrow> string) \<Rightarrow> 'd proto_registry \<Rightarrow> can_frame \<Rightarrow> string" where
  "proto_describe P num logs frame =
     (case logs (hdr_interface (fr_header frame)) of None \<Rightarrow> [] | Some pl \<Rightarrow> pl_describe P num pl frame)"

definition proto_get :: "'d proto_registry \<Rightarrow> string \<Rightarrow> 'd proto_log option" where
  "proto_get logs interface = logs interface"

section \<open>Facts\<close>

text \<open>The names protobuf accepts.\<close>

definition proto_ident :: "string \<Rightarrow> bool" where
  "proto_ident s \<longleftrightarrow> s \<noteq> [] \<and> list_all (\<lambda>c. is_alnum c \<or> c = CHR ''_'') s \<and> \<not> is_digit (hd s)"

lemma underscore [simp]: "\<not> is_digit (CHR ''_'')" "\<not> is_alnum (CHR ''_'')"
  by code_simp+

lemma sanitize_char_ok: "is_alnum (sanitize_char c) \<or> sanitize_char c = CHR ''_''"
  by (simp add: sanitize_char_def)

lemma sanitize_ident: "proto_ident (sanitize s)"
  using sanitize_char_ok by (cases s) (auto simp: sanitize_def proto_ident_def Let_def list_all_iff)

lemma sanitize_id: "proto_ident s \<Longrightarrow> sanitize s = s"
proof -
  assume p: "proto_ident s"
  then have "map sanitize_char s = s"
    by (intro map_idI) (auto simp: proto_ident_def list_all_iff sanitize_char_def)
  with p show ?thesis by (simp add: sanitize_def proto_ident_def Let_def)
qed

lemma sanitize_fixpoint: "sanitize s = s \<longleftrightarrow> proto_ident s"
  using sanitize_ident [of s] sanitize_id [of s] by auto

text \<open>What the code relies on of protobuf's reflection.\<close>

definition reflection_laws :: "('f, 'd, 'fd, 'msg) proto_api \<Rightarrow> bool" where
  "reflection_laws P \<longleftrightarrow>
     (\<forall>d fd. \<not> pb_has_field P (pb_new P d) fd)
     \<and> (\<forall>m fd v fd'. pb_has_field P (pb_set_double P m fd v) fd' \<longleftrightarrow> fd' = fd \<or> pb_has_field P m fd')
     \<and> (\<forall>m fd v fd'. pb_get_double P (pb_set_double P m fd v) fd' = (if fd' = fd then v else pb_get_double P m fd'))"

definition signal_field :: "('f, 'd, 'fd, 'msg) proto_api \<Rightarrow> 'd \<Rightarrow> (string \<rightharpoonup> string) \<Rightarrow> string \<Rightarrow> 'fd option" where
  "signal_field P d names s = Option.bind (names s) (pb_find_field P d)"

text \<open>A message holds, for every field, the last of the values meant for it, or nothing.\<close>

definition holds_values :: "('f, 'd, 'fd, 'msg) proto_api \<Rightarrow> 'd \<Rightarrow> (string \<rightharpoonup> string) \<Rightarrow> 'msg \<Rightarrow> decoded_signal list \<Rightarrow> bool" where
  "holds_values P d names m ss \<longleftrightarrow>
     (\<forall>fd. let hits = filter (\<lambda>s. signal_field P d names (ds_name s) = Some fd) ss
           in if hits = [] then \<not> pb_has_field P m fd
              else pb_has_field P m fd \<and> pb_get_double P m fd = ds_value (last hits))"

lemma holds_values_snoc:
  assumes "reflection_laws P" "holds_values P d names m ss"
  shows "holds_values P d names
    (case names (ds_name s) of
       None \<Rightarrow> m
     | Some n \<Rightarrow> (case pb_find_field P d n of None \<Rightarrow> m | Some fd \<Rightarrow> pb_set_double P m fd (ds_value s))) (ss @ [s])"
  using assms
  by (auto simp: holds_values_def reflection_laws_def signal_field_def Let_def split: option.splits)

lemma set_fields_holds:
  assumes "reflection_laws P" "holds_values P d names m ss"
  shows "holds_values P d names (set_fields P d names ts m) (ss @ ts)"
  using assms(2)
proof (induction ts arbitrary: ss m)
  case (Cons t ts)
  from Cons.IH [OF holds_values_snoc [OF assms(1) Cons.prems, of t]] show ?case by simp
qed simp

section \<open>Properties\<close>

text \<open>Every sanitised name is a protobuf identifier, names that already are one stay as they
  are and no others do, and sanitising twice changes nothing.\<close>

theorem sanitize_spec:
  "proto_ident (sanitize s) \<and> (sanitize s = s \<longleftrightarrow> proto_ident s) \<and> sanitize (sanitize s) = sanitize s"
  by (simp add: sanitize_ident sanitize_fixpoint sanitize_id)


definition ex_api :: "(file_proto, message_proto, string, (string \<times> dbl) list) proto_api" where
  "ex_api =
     \<lparr>pb_build = (\<lambda>fp. if list_all (\<lambda>m. distinct (map fdp_name (mp_fields m))) (fp_messages fp) then Some fp else None),
      pb_find_message = (\<lambda>fp n. List.find (\<lambda>m. mp_name m = n) (fp_messages fp)),
      pb_find_field = (\<lambda>d n. if n \<in> set (map fdp_name (mp_fields d)) then Some n else None),
      pb_fields = (\<lambda>d. map fdp_name (mp_fields d)), pb_field_name = (\<lambda>n. n), pb_field_type = (\<lambda>n. TYPE_DOUBLE), pb_name = mp_name, pb_full_name = mp_name,
      pb_file_set = (\<lambda>d. []),
      pb_new = (\<lambda>d. []), pb_set_double = (\<lambda>m n v. (n, v) # m),
      pb_get_double = (\<lambda>m n. case map_of m n of Some v \<Rightarrow> v | None \<Rightarrow> 0),
      pb_has_field = (\<lambda>m n. map_of m n \<noteq> None), pb_set_uint32 = (\<lambda>m n v. m), pb_get_uint32 = (\<lambda>m n. 0), pb_add_uint32 = (\<lambda>m n v. m),
      pb_uint32s = (\<lambda>m n. []), pb_serialize = (\<lambda>m. []), pb_parse = (\<lambda>d b. None)\<rparr>"

lemma ex_api_laws: "reflection_laws ex_api"
  by (simp add: reflection_laws_def ex_api_def)

definition ex_proto_net :: "string list \<Rightarrow> network" where
  "ex_proto_net names =
     [\<lparr>ms_id = 1, ms_name = ''M'', ms_size = 8,
       ms_signals = map (\<lambda>n. \<lparr>sg_name = n, sg_unit = [], sg_minimum = 0, sg_maximum = 0, sg_factor = f64_one,
         sg_offset = 0, sg_bit_size = 8, sg_start_bit = 0, sg_is_mux_value = False, sg_mux_switch_value = 0,
         sg_value_type = EVT_Other, sg_decode = (\<lambda>_. 0), sg_encode = (\<lambda>_ b. b), sg_raw_to_phys = (\<lambda>_. 0),
         sg_phys_to_raw = (\<lambda>_. 0)\<rparr>) names, ms_mux_signal = None\<rparr>]"

definition ex_proto_frame :: can_frame where
  "ex_proto_frame = add_decoded \<lparr>ds_name = ''a.b'', ds_value = 9, ds_unit = [], ds_min_val = 0, ds_max_val = 0\<rparr>
     (mk_can_frame 0 \<lparr>hdr_id = 1, hdr_interface = ''vcan0'', hdr_dlc = 8\<rparr> [])"


text \<open>Protobuf rejects a message with two fields of one name; two signals of one message whose
  names sanitise alike therefore leave the whole interface without a \<open>ProtoLog\<close>.\<close>

theorem name_collision_disables_interface:
  assumes "\<forall>fp. (\<exists>m\<in>set (fp_messages fp). \<not> distinct (map fdp_name (mp_fields m))) \<longrightarrow> pb_build P fp = None"
    and "load path = Dbc_network net" "msg \<in> set net" "ms_name msg \<noteq> independent_msg"
    and "\<not> distinct (map (\<lambda>s. sanitize (sg_name s)) (ms_signals msg))"
  shows "proto_add_interface P load interface path logs = logs"
proof -
  have "map fdp_name (mp_fields (mk_message_proto msg)) = map (\<lambda>s. sanitize (sg_name s)) (ms_signals msg)"
    by (rule nth_equalityI) (simp_all add: mk_message_proto_def nth_enumerate_eq)
  with assms(3-5) have "\<exists>m\<in>set (fp_messages (mk_file_proto interface net)). \<not> distinct (map fdp_name (mp_fields m))"
    by (intro bexI [of _ "mk_message_proto msg"]) (auto simp: mk_file_proto_def)
  with assms(1,2) show ?thesis by (simp add: proto_add_interface_def mk_proto_log_def)
qed

theorem name_collision_disables_interface_witness:
  "proto_add_interface ex_api (\<lambda>_. Dbc_network (ex_proto_net [''a.b'', ''a_b''])) ''vcan0'' ''x'' Map.empty = Map.empty"
proof -
  have san: "sanitize ''a.b'' = sanitize ''a_b''" "''M'' \<noteq> independent_msg" by code_simp+
  have b: "\<forall>fp. (\<exists>m\<in>set (fp_messages fp). \<not> distinct (map fdp_name (mp_fields m))) \<longrightarrow> pb_build ex_api fp = None"
    by (auto simp: ex_api_def list_all_iff)
  show ?thesis
    by (rule name_collision_disables_interface [OF b, of _ _ "ex_proto_net [''a.b'', ''a_b'']" "hd (ex_proto_net [''a.b'', ''a_b''])"])
      (use san in \<open>simp_all add: ex_proto_net_def\<close>)
qed

end
