(* ===== verification/Model.thy ===== *)
theory Model
  imports Decoder
begin

text \<open>
  \<open>src/model\<close>: the store of current signal values and the Lua model that runs on every frame.
  Lua is a parameter: a state, the loading of a script, and a call of \<open>run()\<close> which may
  read signals through \<open>get_signal\<close>.
\<close>

section \<open>SignalStore\<close>

type_synonym signal_store = "string \<rightharpoonup> dbl"

definition signal_key :: "string \<Rightarrow> string \<Rightarrow> string \<Rightarrow> string" where
  "signal_key iface msg signal = iface @ ''/'' @ msg @ ''/'' @ signal"

definition store_update :: "can_frame \<Rightarrow> signal_store \<Rightarrow> signal_store" where
  "store_update frame values =
     fold (\<lambda>sig m. m(hdr_interface (fr_header frame) @ ''/'' @ fr_msg_name frame @ ''/'' @ ds_name sig \<mapsto> ds_value sig))
       (fr_decoded frame) values"

definition store_get :: "signal_store \<Rightarrow> string \<Rightarrow> string \<Rightarrow> string \<Rightarrow> dbl option" where
  "store_get values iface msg signal = values (signal_key iface msg signal)"

section \<open>What the code asks Lua\<close>

text \<open>A Lua object by what the code tests and converts it to.\<close>

datatype lua_object =
  Lua_object (as_double: "dbl option") (as_long: "int option") (as_string: "string option")
    (as_table: "(lua_object \<times> lua_object) list option")

datatype lua_result = Lua_error string | Lua_return lua_object

record 'l lua_api =
  lua_load :: "string \<Rightarrow> ('l \<times> bool) result"
  lua_run :: "'l \<Rightarrow> (string \<Rightarrow> string \<Rightarrow> string \<Rightarrow> dbl) \<Rightarrow> 'l \<times> lua_result"

section \<open>ModelEngine\<close>

text \<open>\<open>path.stem()\<close>: the file name up to its last dot, unless that dot starts the name.\<close>

definition path_filename :: "string \<Rightarrow> string" where
  "path_filename p = rev (takeWhile (\<lambda>c. c \<noteq> CHR ''/'') (rev p))"

definition path_stem :: "string \<Rightarrow> string" where
  "path_stem p =
     (let f = path_filename p; stem = rev (tl (dropWhile (\<lambda>c. c \<noteq> CHR ''.'') (rev f)))
      in if f = ''..'' \<or> CHR ''.'' \<notin> set f \<or> stem = [] then f else stem)"

record 'l model_engine =
  me_lua :: 'l
  me_store :: signal_store
  me_logger :: bool
  me_output_cb :: bool
  me_script_name :: string

definition mk_model_engine :: "'l lua_api \<Rightarrow> string \<Rightarrow> signal_store \<Rightarrow> bool \<Rightarrow> 'l model_engine result" where
  "mk_model_engine L script_path store logger =
     bind_result (lua_load L script_path) (\<lambda>(lua, has_run).
       if \<not> has_run then Inl (Exn (''ModelEngine: script has no run() function: '' @ script_path))
       else Inr \<lparr>me_lua = lua, me_store = store, me_logger = logger, me_output_cb = False,
                 me_script_name = path_stem script_path\<rparr>)"

definition set_output_callback :: "'l model_engine \<Rightarrow> 'l model_engine" where
  "set_output_callback e = e\<lparr>me_output_cb := True\<rparr>"

definition get_signal :: "signal_store \<Rightarrow> string \<Rightarrow> string \<Rightarrow> string \<Rightarrow> dbl" where
  "get_signal store iface msg signal = (case store_get store iface msg signal of Some v \<Rightarrow> v | None \<Rightarrow> 0)"

definition to_double :: "lua_object \<Rightarrow> dbl option" where
  "to_double obj =
     (case as_double obj of Some d \<Rightarrow> Some d
      | None \<Rightarrow> (case as_long obj of Some i \<Rightarrow> Some (f64_of_int i) | None \<Rightarrow> None))"

text \<open>The named outputs of a return value, in the order of the table.\<close>

definition table_outputs :: "(lua_object \<times> lua_object) list \<Rightarrow> (string \<times> dbl) list" where
  "table_outputs kvs =
     concat (map (\<lambda>(key, val). case as_string key of
                                 None \<Rightarrow> []
                               | Some name \<Rightarrow> (case to_double val of None \<Rightarrow> [] | Some v \<Rightarrow> [(name, v)])) kvs)"

definition model_outputs :: "lua_object \<Rightarrow> (string \<times> dbl) list" where
  "model_outputs obj =
     (case as_table obj of
        Some kvs \<Rightarrow> table_outputs kvs
      | None \<Rightarrow> (case to_double obj of Some v \<Rightarrow> [(''output'', v)] | None \<Rightarrow> []))"

text \<open>Feeding a frame: the new engine, the \<open>log_scalar\<close> calls and the calls of the callback.\<close>

definition me_on_frame :: "'l lua_api \<Rightarrow> can_frame \<Rightarrow> 'l model_engine
    \<Rightarrow> 'l model_engine \<times> (string \<times> dbl) list \<times> (string \<times> dbl) list" where
  "me_on_frame L frame e =
     (let store = store_update frame (me_store e);
          (lua, result) = lua_run L (me_lua e) (get_signal store);
          e' = e\<lparr>me_store := store, me_lua := lua\<rparr>
      in case result of
           Lua_error _ \<Rightarrow> (e', [], [])
         | Lua_return obj \<Rightarrow>
             (let base = ''model/'' @ me_script_name e @ ''/''; outs = model_outputs obj
              in (e', (if me_logger e then map (\<lambda>(n, v). (base @ n, v)) outs else []),
                  (if me_output_cb e then outs else []))))"

section \<open>Facts\<close>

definition frame_entries :: "can_frame \<Rightarrow> (string \<times> dbl) list" where
  "frame_entries f = map (\<lambda>s. (signal_key (hdr_interface (fr_header f)) (fr_msg_name f) (ds_name s), ds_value s)) (fr_decoded f)"

lemma fold_upd_map_of: "fold (\<lambda>s m. m(k s \<mapsto> v s)) ss m = m ++ map_of (rev (map (\<lambda>s. (k s, v s)) ss))"
  by (induction ss arbitrary: m) (auto simp: map_add_def fun_eq_iff split: option.splits)

lemma store_update_entries: "store_update f m = m ++ map_of (rev (frame_entries f))"
  by (simp add: store_update_def frame_entries_def signal_key_def fold_upd_map_of)

lemma fold_store_update: "fold store_update fs m = m ++ map_of (rev (concat (map frame_entries fs)))"
  by (induction fs arbitrary: m) (auto simp: store_update_entries)

lemma signal_key_inj:
  assumes "CHR ''/'' \<notin> set i" "CHR ''/'' \<notin> set j" "CHR ''/'' \<notin> set m" "CHR ''/'' \<notin> set n"
  shows "signal_key i m s = signal_key j n t \<longleftrightarrow> i = j \<and> m = n \<and> s = t"
proof -
  have "a @ CHR ''/'' # r = b @ CHR ''/'' # u \<longleftrightarrow> a = b \<and> r = u"
    if "CHR ''/'' \<notin> set a" "CHR ''/'' \<notin> set b" for a b r u
    using split_first_append [OF that(1), of r] split_first_append [OF that(2), of u] by (metis option.inject prod.inject)
  with assms show ?thesis by (simp add: signal_key_def)
qed

lemma map_of_rev_last:
  "map_of (rev kvs) k = (let hits = filter (\<lambda>e. fst e = k) kvs in if hits = [] then None else Some (snd (last hits)))"
  by (induction kvs rule: rev_induct) (auto simp: Let_def)

text \<open>The values received for a signal, in order.\<close>

definition received :: "string \<Rightarrow> string \<Rightarrow> string \<Rightarrow> can_frame list \<Rightarrow> dbl list" where
  "received iface msg signal fs =
     concat (map (\<lambda>f. if hdr_interface (fr_header f) = iface \<and> fr_msg_name f = msg
                      then map ds_value (filter (\<lambda>s. ds_name s = signal) (fr_decoded f)) else []) fs)"

definition slash_free :: "string \<Rightarrow> string \<Rightarrow> bool" where
  "slash_free iface msg \<longleftrightarrow> CHR ''/'' \<notin> set iface \<and> CHR ''/'' \<notin> set msg"

section \<open>Properties\<close>

text \<open>C22: \<open>get_signal\<close> returns the last value received for that interface, message and signal,
  and 0 if there was none, provided interface and message names contain no slash.\<close>

theorem get_signal_latest:
  assumes "slash_free iface msg" "list_all (\<lambda>f. slash_free (hdr_interface (fr_header f)) (fr_msg_name f)) fs"
  shows "get_signal (fold store_update fs Map.empty) iface msg signal =
    (if received iface msg signal fs = [] then 0 else last (received iface msg signal fs))"
proof -
  let ?k = "signal_key iface msg signal"
  have e: "map snd (filter (\<lambda>e. fst e = ?k) (frame_entries f)) =
      (if hdr_interface (fr_header f) = iface \<and> fr_msg_name f = msg
       then map ds_value (filter (\<lambda>s. ds_name s = signal) (fr_decoded f)) else [])"
    if "slash_free (hdr_interface (fr_header f)) (fr_msg_name f)" for f
    using that assms(1) signal_key_inj [of "hdr_interface (fr_header f)" iface "fr_msg_name f" msg]
    by (auto simp: frame_entries_def filter_map comp_def slash_free_def)
  have r: "map snd (filter (\<lambda>e. fst e = ?k) (concat (map frame_entries fs))) = received iface msg signal fs"
    using assms(2) by (induction fs) (auto simp: received_def e)
  have "(let hits = filter (\<lambda>e. fst e = ?k) (concat (map frame_entries fs))
       in if hits = [] then None else Some (snd (last hits)))
     = (if received iface msg signal fs = [] then None else Some (last (received iface msg signal fs)))"
    unfolding Let_def r [symmetric] by (simp add: last_map)
  then show ?thesis
    by (simp add: get_signal_def store_get_def fold_store_update map_of_rev_last)
qed

definition ex_model_frame :: "dbl \<Rightarrow> can_frame" where
  "ex_model_frame v = set_msg_name ''M'' (add_decoded \<lparr>ds_name = ''S'', ds_value = v, ds_unit = [], ds_min_val = 0, ds_max_val = 0\<rparr>
     (mk_can_frame 0 \<lparr>hdr_id = 1, hdr_interface = ''vcan0'', hdr_dlc = 8\<rparr> []))"

theorem get_signal_latest_witness:
  "get_signal (fold store_update [ex_model_frame 5, ex_model_frame 7] Map.empty) ''vcan0'' ''M'' ''S'' = 7"
  using get_signal_latest [of "''vcan0''" "''M''" "[ex_model_frame 5, ex_model_frame 7]" "''S''"]
  by (simp add: ex_model_frame_def received_def slash_free_def)


end
