(* ===== verification/Logging.thy ===== *)
theory Logging
  imports Proto Config "HOL-Library.Monad_Syntax"
begin

text \<open>
  \<open>src/logger\<close> and \<open>src/modes/log_frame.hpp\<close>: writing frames and scalars to an MCAP file.
  The MCAP writer is the parameter \<open>mcap_api\<close>; \<open>mcap_laws\<close> states what the code relies on,
  over views of what the file holds. A null field descriptor handed to protobuf's reflection
  is undefined behaviour and None here. The lazily built descriptors of the three built-in
  types are recomputed on each use, which gives the same descriptor.
\<close>

section \<open>What the code asks the MCAP writer\<close>

record schema =
  sc_name :: string
  sc_encoding :: string
  sc_data :: bytes

record channel =
  ch_topic :: string
  ch_message_encoding :: string
  ch_schema_id :: nat

record mcap_message =
  mm_channel_id :: nat
  mm_sequence :: nat
  mm_log_time :: u64
  mm_publish_time :: u64
  mm_data :: bytes

text \<open>The last three fields are views of the file being written, used in statements only.\<close>

record 'w mcap_api =
  w_open :: "string \<Rightarrow> 'w result"
  w_add_schema :: "'w \<Rightarrow> schema \<Rightarrow> 'w \<times> nat"
  w_add_channel :: "'w \<Rightarrow> channel \<Rightarrow> 'w \<times> nat"
  w_write :: "'w \<Rightarrow> mcap_message \<Rightarrow> 'w \<times> bool"
  w_schemas :: "'w \<Rightarrow> (nat \<rightharpoonup> schema)"
  w_channels :: "'w \<Rightarrow> (nat \<rightharpoonup> channel)"
  w_messages :: "'w \<Rightarrow> mcap_message list"

section \<open>McapLogger\<close>

record 'w mcap_logger =
  ml_writer :: 'w
  ml_channels :: "string \<rightharpoonup> nat"
  ml_schemas :: "string \<rightharpoonup> nat"

definition frame_ns :: "can_frame \<Rightarrow> u64" where
  "frame_ns frame = of_int (fr_timestamp frame)"

definition mk_mcap_logger :: "'w mcap_api \<Rightarrow> string \<Rightarrow> 'w mcap_logger result" where
  "mk_mcap_logger M path =
     (case w_open M path of
        Inl e \<Rightarrow> Inl (Exn (''McapLogger: cannot open file: '' @ path @ '' ('' @ what e @ '')''))
      | Inr w \<Rightarrow> Inr \<lparr>ml_writer = w, ml_channels = Map.empty, ml_schemas = Map.empty\<rparr>)"

definition get_or_register_schema :: "('f, 'd, 'fd, 'msg) proto_api \<Rightarrow> 'w mcap_api \<Rightarrow> 'd \<Rightarrow> 'w mcap_logger \<Rightarrow> nat \<times> 'w mcap_logger" where
  "get_or_register_schema P M desc l =
     (let key = pb_full_name P desc
      in case ml_schemas l key of
           Some sid \<Rightarrow> (sid, l)
         | None \<Rightarrow>
             (let (w, sid) = w_add_schema M (ml_writer l)
                    \<lparr>sc_name = pb_full_name P desc, sc_encoding = ''protobuf'', sc_data = pb_file_set P desc\<rparr>
              in (sid, l\<lparr>ml_writer := w, ml_schemas := (ml_schemas l)(key \<mapsto> sid)\<rparr>)))"

definition get_or_register_channel :: "'w mcap_api \<Rightarrow> string \<Rightarrow> nat \<Rightarrow> 'w mcap_logger \<Rightarrow> nat \<times> 'w mcap_logger" where
  "get_or_register_channel M topic schema_id l =
     (case ml_channels l topic of
        Some cid \<Rightarrow> (cid, l)
      | None \<Rightarrow>
          (let (w, cid) = w_add_channel M (ml_writer l)
                 \<lparr>ch_topic = topic, ch_message_encoding = ''protobuf'', ch_schema_id = schema_id\<rparr>
           in (cid, l\<lparr>ml_writer := w, ml_channels := (ml_channels l)(topic \<mapsto> cid)\<rparr>)))"

text \<open>Registering both and writing one message; a failing write is only reported.\<close>

definition write_topic :: "('f, 'd, 'fd, 'msg) proto_api \<Rightarrow> 'w mcap_api \<Rightarrow> 'd \<Rightarrow> string \<Rightarrow> u64 \<Rightarrow> bytes \<Rightarrow> 'w mcap_logger \<Rightarrow> 'w mcap_logger" where
  "write_topic P M desc topic ts data l =
     (let (sid, l1) = get_or_register_schema P M desc l;
          (cid, l2) = get_or_register_channel M topic sid l1
      in l2\<lparr>ml_writer := fst (w_write M (ml_writer l2)
              \<lparr>mm_channel_id = cid, mm_sequence = 0, mm_log_time = ts, mm_publish_time = ts, mm_data = data\<rparr>)\<rparr>)"

text \<open>The three built-in message types.\<close>

definition one_message_file :: "string \<Rightarrow> string \<Rightarrow> field_proto list \<Rightarrow> file_proto" where
  "one_message_file file name flds =
     \<lparr>fp_name = file, fp_syntax = ''proto2'', fp_messages = [\<lparr>mp_name = name, mp_fields = flds\<rparr>]\<rparr>"

definition fallback_file :: file_proto where
  "fallback_file = one_message_file ''raw_can_frame.proto'' ''RawCanFrame''
     [\<lparr>fdp_name = ''data'', fdp_number = 1, fdp_type = TYPE_UINT32, fdp_label = LABEL_REPEATED\<rparr>]"

definition scalar_file :: file_proto where
  "scalar_file = one_message_file ''scalar_value.proto'' ''ScalarValue''
     [\<lparr>fdp_name = ''value'', fdp_number = 1, fdp_type = TYPE_DOUBLE, fdp_label = LABEL_OPTIONAL\<rparr>]"

definition raw_file :: file_proto where
  "raw_file = one_message_file ''raw_frame.proto'' ''RawFrame''
     [\<lparr>fdp_name = ''can_id'', fdp_number = 1, fdp_type = TYPE_UINT32, fdp_label = LABEL_OPTIONAL\<rparr>,
      \<lparr>fdp_name = ''payload'', fdp_number = 2, fdp_type = TYPE_UINT32, fdp_label = LABEL_REPEATED\<rparr>]"

definition fallback_descriptor :: "('f, 'd, 'fd, 'msg) proto_api \<Rightarrow> 'd option" where
  "fallback_descriptor P = Option.bind (pb_build P fallback_file) (\<lambda>f. pb_find_message P f ''RawCanFrame'')"

definition scalar_descriptor :: "('f, 'd, 'fd, 'msg) proto_api \<Rightarrow> 'd option" where
  "scalar_descriptor P = Option.bind (pb_build P scalar_file) (\<lambda>f. pb_find_message P f ''ScalarValue'')"

definition raw_descriptor :: "('f, 'd, 'fd, 'msg) proto_api \<Rightarrow> 'd option" where
  "raw_descriptor P = Option.bind (pb_build P raw_file) (\<lambda>f. pb_find_message P f ''RawFrame'')"

definition add_bytes :: "('f, 'd, 'fd, 'msg) proto_api \<Rightarrow> 'fd \<Rightarrow> bytes \<Rightarrow> 'msg \<Rightarrow> 'msg" where
  "add_bytes P fd bs msg = fold (\<lambda>b m. pb_add_uint32 P m fd (ucast b)) bs msg"

definition serialize_fallback :: "('f, 'd, 'fd, 'msg) proto_api \<Rightarrow> can_frame \<Rightarrow> bytes option" where
  "serialize_fallback P frame =
     (case fallback_descriptor P of
        None \<Rightarrow> Some []
      | Some desc \<Rightarrow>
          (case pb_find_field P desc ''data'' of
             None \<Rightarrow> if fr_payload frame = [] then Some (pb_serialize P (pb_new P desc)) else None
           | Some fd \<Rightarrow> Some (pb_serialize P (add_bytes P fd (fr_payload frame) (pb_new P desc)))))"

definition serialize_scalar :: "('f, 'd, 'fd, 'msg) proto_api \<Rightarrow> dbl \<Rightarrow> bytes option" where
  "serialize_scalar P v =
     (case scalar_descriptor P of
        None \<Rightarrow> Some []
      | Some desc \<Rightarrow>
          do { fd \<leftarrow> pb_find_field P desc ''value'';
               Some (pb_serialize P (pb_set_double P (pb_new P desc) fd v)) })"

definition serialize_raw :: "('f, 'd, 'fd, 'msg) proto_api \<Rightarrow> can_frame \<Rightarrow> bytes option" where
  "serialize_raw P frame =
     (case raw_descriptor P of
        None \<Rightarrow> Some []
      | Some desc \<Rightarrow>
          do { idf \<leftarrow> pb_find_field P desc ''can_id'';
               let msg = pb_set_uint32 P (pb_new P desc) idf (hdr_id (fr_header frame));
               case pb_find_field P desc ''payload'' of
                 None \<Rightarrow> if fr_payload frame = [] then Some (pb_serialize P msg) else None
               | Some fd \<Rightarrow> Some (pb_serialize P (add_bytes P fd (fr_payload frame) msg)) })"

definition log_scalar_at :: "('f, 'd, 'fd, 'msg) proto_api \<Rightarrow> 'w mcap_api \<Rightarrow> string \<Rightarrow> dbl \<Rightarrow> u64 \<Rightarrow> 'w mcap_logger \<Rightarrow> 'w mcap_logger option" where
  "log_scalar_at P M topic v ts l =
     (case scalar_descriptor P of
        None \<Rightarrow> Some l
      | Some desc \<Rightarrow> do { data \<leftarrow> serialize_scalar P v; Some (write_topic P M desc topic ts data l) })"

definition ml_log_scalar :: "('f, 'd, 'fd, 'msg) proto_api \<Rightarrow> 'w mcap_api \<Rightarrow> int \<Rightarrow> string \<Rightarrow> dbl \<Rightarrow> 'w mcap_logger \<Rightarrow> 'w mcap_logger option" where
  "ml_log_scalar P M now topic v l = log_scalar_at P M topic v (of_int now) l"

definition base_topic :: "('f, 'd, 'fd, 'msg) proto_api \<Rightarrow> can_frame \<Rightarrow> 'd option \<Rightarrow> string" where
  "base_topic P frame desc =
     hdr_interface (fr_header frame) @ ''/''
     @ (case desc of Some d \<Rightarrow> pb_name P d | None \<Rightarrow> ''0x'' @ fmt_03X (unat (hdr_id (fr_header frame))))"

definition log_raw :: "('f, 'd, 'fd, 'msg) proto_api \<Rightarrow> 'w mcap_api \<Rightarrow> string \<Rightarrow> can_frame \<Rightarrow> 'w mcap_logger \<Rightarrow> 'w mcap_logger option" where
  "log_raw P M base frame l =
     (case raw_descriptor P of
        None \<Rightarrow> Some l
      | Some rd \<Rightarrow> do { raw \<leftarrow> serialize_raw P frame;
                       Some (write_topic P M rd (base @ ''/raw'') (frame_ns frame) raw l) })"

definition ml_log :: "('f, 'd, 'fd, 'msg) proto_api \<Rightarrow> 'w mcap_api \<Rightarrow> can_frame \<Rightarrow> 'd option \<Rightarrow> bytes \<Rightarrow> dbl option
    \<Rightarrow> 'w mcap_logger \<Rightarrow> 'w mcap_logger option" where
  "ml_log P M frame descriptor serialized ratio l =
     (let base = base_topic P frame descriptor; ts = frame_ns frame
      in case (case descriptor of Some d \<Rightarrow> Some d | None \<Rightarrow> fallback_descriptor P) of
           None \<Rightarrow> Some l
         | Some desc \<Rightarrow>
             do { data \<leftarrow> (case descriptor of Some _ \<Rightarrow> Some serialized | None \<Rightarrow> serialize_fallback P frame);
                  let l1 = write_topic P M desc (base @ ''/data'') ts data l;
                  l2 \<leftarrow> log_raw P M base frame l1;
                  case ratio of None \<Rightarrow> Some l2 | Some r \<Rightarrow> log_scalar_at P M (base @ ''/update_ratio'') r ts l2 })"

section \<open>log_frame\<close>

type_synonym timestamp_map = "string \<times> u32 \<rightharpoonup> int"

definition frame_key :: "can_frame \<Rightarrow> string \<times> u32" where
  "frame_key frame = (hdr_interface (fr_header frame), hdr_id (fr_header frame))"

definition frame_ratio :: "timestamp_map \<Rightarrow> can_frame \<Rightarrow> dbl option" where
  "frame_ratio last_ts frame = map_option (\<lambda>t. millis (fr_timestamp frame - t)) (last_ts (frame_key frame))"

definition frame_descriptor :: "'d proto_registry \<Rightarrow> can_frame \<Rightarrow> 'd option" where
  "frame_descriptor reg frame =
     (case proto_get reg (hdr_interface (fr_header frame)) of
        None \<Rightarrow> None
      | Some pl \<Rightarrow> pl_descriptor pl (ucast (hdr_id (fr_header frame))))"

text \<open>\<open>log\<close> is the virtual method of the logger, whose state is \<open>'l\<close>.\<close>

definition log_frame :: "('f, 'd, 'fd, 'msg) proto_api \<Rightarrow> (can_frame \<Rightarrow> 'd option \<Rightarrow> bytes \<Rightarrow> dbl option \<Rightarrow> 'l \<Rightarrow> 'l option)
    \<Rightarrow> 'd proto_registry \<Rightarrow> can_frame \<Rightarrow> 'l option \<times> timestamp_map \<Rightarrow> ('l option \<times> timestamp_map) option" where
  "log_frame P log reg frame st =
     (case st of
        (None, last_ts) \<Rightarrow> Some (None, last_ts)
      | (Some logger, last_ts) \<Rightarrow>
          map_option (\<lambda>logger'. (Some logger', last_ts(frame_key frame \<mapsto> fr_timestamp frame)))
            (log frame (frame_descriptor reg frame) (proto_serialize P reg frame) (frame_ratio last_ts frame) logger))"

section \<open>LogController\<close>

record 'w log_controller =
  lc_logger :: "'w mcap_logger option"
  lc_path :: string
  lc_start_time :: int
  lc_last_ts :: timestamp_map

definition mk_log_controller :: "'w log_controller" where
  "mk_log_controller = \<lparr>lc_logger = None, lc_path = [], lc_start_time = 0, lc_last_ts = Map.empty\<rparr>"

text \<open>\<open>make_path\<close> is \<open>AppConfig::make_log_path\<close> at this moment; an exception leaves the state it
  found and is returned beside it.\<close>

definition lc_start :: "'w mcap_api \<Rightarrow> string result \<Rightarrow> int \<Rightarrow> 'w log_controller \<Rightarrow> 'w log_controller \<times> exn option" where
  "lc_start M make_path now c =
     (case lc_logger c of
        Some _ \<Rightarrow> (c, None)
      | None \<Rightarrow>
          (case make_path of
             Inl e \<Rightarrow> (c, Some e)
           | Inr path \<Rightarrow>
               (let c1 = c\<lparr>lc_path := path\<rparr>
                in case mk_mcap_logger M path of
                     Inl e \<Rightarrow> (c1, Some e)
                   | Inr l \<Rightarrow> (c1\<lparr>lc_logger := Some l, lc_start_time := now\<rparr>, None))))"

definition lc_stop :: "'w log_controller \<Rightarrow> 'w log_controller" where
  "lc_stop c = c\<lparr>lc_logger := None, lc_path := [], lc_last_ts := Map.empty, lc_start_time := 0\<rparr>"

definition lc_is_logging :: "'w log_controller \<Rightarrow> bool" where
  "lc_is_logging c \<longleftrightarrow> lc_logger c \<noteq> None"

definition lc_current_path :: "'w log_controller \<Rightarrow> string" where
  "lc_current_path c = lc_path c"

definition lc_elapsed_seconds :: "int \<Rightarrow> 'w log_controller \<Rightarrow> dbl" where
  "lc_elapsed_seconds now c = (if lc_logger c = None then 0 else seconds (now - lc_start_time c))"

definition log_can_frame :: "('f, 'd, 'fd, 'msg) proto_api \<Rightarrow> 'w mcap_api \<Rightarrow> 'd proto_registry \<Rightarrow> can_frame
    \<Rightarrow> 'w log_controller \<Rightarrow> 'w log_controller option" where
  "log_can_frame P M reg frame c =
     (case lc_logger c of
        None \<Rightarrow> Some c
      | Some logger \<Rightarrow>
          (let serialized = proto_serialize P reg frame; desc = frame_descriptor reg frame;
               ratio = frame_ratio (lc_last_ts c) frame;
               c1 = c\<lparr>lc_last_ts := (lc_last_ts c)(frame_key frame \<mapsto> fr_timestamp frame)\<rparr>
           in map_option (\<lambda>logger'. c1\<lparr>lc_logger := Some logger'\<rparr>) (ml_log P M frame desc serialized ratio logger)))"

definition lc_log :: "('f, 'd, 'fd, 'msg) proto_api \<Rightarrow> 'w mcap_api \<Rightarrow> can_frame \<Rightarrow> 'd option \<Rightarrow> bytes \<Rightarrow> dbl option
    \<Rightarrow> 'w log_controller \<Rightarrow> 'w log_controller option" where
  "lc_log P M frame desc serialized ratio c =
     (case lc_logger c of
        None \<Rightarrow> Some c
      | Some l \<Rightarrow> map_option (\<lambda>l'. c\<lparr>lc_logger := Some l'\<rparr>) (ml_log P M frame desc serialized ratio l))"

definition lc_log_scalar :: "('f, 'd, 'fd, 'msg) proto_api \<Rightarrow> 'w mcap_api \<Rightarrow> int \<Rightarrow> string \<Rightarrow> dbl
    \<Rightarrow> 'w log_controller \<Rightarrow> 'w log_controller option" where
  "lc_log_scalar P M now topic v c =
     (case lc_logger c of
        None \<Rightarrow> Some c
      | Some l \<Rightarrow> map_option (\<lambda>l'. c\<lparr>lc_logger := Some l'\<rparr>) (ml_log_scalar P M now topic v l))"

section \<open>The contract of ILogControl\<close>

text \<open>
  What the user interface relies on, whichever implementation it holds: after \<open>stop\<close> nothing
  is logged and no path is shown, and \<open>start\<close> while logging keeps the log going. The button
  that toggles the log is proved against this contract.
\<close>

locale log_control =
  fixes start stop :: "'s \<Rightarrow> 's" and logging :: "'s \<Rightarrow> bool" and path :: "'s \<Rightarrow> string" and invar :: "'s \<Rightarrow> bool"
  assumes invar_start: "invar s \<Longrightarrow> invar (start s)" and invar_stop: "invar s \<Longrightarrow> invar (stop s)"
    and stop_idle: "invar s \<Longrightarrow> \<not> logging (stop s)" "invar s \<Longrightarrow> path (stop s) = []"
    and start_keeps: "invar s \<Longrightarrow> logging s \<Longrightarrow> logging (start s)" "invar s \<Longrightarrow> logging s \<Longrightarrow> path (start s) = path s"
begin

definition toggle :: "'s \<Rightarrow> 's" where
  "toggle s = (if logging s then stop s else start s)"

lemma invar_toggle: "invar s \<Longrightarrow> invar (toggle s)"
  by (simp add: toggle_def invar_start invar_stop)

lemma toggle_stops: "invar s \<Longrightarrow> logging s \<Longrightarrow> \<not> logging (toggle s) \<and> path (toggle s) = []"
  by (simp add: toggle_def stop_idle)

lemma starts_keep_path:
  "invar s \<Longrightarrow> logging s \<Longrightarrow> invar ((start ^^ n) s) \<and> logging ((start ^^ n) s) \<and> path ((start ^^ n) s) = path s"
  by (induction n) (auto simp: start_keeps invar_start)

lemma starts_then_stop:
  "invar s \<Longrightarrow> logging s \<Longrightarrow> \<not> logging (toggle ((start ^^ n) s)) \<and> path (toggle ((start ^^ n) s)) = []"
  using starts_keep_path toggle_stops by blast

end

interpretation lc: log_control "\<lambda>c. fst (lc_start M make_path now c)" lc_stop lc_is_logging lc_current_path "\<lambda>_. True"
  by unfold_locales (auto simp: lc_stop_def lc_is_logging_def lc_current_path_def lc_start_def)

section \<open>What the code relies on of the MCAP writer\<close>

definition mcap_laws :: "'w mcap_api \<Rightarrow> bool" where
  "mcap_laws M \<longleftrightarrow>
     (\<forall>path w. w_open M path = Inr w \<longrightarrow> w_schemas M w = Map.empty \<and> w_channels M w = Map.empty \<and> w_messages M w = [])
     \<and> (\<forall>w s w' i. w_add_schema M w s = (w', i) \<longrightarrow> w_schemas M w i = None \<and> w_schemas M w' = (w_schemas M w)(i \<mapsto> s)
         \<and> w_channels M w' = w_channels M w \<and> w_messages M w' = w_messages M w)
     \<and> (\<forall>w c w' i. w_add_channel M w c = (w', i) \<longrightarrow> w_channels M w i = None \<and> w_channels M w' = (w_channels M w)(i \<mapsto> c)
         \<and> w_schemas M w' = w_schemas M w \<and> w_messages M w' = w_messages M w)
     \<and> (\<forall>w m. mm_channel_id m \<in> dom (w_channels M w) \<longrightarrow> w_messages M (fst (w_write M w m)) = w_messages M w @ [m]
         \<and> w_schemas M (fst (w_write M w m)) = w_schemas M w \<and> w_channels M (fst (w_write M w m)) = w_channels M w)"

lemma mcap_lawsD:
  assumes "mcap_laws M"
  shows "w_open M path = Inr w \<Longrightarrow> w_schemas M w = Map.empty \<and> w_channels M w = Map.empty \<and> w_messages M w = []"
    and "w_add_schema M w s = (w', i) \<Longrightarrow> w_schemas M w i = None \<and> w_schemas M w' = (w_schemas M w)(i \<mapsto> s)
         \<and> w_channels M w' = w_channels M w \<and> w_messages M w' = w_messages M w"
    and "w_add_channel M w c = (w', i) \<Longrightarrow> w_channels M w i = None \<and> w_channels M w' = (w_channels M w)(i \<mapsto> c)
         \<and> w_schemas M w' = w_schemas M w \<and> w_messages M w' = w_messages M w"
    and "mm_channel_id m \<in> dom (w_channels M w) \<Longrightarrow> w_messages M (fst (w_write M w m)) = w_messages M w @ [m]
         \<and> w_schemas M (fst (w_write M w m)) = w_schemas M w \<and> w_channels M (fst (w_write M w m)) = w_channels M w"
  using assms unfolding mcap_laws_def by blast+

text \<open>The invariant of a logger: its two caches name registered channels and schemas.\<close>

definition logger_ok :: "'w mcap_api \<Rightarrow> 'w mcap_logger \<Rightarrow> bool" where
  "logger_ok M l \<longleftrightarrow>
     (\<forall>t c. ml_channels l t = Some c \<longrightarrow> (\<exists>ch. w_channels M (ml_writer l) c = Some ch \<and> ch_topic ch = t))
     \<and> (\<forall>k i. ml_schemas l k = Some i \<longrightarrow> (\<exists>sc. w_schemas M (ml_writer l) i = Some sc \<and> sc_name sc = k))
     \<and> (\<forall>c ch. w_channels M (ml_writer l) c = Some ch \<longrightarrow> ch_schema_id ch \<in> dom (w_schemas M (ml_writer l)))
     \<and> (\<forall>m\<in>set (w_messages M (ml_writer l)). mm_channel_id m \<in> dom (w_channels M (ml_writer l)))"

text \<open>The file as topics, times and payloads.\<close>

definition topic_of :: "'w mcap_api \<Rightarrow> 'w \<Rightarrow> nat \<Rightarrow> string" where
  "topic_of M w c = (case w_channels M w c of Some ch \<Rightarrow> ch_topic ch | None \<Rightarrow> [])"

definition file_entries :: "'w mcap_api \<Rightarrow> 'w \<Rightarrow> (string \<times> u64 \<times> bytes) list" where
  "file_entries M w = map (\<lambda>m. (topic_of M w (mm_channel_id m), mm_log_time m, mm_data m)) (w_messages M w)"

lemma schema_ok:
  assumes "mcap_laws M" "logger_ok M l" "get_or_register_schema P M d l = (sid, l')"
  shows "logger_ok M l' \<and> (\<exists>sc. w_schemas M (ml_writer l') sid = Some sc \<and> sc_name sc = pb_full_name P d)
    \<and> w_channels M (ml_writer l') = w_channels M (ml_writer l) \<and> w_messages M (ml_writer l') = w_messages M (ml_writer l)
    \<and> ml_channels l' = ml_channels l"
proof (cases "ml_schemas l (pb_full_name P d)")
  case None
  let ?s = "\<lparr>sc_name = pb_full_name P d, sc_encoding = ''protobuf'', sc_data = pb_file_set P d\<rparr>"
  obtain w i where w: "w_add_schema M (ml_writer l) ?s = (w, i)" by fastforce
  note law = mcap_lawsD(2) [OF assms(1) w]
  from None w assms(3) have l': "sid = i" "l' = l\<lparr>ml_writer := w, ml_schemas := (ml_schemas l)(pb_full_name P d \<mapsto> i)\<rparr>"
    by (auto simp: get_or_register_schema_def Let_def)
  have keep: "ch_schema_id ch \<in> dom (w_schemas M (ml_writer l))" if "w_channels M (ml_writer l) c = Some ch" for c ch
    using assms(2) that by (auto simp: logger_ok_def)
  have "\<exists>sc. w_schemas M w j = Some sc \<and> sc_name sc = k" if "((ml_schemas l)(pb_full_name P d \<mapsto> i)) k = Some j" for k j
    using that assms(2) law by (fastforce simp: logger_ok_def split: if_splits)
  with assms(2) law keep show ?thesis unfolding l' by (fastforce simp: logger_ok_def)
next
  case (Some i)
  with assms show ?thesis by (auto simp: get_or_register_schema_def logger_ok_def)
qed

lemma channel_ok:
  assumes "mcap_laws M" "logger_ok M l" "sid \<in> dom (w_schemas M (ml_writer l))"
    "get_or_register_channel M t sid l = (cid, l')"
  shows "logger_ok M l' \<and> (\<exists>ch. w_channels M (ml_writer l') cid = Some ch \<and> ch_topic ch = t)
    \<and> (\<forall>c ch. w_channels M (ml_writer l) c = Some ch \<longrightarrow> w_channels M (ml_writer l') c = Some ch)
    \<and> w_messages M (ml_writer l') = w_messages M (ml_writer l) \<and> w_schemas M (ml_writer l') = w_schemas M (ml_writer l)"
proof (cases "ml_channels l t")
  case None
  let ?c = "\<lparr>ch_topic = t, ch_message_encoding = ''protobuf'', ch_schema_id = sid\<rparr>"
  obtain w i where w: "w_add_channel M (ml_writer l) ?c = (w, i)" by fastforce
  note law = mcap_lawsD(3) [OF assms(1) w]
  from None w assms(4) have l': "cid = i" "l' = l\<lparr>ml_writer := w, ml_channels := (ml_channels l)(t \<mapsto> i)\<rparr>"
    by (auto simp: get_or_register_channel_def)
  have keep: "w_channels M w c = Some ch" if "w_channels M (ml_writer l) c = Some ch" for c ch
    using that law by auto
  have "logger_ok M l'"
    using assms(2,3) law keep unfolding l' logger_ok_def by (simp add: domIff) fastforce
  with law keep l' show ?thesis by simp
next
  case (Some i)
  with assms show ?thesis by (auto simp: get_or_register_channel_def logger_ok_def)
qed

lemma write_topic_ok:
  assumes "mcap_laws M" "logger_ok M l"
  shows "logger_ok M (write_topic P M d t ts data l)
    \<and> file_entries M (ml_writer (write_topic P M d t ts data l)) = file_entries M (ml_writer l) @ [(t, ts, data)]"
proof -
  obtain sid l1 where s: "get_or_register_schema P M d l = (sid, l1)" by fastforce
  obtain cid l2 where c: "get_or_register_channel M t sid l1 = (cid, l2)" by fastforce
  note so = schema_ok [OF assms s]
  then have "sid \<in> dom (w_schemas M (ml_writer l1))" "logger_ok M l1" by auto
  note co = channel_ok [OF assms(1) this(2,1) c]
  let ?m = "\<lparr>mm_channel_id = cid, mm_sequence = 0, mm_log_time = ts, mm_publish_time = ts, mm_data = data\<rparr>"
  have "mm_channel_id ?m \<in> dom (w_channels M (ml_writer l2))" using co by auto
  note law = mcap_lawsD(4) [OF assms(1) this]
  have w: "write_topic P M d t ts data l = l2\<lparr>ml_writer := fst (w_write M (ml_writer l2) ?m)\<rparr>"
    by (simp add: write_topic_def s c)
  have "topic_of M (ml_writer l2) (mm_channel_id m) = topic_of M (ml_writer l) (mm_channel_id m)"
    if "m \<in> set (w_messages M (ml_writer l))" for m
  proof -
    from assms(2) that obtain ch where "w_channels M (ml_writer l) (mm_channel_id m) = Some ch"
      by (auto simp: logger_ok_def)
    with so co show ?thesis by (simp add: topic_of_def)
  qed
  then have "file_entries M (ml_writer (write_topic P M d t ts data l)) = file_entries M (ml_writer l) @ [(t, ts, data)]"
    using law co so by (auto simp: file_entries_def w topic_of_def)
  moreover have "logger_ok M (write_topic P M d t ts data l)"
    using law co by (auto simp: logger_ok_def w domIff)
  ultimately show ?thesis by blast
qed

lemma fresh_logger_ok: "mcap_laws M \<Longrightarrow> mk_mcap_logger M path = Inr l \<Longrightarrow> logger_ok M l \<and> file_entries M (ml_writer l) = []"
  using mcap_lawsD(1) [of M path]
  by (auto simp: mk_mcap_logger_def logger_ok_def file_entries_def split: sum.splits)

lemma log_scalar_at_ok:
  assumes "mcap_laws M" "logger_ok M l" "log_scalar_at P M t v ts l = Some l'" "scalar_descriptor P \<noteq> None"
  shows "logger_ok M l' \<and> (\<exists>data. serialize_scalar P v = Some data
    \<and> file_entries M (ml_writer l') = file_entries M (ml_writer l) @ [(t, ts, data)])"
  using assms(3,4) by (auto simp: log_scalar_at_def write_topic_ok [OF assms(1,2)] split: option.splits bind_splits)

lemma log_raw_ok:
  assumes "mcap_laws M" "logger_ok M l" "log_raw P M base f l = Some l'" "raw_descriptor P \<noteq> None"
  shows "logger_ok M l' \<and> (\<exists>raw. serialize_raw P f = Some raw
    \<and> file_entries M (ml_writer l') = file_entries M (ml_writer l) @ [(base @ ''/raw'', frame_ns f, raw)])"
  using assms(3,4) by (auto simp: log_raw_def write_topic_ok [OF assms(1,2)] split: option.splits bind_splits)

text \<open>What one call of \<open>log\<close> appends.\<close>

definition log_entries :: "('f, 'd, 'fd, 'msg) proto_api \<Rightarrow> can_frame \<Rightarrow> 'd option \<Rightarrow> bytes \<Rightarrow> bytes \<Rightarrow> bytes option \<Rightarrow> (string \<times> u64 \<times> bytes) list" where
  "log_entries P f d data raw ratio =
     [(base_topic P f d @ ''/data'', frame_ns f, data), (base_topic P f d @ ''/raw'', frame_ns f, raw)]
     @ (case ratio of None \<Rightarrow> [] | Some r \<Rightarrow> [(base_topic P f d @ ''/update_ratio'', frame_ns f, r)])"

lemma ml_log_ok:
  assumes "mcap_laws M" "logger_ok M l" "ml_log P M f d ser ratio l = Some l'"
    and "fallback_descriptor P \<noteq> None" "raw_descriptor P \<noteq> None" "scalar_descriptor P \<noteq> None"
  shows "logger_ok M l' \<and> (\<exists>data raw. (case d of Some _ \<Rightarrow> Some ser | None \<Rightarrow> serialize_fallback P f) = Some data
    \<and> serialize_raw P f = Some raw
    \<and> file_entries M (ml_writer l') = file_entries M (ml_writer l)
        @ log_entries P f d data raw (case ratio of None \<Rightarrow> None | Some r \<Rightarrow> serialize_scalar P r))"
proof -
  let ?b = "base_topic P f d"
  obtain desc data l1 l2 where a: "(case d of Some _ \<Rightarrow> Some ser | None \<Rightarrow> serialize_fallback P f) = Some data"
    "l1 = write_topic P M desc (?b @ ''/data'') (frame_ns f) data l" "log_raw P M ?b f l1 = Some l2"
    "(case ratio of None \<Rightarrow> Some l2 | Some r \<Rightarrow> log_scalar_at P M (?b @ ''/update_ratio'') r (frame_ns f) l2) = Some l'"
    using assms(3,4) by (cases d) (auto simp: ml_log_def Let_def split: bind_splits)
  have 1: "logger_ok M l1" "file_entries M (ml_writer l1) = file_entries M (ml_writer l) @ [(?b @ ''/data'', frame_ns f, data)]"
    unfolding a(2) by (simp_all add: write_topic_ok [OF assms(1,2)])
  obtain raw where 2: "logger_ok M l2" "serialize_raw P f = Some raw"
    "file_entries M (ml_writer l2) = file_entries M (ml_writer l1) @ [(?b @ ''/raw'', frame_ns f, raw)]"
    using log_raw_ok [OF assms(1) 1(1) a(3) assms(5)] by blast
  show ?thesis
  proof (cases ratio)
    case None
    with a(1,4) 1 2 show ?thesis by (simp add: log_entries_def)
  next
    case (Some r)
    with a(4) have "log_scalar_at P M (?b @ ''/update_ratio'') r (frame_ns f) l2 = Some l'" by simp
    from log_scalar_at_ok [OF assms(1) 2(1) this assms(6)] a(1) 1 2 Some show ?thesis
      by (auto simp: log_entries_def)
  qed
qed

section \<open>The ratio of a sequence of frames\<close>

fun log_frames :: "('f, 'd, 'fd, 'msg) proto_api \<Rightarrow> (can_frame \<Rightarrow> 'd option \<Rightarrow> bytes \<Rightarrow> dbl option \<Rightarrow> 'l \<Rightarrow> 'l option)
    \<Rightarrow> 'd proto_registry \<Rightarrow> can_frame list \<Rightarrow> 'l option \<times> timestamp_map \<Rightarrow> ('l option \<times> timestamp_map) option" where
  "log_frames P log reg [] st = Some st"
| "log_frames P log reg (f # fs) st = do { st' \<leftarrow> log_frame P log reg f st; log_frames P log reg fs st' }"

text \<open>A logger that records its arguments.\<close>

definition record_log :: "can_frame \<Rightarrow> 'd option \<Rightarrow> bytes \<Rightarrow> dbl option \<Rightarrow> (can_frame \<times> dbl option) list \<Rightarrow> (can_frame \<times> dbl option) list option" where
  "record_log f d ser r l = Some (l @ [(f, r)])"

definition expected_ratio :: "can_frame list \<Rightarrow> can_frame \<Rightarrow> dbl option" where
  "expected_ratio before f =
     (case rev (filter (\<lambda>g. frame_key g = frame_key f) before) of
        [] \<Rightarrow> None | g # _ \<Rightarrow> Some (millis (fr_timestamp f - fr_timestamp g)))"

definition last_time :: "can_frame list \<Rightarrow> timestamp_map" where
  "last_time before k =
     (case rev (filter (\<lambda>g. frame_key g = k) before) of [] \<Rightarrow> None | g # _ \<Rightarrow> Some (fr_timestamp g))"

lemma last_time_snoc: "last_time (before @ [f]) = (last_time before)(frame_key f \<mapsto> fr_timestamp f)"
  by (auto simp: last_time_def fun_eq_iff)

lemma frame_ratio_last_time: "frame_ratio (last_time before) f = expected_ratio before f"
  by (simp add: frame_ratio_def last_time_def expected_ratio_def split: list.split)

lemma log_frame_record:
  "log_frame P record_log reg f (Some tr, last_time before) =
     Some (Some (tr @ [(f, expected_ratio before f)]), last_time (before @ [f]))"
  by (simp add: log_frame_def record_log_def frame_ratio_last_time last_time_snoc)

lemma log_frames_ratios:
  "log_frames P record_log reg fs (Some tr, last_time before) =
     Some (Some (tr @ map (\<lambda>i. (fs ! i, expected_ratio (before @ take i fs) (fs ! i))) [0..<length fs]),
           last_time (before @ fs))"
proof (induction fs arbitrary: tr before)
  case (Cons f fs)
  have "map (\<lambda>i. ((f # fs) ! i, expected_ratio (before @ take i (f # fs)) ((f # fs) ! i))) [0..<length (f # fs)]
    = (f, expected_ratio before f) # map (\<lambda>i. (fs ! i, expected_ratio ((before @ [f]) @ take i fs) (fs ! i))) [0..<length fs]"
    by (simp add: upt_rec [of 0] map_Suc_upt [symmetric] comp_def del: upt_Suc)
  then show ?case
    using Cons.IH [of "tr @ [(f, expected_ratio before f)]" "before @ [f]"]
    by (simp add: log_frame_record del: upt_Suc)
qed simp

section \<open>Properties\<close>


text \<open>A writer over lists, and a protobuf that keeps what it is given.\<close>

type_synonym ex_writer = "schema list \<times> channel list \<times> mcap_message list"

definition list_nth :: "'a list \<Rightarrow> nat \<Rightarrow> 'a option" where
  "list_nth xs i = nth_opt xs (int i)"

definition ex_mcap :: "ex_writer mcap_api" where
  "ex_mcap =
     \<lparr>w_open = (\<lambda>p. if p = [] then Inl (Exn ''no file'') else Inr ([], [], [])),
      w_add_schema = (\<lambda>(ss, cs, ms) s. ((ss @ [s], cs, ms), length ss)),
      w_add_channel = (\<lambda>(ss, cs, ms) c. ((ss, cs @ [c], ms), length cs)),
      w_write = (\<lambda>(ss, cs, ms) m. ((ss, cs, ms @ [m]), True)),
      w_schemas = (\<lambda>(ss, cs, ms). list_nth ss), w_channels = (\<lambda>(ss, cs, ms). list_nth cs),
      w_messages = (\<lambda>(ss, cs, ms). ms)\<rparr>"

lemma list_nth_snoc: "list_nth (xs @ [x]) = (list_nth xs)(length xs \<mapsto> x)" "list_nth xs (length xs) = None"
  "list_nth [] = Map.empty"
  by (auto simp: list_nth_def nth_opt_def fun_eq_iff nth_append)

lemma ex_mcap_laws: "mcap_laws ex_mcap"
  by (auto simp: mcap_laws_def ex_mcap_def list_nth_snoc split: if_splits)

definition ex_logger :: "ex_writer mcap_logger" where
  "ex_logger = \<lparr>ml_writer = ([], [], []), ml_channels = Map.empty, ml_schemas = Map.empty\<rparr>"

lemma ex_logger_ok: "logger_ok ex_mcap ex_logger"
  by (simp add: logger_ok_def ex_logger_def ex_mcap_def list_nth_snoc)

lemma ex_descriptors:
  "fallback_descriptor ex_api = Some (hd (fp_messages fallback_file))"
  "raw_descriptor ex_api = Some (hd (fp_messages raw_file))"
  "scalar_descriptor ex_api = Some (hd (fp_messages scalar_file))"
  by (simp_all add: fallback_descriptor_def raw_descriptor_def scalar_descriptor_def ex_api_def
      fallback_file_def raw_file_def scalar_file_def one_message_file_def)

lemma ex_find_field: "pb_find_field ex_api d n = (if n \<in> set (map fdp_name (mp_fields d)) then Some n else None)"
  by (simp add: ex_api_def)

lemma ex_ml_log: "\<exists>l'. ml_log ex_api ex_mcap f None [] (Some r) l = Some l'"
  by (simp add: ml_log_def Let_def ex_descriptors log_raw_def log_scalar_at_def serialize_fallback_def serialize_raw_def
      serialize_scalar_def ex_find_field fallback_file_def raw_file_def scalar_file_def one_message_file_def)


text \<open>Schemas are cached under the full name of the message type, not under its file: after a
  type of one interface is logged, a type of the same name from another interface is written
  on a channel whose schema describes the first.\<close>

theorem schema_shared_by_name:
  assumes "mcap_laws M" "mk_mcap_logger M path = Inr l" "pb_full_name P d1 = pb_full_name P d2" "t1 \<noteq> t2"
  shows "let l2 = write_topic P M d2 t2 ts2 data2 (write_topic P M d1 t1 ts1 data1 l) in
    \<exists>c ch sc. ml_channels l2 t2 = Some c \<and> w_channels M (ml_writer l2) c = Some ch
    \<and> w_schemas M (ml_writer l2) (ch_schema_id ch) = Some sc \<and> sc_data sc = pb_file_set P d1"
proof -
  from assms(2) have l: "ml_schemas l = Map.empty" "ml_channels l = Map.empty"
    by (auto simp: mk_mcap_logger_def split: sum.splits)
  let ?s = "\<lparr>sc_name = pb_full_name P d1, sc_encoding = ''protobuf'', sc_data = pb_file_set P d1\<rparr>"
  obtain w1 sid where w1: "w_add_schema M (ml_writer l) ?s = (w1, sid)" by fastforce
  let ?c1 = "\<lparr>ch_topic = t1, ch_message_encoding = ''protobuf'', ch_schema_id = sid\<rparr>"
  obtain w2 c1 where w2: "w_add_channel M w1 ?c1 = (w2, c1)" by fastforce
  let ?m1 = "\<lparr>mm_channel_id = c1, mm_sequence = 0, mm_log_time = ts1, mm_publish_time = ts1, mm_data = data1\<rparr>"
  let ?w3 = "fst (w_write M w2 ?m1)"
  let ?c2 = "\<lparr>ch_topic = t2, ch_message_encoding = ''protobuf'', ch_schema_id = sid\<rparr>"
  obtain w4 c2 where w4: "w_add_channel M ?w3 ?c2 = (w4, c2)" by fastforce
  let ?m2 = "\<lparr>mm_channel_id = c2, mm_sequence = 0, mm_log_time = ts2, mm_publish_time = ts2, mm_data = data2\<rparr>"
  note L = mcap_lawsD [OF assms(1)]
  have "write_topic P M d2 t2 ts2 data2 (write_topic P M d1 t1 ts1 data1 l)
    = \<lparr>ml_writer = fst (w_write M w4 ?m2), ml_channels = [t1 \<mapsto> c1, t2 \<mapsto> c2], ml_schemas = [pb_full_name P d1 \<mapsto> sid]\<rparr>"
    using assms(3,4) w1 w2 w4 l
    by (simp add: write_topic_def get_or_register_schema_def get_or_register_channel_def Let_def)
  moreover have "w_schemas M w2 sid = Some ?s" using L(2) [OF w1] L(3) [OF w2] by simp
  moreover have "w_schemas M ?w3 = w_schemas M w2" using L(3) [OF w2] L(4) [of ?m1 w2] by auto
  moreover have "w_schemas M w4 = w_schemas M ?w3" "w_channels M w4 c2 = Some ?c2" using L(3) [OF w4] by auto
  moreover have "w_schemas M (fst (w_write M w4 ?m2)) = w_schemas M w4" "w_channels M (fst (w_write M w4 ?m2)) = w_channels M w4"
    using L(4) [of ?m2 w4] \<open>w_channels M w4 c2 = Some ?c2\<close> by auto
  ultimately show ?thesis by (auto simp: Let_def)
qed

theorem schema_shared_by_name_witness:
  "\<exists>l. mk_mcap_logger ex_mcap ''log.mcap'' = Inr l
    \<and> (let d = \<lparr>mp_name = ''M'', mp_fields = []\<rparr>;
           l2 = write_topic ex_api ex_mcap d ''vcan1/M/data'' 0 [] (write_topic ex_api ex_mcap d ''vcan0/M/data'' 0 [] l)
       in \<exists>c ch sc. ml_channels l2 ''vcan1/M/data'' = Some c \<and> w_channels ex_mcap (ml_writer l2) c = Some ch
            \<and> w_schemas ex_mcap (ml_writer l2) (ch_schema_id ch) = Some sc \<and> sc_data sc = pb_file_set ex_api d)"
proof -
  obtain l where l: "mk_mcap_logger ex_mcap ''log.mcap'' = Inr l" by (simp add: mk_mcap_logger_def ex_mcap_def)
  from schema_shared_by_name [OF ex_mcap_laws l refl, of "''vcan0/M/data''" "''vcan1/M/data''"] l show ?thesis
    by (simp add: Let_def)
qed

text \<open>Over any sequence of frames, the update ratio passed to the logger is the time in
  milliseconds since the previous frame of the same interface and id, and absent for the first.\<close>

theorem update_ratio_spec:
  "log_frames P record_log reg fs (Some [], Map.empty) =
     Some (Some (map (\<lambda>i. (fs ! i, expected_ratio (take i fs) (fs ! i))) [0..<length fs]), last_time fs)"
proof -
  have "last_time [] = Map.empty" by (simp add: last_time_def fun_eq_iff)
  with log_frames_ratios [of P reg fs "[]" "[]"] show ?thesis by simp
qed

text \<open>The runtime log control and the command-line log write the same: \<open>log_can_frame\<close> does to
  the controller's logger and time stamps what \<open>log_frame\<close> does to a logger of its own.\<close>

theorem log_can_frame_agrees:
  "log_frame P (ml_log P M) reg frame (lc_logger c, lc_last_ts c) =
     map_option (\<lambda>c'. (lc_logger c', lc_last_ts c')) (log_can_frame P M reg frame c)"
  by (auto simp: log_frame_def log_can_frame_def option.map_comp comp_def Let_def split: option.split)

text \<open>Both over a sequence of frames.\<close>

fun log_can_frames :: "('f, 'd, 'fd, 'msg) proto_api \<Rightarrow> 'w mcap_api \<Rightarrow> 'd proto_registry \<Rightarrow> can_frame list
    \<Rightarrow> 'w log_controller \<Rightarrow> 'w log_controller option" where
  "log_can_frames P M reg [] c = Some c"
| "log_can_frames P M reg (f # fs) c = do { c' \<leftarrow> log_can_frame P M reg f c; log_can_frames P M reg fs c' }"

lemma log_can_frames_agree:
  "log_frames P (ml_log P M) reg fs (lc_logger c, lc_last_ts c) =
     map_option (\<lambda>c'. (lc_logger c', lc_last_ts c')) (log_can_frames P M reg fs c)"
proof (induction fs arbitrary: c)
  case (Cons f fs)
  then show ?case by (cases "log_can_frame P M reg f c") (simp_all add: log_can_frame_agrees)
qed simp

text \<open>C26: A log started at run time, whatever was logged before and however often, is the log the command
  line writes: for the same frames the controller's logger and time stamps become what \<open>log_frame\<close>
  makes of a logger newly opened on that file.\<close>

theorem run_time_log_agrees:
  assumes "mk_mcap_logger M path = Inr l"
  shows "log_frames P (ml_log P M) reg fs (Some l, Map.empty) =
    map_option (\<lambda>c'. (lc_logger c', lc_last_ts c')) (log_can_frames P M reg fs (fst (lc_start M (Inr path) now (lc_stop c))))"
  using log_can_frames_agree [of P M reg fs "fst (lc_start M (Inr path) now (lc_stop c))"] assms
  by (simp add: lc_start_def lc_stop_def)

theorem run_time_log_agrees_witness:
  "\<exists>l. mk_mcap_logger ex_mcap ''a.mcap'' = Inr l
    \<and> log_frames ex_api (ml_log ex_api ex_mcap) Map.empty [ex_proto_frame, ex_proto_frame] (Some l, Map.empty) =
      map_option (\<lambda>c'. (lc_logger c', lc_last_ts c'))
        (log_can_frames ex_api ex_mcap Map.empty [ex_proto_frame, ex_proto_frame] (fst (lc_start ex_mcap (Inr ''a.mcap'') 7 (lc_stop mk_log_controller))))"
proof -
  obtain l where l: "mk_mcap_logger ex_mcap ''a.mcap'' = Inr l" by (simp add: mk_mcap_logger_def ex_mcap_def)
  from run_time_log_agrees [OF l, of ex_api Map.empty "[ex_proto_frame, ex_proto_frame]" 7 mk_log_controller] l show ?thesis by blast
qed

text \<open>A start that fails to open its file leaves the controller not logging, yet with the path
  of the file it could not open.\<close>

theorem failed_start_keeps_path:
  assumes "lc_logger c = None" "w_open M path = Inl e"
  shows "\<not> lc_is_logging (fst (lc_start M (Inr path) now c))
    \<and> lc_current_path (fst (lc_start M (Inr path) now c)) = path \<and> snd (lc_start M (Inr path) now c) \<noteq> None"
  using assms by (simp add: lc_start_def mk_mcap_logger_def lc_is_logging_def lc_current_path_def)

definition ex_failing :: "ex_writer mcap_api" where
  "ex_failing = ex_mcap\<lparr>w_open := (\<lambda>p. Inl (Exn ''read-only''))\<rparr>"

theorem failed_start_keeps_path_witness:
  "lc_current_path (fst (lc_start ex_failing (Inr ''log.mcap'') 0 mk_log_controller)) = ''log.mcap''
    \<and> \<not> lc_is_logging (fst (lc_start ex_failing (Inr ''log.mcap'') 0 mk_log_controller))"
  using failed_start_keeps_path [of mk_log_controller ex_failing "''log.mcap''"]
  by (simp add: ex_failing_def mk_log_controller_def)



end
