(* ===== verification/Reader.thy ===== *)
theory Reader
  imports Logging Playback
begin

text \<open>
  \<open>src/logger/McapReader.cpp\<close>: scanning a log and replaying it. The MCAP reader and the
  reconstruction of protobuf types from a schema are parameters. The playback controller is
  changed by other threads while the loop runs, so the loop takes, for every message, the
  controller states and clocks it observes; a run is a function from message numbers to
  observations.
\<close>

section \<open>What the code asks the MCAP reader\<close>

datatype 'r mcap_open = Mcap_unopenable | Mcap_bad (status: string) | Mcap_opened 'r

text \<open>\<open>r_messages\<close> lists the messages in chronological order, each with its channel.\<close>

record 'r reader_api =
  r_open :: "string \<Rightarrow> 'r mcap_open"
  r_schemas :: "'r \<Rightarrow> (nat \<times> schema) list"
  r_channels :: "'r \<Rightarrow> (nat \<times> channel) list"
  r_messages :: "'r \<Rightarrow> (channel \<times> mcap_message) list"

record ('p, 'fs, 'd) pool_api =
  pool_parse_set :: "bytes \<Rightarrow> 'fs list option"
  pool_empty :: 'p
  pool_build :: "'p \<Rightarrow> 'fs \<Rightarrow> 'p"
  pool_find :: "'p \<Rightarrow> string \<Rightarrow> 'd option"

section \<open>Topics and ids\<close>

datatype channel_kind = Kind_data | Kind_raw | Kind_other

record channel_info =
  ci_kind :: channel_kind
  ci_iface :: string
  ci_msg_name :: string

definition classify_suffix :: "string \<Rightarrow> string \<times> channel_kind \<Rightarrow> channel_info option" where
  "classify_suffix topic sk =
     (case sk of (suffix, kind) \<Rightarrow>
        if length topic \<le> length suffix then None
        else if \<not> ends_with topic suffix then None
        else (case split_first (CHR ''/'') (take (length topic - length suffix) topic) of
                None \<Rightarrow> None
              | Some (iface, name) \<Rightarrow> Some \<lparr>ci_kind = kind, ci_iface = iface, ci_msg_name = name\<rparr>))"

definition classify_topic :: "string \<Rightarrow> channel_info" where
  "classify_topic topic =
     (case classify_suffix topic (''/data'', Kind_data) of
        Some i \<Rightarrow> i
      | None \<Rightarrow> (case classify_suffix topic (''/raw'', Kind_raw) of
                   Some i \<Rightarrow> i
                 | None \<Rightarrow> \<lparr>ci_kind = Kind_other, ci_iface = [], ci_msg_name = []\<rparr>))"

text \<open>\<open>hash\<close> is \<open>std::hash\<close>, whose values the standard leaves open.\<close>

definition derive_can_id :: "(string \<Rightarrow> u64) \<Rightarrow> string \<Rightarrow> u32" where
  "derive_can_id hash msg_name =
     (let h = ucast (hash msg_name AND 0x7FF)
      in if length msg_name > 2 \<and> msg_name ! 0 = CHR ''0'' \<and> (msg_name ! 1 = CHR ''x'' \<or> msg_name ! 1 = CHR ''X'')
         then (case stoul16 (drop 2 msg_name) of Some v \<Rightarrow> ucast v | None \<Rightarrow> h)
         else h)"

section \<open>Scanning\<close>

definition scan_interfaces :: "'r reader_api \<Rightarrow> string \<Rightarrow> string list" where
  "scan_interfaces R path =
     (case r_open R path of
        Mcap_opened r \<Rightarrow>
          map fst (fold (\<lambda>(_, channel) m.
            let info = classify_topic (ch_topic channel)
            in if ci_kind info = Kind_raw \<and> ci_iface info \<noteq> [] then omap_insert (ci_iface info) () m else m)
            (r_channels R r) [])
      | _ \<Rightarrow> [])"

definition scan_messages :: "'r reader_api \<Rightarrow> string \<Rightarrow> (string, string list) omap" where
  "scan_messages R path =
     (case r_open R path of
        Mcap_opened r \<Rightarrow>
          map (\<lambda>(iface, msgs). (iface, map fst msgs)) (fold (\<lambda>(_, channel) m.
            let info = classify_topic (ch_topic channel)
            in if ci_kind info = Kind_data \<and> ci_iface info \<noteq> [] \<and> ci_msg_name info \<noteq> []
               then omap_insert (ci_iface info)
                      (omap_insert (ci_msg_name info) () (case map_of m (ci_iface info) of Some s \<Rightarrow> s | None \<Rightarrow> [])) m
               else m)
            (r_channels R r) ([] :: (string, (string, unit) omap) omap))
      | _ \<Rightarrow> [])"

section \<open>Decoding one message\<close>

datatype play_event =
    Wait_running
  | Sleep_until int
  | Deliver_frame can_frame
  | Deliver_send string u32 bytes

definition schema_desc :: "('p, 'fs, 'd) pool_api \<Rightarrow> schema \<Rightarrow> 'd option" where
  "schema_desc Q schema =
     (if sc_encoding schema \<noteq> ''protobuf'' then None
      else case pool_parse_set Q (sc_data schema) of
             None \<Rightarrow> None
           | Some fs \<Rightarrow> pool_find Q (fold (\<lambda>f p. pool_build Q p f) fs (pool_empty Q)) (sc_name schema))"

definition schema_table :: "('p, 'fs, 'd) pool_api \<Rightarrow> (nat \<times> schema) list \<Rightarrow> (nat \<rightharpoonup> 'd)" where
  "schema_table Q schemas =
     fold (\<lambda>(i, schema) m. case schema_desc Q schema of Some d \<Rightarrow> m(i \<mapsto> d) | None \<Rightarrow> m) schemas Map.empty"

definition channel_table :: "(nat \<times> channel) list \<Rightarrow> (nat \<rightharpoonup> channel_info)" where
  "channel_table channels =
     fold (\<lambda>(i, channel) m.
       let info = classify_topic (ch_topic channel) in if ci_kind info \<noteq> Kind_other then m(i \<mapsto> info) else m)
       channels Map.empty"

definition replay_frame :: "('f, 'd, 'fd, 'msg) proto_api \<Rightarrow> (string \<Rightarrow> u64) \<Rightarrow> int \<Rightarrow> channel_info \<Rightarrow> 'd \<Rightarrow> 'msg \<Rightarrow> can_frame" where
  "replay_frame P hash now info desc msg =
     fold add_decoded
       (map (\<lambda>fd. \<lparr>ds_name = pb_field_name P fd, ds_value = pb_get_double P msg fd, ds_unit = [],
                    ds_min_val = 0, ds_max_val = 0\<rparr>)
         (filter (\<lambda>fd. pb_field_type P fd = TYPE_DOUBLE) (pb_fields P desc)))
       (set_msg_name (ci_msg_name info)
         (mk_can_frame now \<lparr>hdr_id = derive_can_id hash (ci_msg_name info), hdr_interface = ci_iface info, hdr_dlc = 0\<rparr> []))"

definition replay_send :: "('f, 'd, 'fd, 'msg) proto_api \<Rightarrow> channel_info \<Rightarrow> 'd \<Rightarrow> 'msg \<Rightarrow> play_event list" where
  "replay_send P info desc msg =
     (case (pb_find_field P desc ''can_id'', pb_find_field P desc ''payload'') of
        (Some idf, Some plf) \<Rightarrow> [Deliver_send (ci_iface info) (pb_get_uint32 P msg idf) (map ucast (pb_uint32s P msg plf))]
      | _ \<Rightarrow> [])"

definition replay_message :: "('f, 'd, 'fd, 'msg) proto_api \<Rightarrow> (string \<Rightarrow> u64) \<Rightarrow> bool \<Rightarrow> bool \<Rightarrow> (nat \<rightharpoonup> 'd) \<Rightarrow> int
    \<Rightarrow> channel_info \<Rightarrow> channel \<Rightarrow> mcap_message \<Rightarrow> play_event list" where
  "replay_message P hash on_frame on_send schemas now info channel m =
     (case schemas (ch_schema_id channel) of
        None \<Rightarrow> []
      | Some desc \<Rightarrow>
          (case pb_parse P desc (mm_data m) of
             None \<Rightarrow> []
           | Some msg \<Rightarrow>
               if ci_kind info = Kind_data \<and> on_frame then [Deliver_frame (replay_frame P hash now info desc msg)]
               else if ci_kind info = Kind_raw \<and> on_send then replay_send P info desc msg
               else []))"

section \<open>The playback loop\<close>

text \<open>What the loop sees at one message: the controller at each of its five reads, the steady
  clock when it resets its timing, the wall clock when it builds a frame.\<close>

record reader_obs =
  ro_any :: playback
  ro_after_wait :: playback
  ro_sleep :: playback
  ro_running :: playback
  ro_enabled :: playback
  ro_steady :: int
  ro_wall :: int

record pace =
  pc_started :: bool
  pc_t0 :: u64
  pc_start :: int

definition pace_message :: "bool \<Rightarrow> int \<Rightarrow> u64 \<Rightarrow> pace \<Rightarrow> pace" where
  "pace_message reset clock t p =
     (if pc_started p \<and> \<not> reset then p else \<lparr>pc_started = True, pc_t0 = t, pc_start = clock\<rparr>)"

definition pace_target :: "pace \<Rightarrow> u64 \<Rightarrow> int" where
  "pace_target p t = pc_start p + sint (t - pc_t0 p)"

text \<open>\<open>ctl\<close> says whether there is a controller; \<open>deliver\<close> is the tail of the loop body.\<close>

fun play_msgs :: "bool \<Rightarrow> (nat \<rightharpoonup> channel_info) \<Rightarrow> (reader_obs \<Rightarrow> channel_info \<Rightarrow> channel \<Rightarrow> mcap_message \<Rightarrow> play_event list)
    \<Rightarrow> (nat \<Rightarrow> reader_obs) \<Rightarrow> nat \<Rightarrow> pace \<Rightarrow> (channel \<times> mcap_message) list \<Rightarrow> play_event list" where
  "play_msgs ctl chans deliver obs n p [] = []"
| "play_msgs ctl chans deliver obs n p ((channel, m) # ms) =
     (case chans (mm_channel_id m) of
        None \<Rightarrow> play_msgs ctl chans deliver obs (Suc n) p ms
      | Some info \<Rightarrow>
          (let ob = obs n; waits = (ctl \<and> \<not> any_running (ro_any ob))
           in if waits \<and> pb_stopped (ro_after_wait ob) then [Wait_running]
              else
                (let p' = pace_message waits (ro_steady ob) (mm_log_time m) p
                 in (if waits then [Wait_running] else []) @ Sleep_until (pace_target p' (mm_log_time m)) #
                    (if ctl \<and> sleep_result (ro_sleep ob) then []
                     else (if ctl \<and> \<not> is_running (ro_running ob) (ci_iface info) then []
                           else if ctl \<and> \<not> is_message_enabled (ro_enabled ob) (ci_iface info) (ci_msg_name info) then []
                           else deliver ob info channel m)
                          @ play_msgs ctl chans deliver obs (Suc n) p' ms))))"

definition play :: "('f, 'd, 'fd, 'msg) proto_api \<Rightarrow> ('p, 'fs, 'd) pool_api \<Rightarrow> 'r reader_api \<Rightarrow> (string \<Rightarrow> u64)
    \<Rightarrow> string \<Rightarrow> bool \<Rightarrow> bool \<Rightarrow> bool \<Rightarrow> (nat \<Rightarrow> reader_obs) \<Rightarrow> play_event list result" where
  "play P Q R hash path on_frame on_send ctl obs =
     (case r_open R path of
        Mcap_unopenable \<Rightarrow> Inl (Exn (''McapReader: cannot open file: '' @ path))
      | Mcap_bad msg \<Rightarrow> Inl (Exn (''McapReader: '' @ msg))
      | Mcap_opened r \<Rightarrow>
          Inr (play_msgs ctl (channel_table (r_channels R r))
            (\<lambda>ob. replay_message P hash on_frame on_send (schema_table Q (r_schemas R r)) (ro_wall ob))
            obs 0 \<lparr>pc_started = False, pc_t0 = 0, pc_start = 0\<rparr> (r_messages R r)))"

section \<open>Facts\<close>

lemma ends_with_append [simp]: "ends_with (a @ b) b"
  by (simp add: ends_with_def)

lemma ends_with_same_length: "length b = length c \<Longrightarrow> ends_with (a @ b) c \<longleftrightarrow> b = c"
  by (auto simp: ends_with_def)

lemma ends_with_last: "ends_with s t \<Longrightarrow> t \<noteq> [] \<Longrightarrow> last s = last t"
proof -
  assume e: "ends_with s t" and t: "t \<noteq> []"
  then have "s = take (length s - length t) s @ t" unfolding ends_with_def by (metis append_take_drop_id)
  then show ?thesis using t by (metis last_appendR)
qed

lemma classify_suffix_append:
  "CHR ''/'' \<notin> set iface \<Longrightarrow> classify_suffix (iface @ CHR ''/'' # name @ suffix) (suffix, kind)
    = Some \<lparr>ci_kind = kind, ci_iface = iface, ci_msg_name = name\<rparr>"
proof -
  assume n: "CHR ''/'' \<notin> set iface"
  have "ends_with ((iface @ CHR ''/'' # name) @ suffix) suffix" by (rule ends_with_append)
  then have "ends_with (iface @ CHR ''/'' # name @ suffix) suffix" by simp
  moreover have "take (length (iface @ CHR ''/'' # name @ suffix) - length suffix) (iface @ CHR ''/'' # name @ suffix)
      = iface @ CHR ''/'' # name"
    using append_eq_conv_conj [of "iface @ CHR ''/'' # name" suffix "iface @ CHR ''/'' # name @ suffix"] by simp
  ultimately show ?thesis by (simp add: classify_suffix_def split_first_append [OF n])
qed

lemma classify_data: "CHR ''/'' \<notin> set iface \<Longrightarrow> classify_topic (iface @ ''/'' @ name @ ''/data'') =
    \<lparr>ci_kind = Kind_data, ci_iface = iface, ci_msg_name = name\<rparr>"
  using classify_suffix_append [of iface name "''/data''" Kind_data] by (simp add: classify_topic_def)

lemma not_ends_with: "length b = length c \<Longrightarrow> b \<noteq> c \<Longrightarrow> \<not> ends_with (a @ b) c"
  by (simp add: ends_with_same_length)

lemma classify_raw: "CHR ''/'' \<notin> set iface \<Longrightarrow> classify_topic (iface @ ''/'' @ name @ ''/raw'') =
    \<lparr>ci_kind = Kind_raw, ci_iface = iface, ci_msg_name = name\<rparr>"
proof -
  assume n: "CHR ''/'' \<notin> set iface"
  have "\<not> ends_with (iface @ ''/'' @ name @ ''/raw'') ''/data''"
    using ends_with_last [of "iface @ ''/'' @ name @ ''/raw''" "''/data''"] by auto
  then have "classify_suffix (iface @ ''/'' @ name @ ''/raw'') (''/data'', Kind_data) = None"
    by (simp add: classify_suffix_def)
  with classify_suffix_append [OF n, of name "''/raw''" Kind_raw] show ?thesis by (simp add: classify_topic_def)
qed

lemma classify_ratio: "classify_topic (base @ ''/update_ratio'') = \<lparr>ci_kind = Kind_other, ci_iface = [], ci_msg_name = []\<rparr>"
proof -
  have "\<not> ends_with (base @ ''/update_ratio'') ''/data''" "\<not> ends_with (base @ ''/update_ratio'') ''/raw''"
    using ends_with_last [of "base @ ''/update_ratio''" "''/data''"] ends_with_last [of "base @ ''/update_ratio''" "''/raw''"]
    by auto
  then show ?thesis by (simp add: classify_topic_def classify_suffix_def)
qed

lemma fmt_03X_digits: "c \<in> set (fmt_03X n) \<Longrightarrow> \<exists>d<16. c = digit_char d"
proof -
  assume "c \<in> set (fmt_03X n)"
  moreover have "CHR ''0'' = digit_char 0" by code_simp
  ultimately show ?thesis
    using digits_of_bounded [of 16 n] by (auto simp: fmt_03X_def pad_left_def hex_upper_def intro: exI [of _ 0])
qed

definition hex_plain :: "char \<Rightarrow> bool" where
  "hex_plain c \<longleftrightarrow> \<not> is_space c \<and> c \<noteq> CHR ''-'' \<and> c \<noteq> CHR ''+'' \<and> c \<noteq> CHR ''x'' \<and> c \<noteq> CHR ''X''"

lemma digit_char_plain: "d < 16 \<Longrightarrow> hex_plain (digit_char d)"
proof -
  have "list_all (\<lambda>d. hex_plain (digit_char d)) [0..<16]" by code_simp
  from this [unfolded list_all_iff set_upt, rule_format, of d] show "d < 16 \<Longrightarrow> hex_plain (digit_char d)" by simp
qed

lemma fmt_03X_nonempty: "fmt_03X n \<noteq> []"
  by (simp add: fmt_03X_def pad_left_def hex_upper_def digits_of_nonempty)

lemma stoul16_fmt_03X: "n < 2 ^ 64 \<Longrightarrow> stoul16 (fmt_03X n) = Some (of_nat n)"
proof -
  assume n: "n < 2 ^ 64"
  have p: "hex_plain c" if "c \<in> set (fmt_03X n)" for c
    using fmt_03X_digits [OF that] by (auto simp: digit_char_plain)
  note plain = p [unfolded hex_plain_def]
  obtain c s where cs: "fmt_03X n = c # s" using fmt_03X_nonempty by (cases "fmt_03X n") auto
  have "dropWhile is_space (fmt_03X n) = fmt_03X n" using plain cs by simp
  moreover have "read_sign (fmt_03X n) = (False, fmt_03X n)" using plain cs by (simp add: read_sign_def)
  moreover have "strip_0x (fmt_03X n) = fmt_03X n"
    using plain by (auto simp: strip_0x_def split: list.split)
  ultimately show ?thesis using read_hex_fmt_03X [of n] n by (auto simp: stoul16_def)
qed

lemma ucast_up_down: "ucast (ucast (x :: u32) :: u64) = x"
  by (rule bit_word_eqI) (simp add: bit_simps)

lemma sanitized_not_hex: "proto_ident s \<Longrightarrow> s ! 0 \<noteq> CHR ''0''"
proof -
  assume p: "proto_ident s"
  have "is_digit (CHR ''0'')" by code_simp
  with p show ?thesis by (cases s) (auto simp: proto_ident_def)
qed

section \<open>Properties\<close>

text \<open>The reader takes apart exactly what the logger puts together: for an interface name
  without a slash, data and raw topics give back the interface and the message name, and the
  update-ratio topics are ignored.\<close>

theorem classify_logged_topics:
  assumes "CHR ''/'' \<notin> set (hdr_interface (fr_header f))"
  shows "\<exists>name. base_topic P f d = hdr_interface (fr_header f) @ ''/'' @ name
    \<and> classify_topic (base_topic P f d @ ''/data'') = \<lparr>ci_kind = Kind_data, ci_iface = hdr_interface (fr_header f), ci_msg_name = name\<rparr>
    \<and> classify_topic (base_topic P f d @ ''/raw'') = \<lparr>ci_kind = Kind_raw, ci_iface = hdr_interface (fr_header f), ci_msg_name = name\<rparr>
    \<and> ci_kind (classify_topic (base_topic P f d @ ''/update_ratio'')) = Kind_other"
proof -
  obtain name where b: "base_topic P f d = hdr_interface (fr_header f) @ ''/'' @ name"
    by (cases d) (simp_all add: base_topic_def)
  show ?thesis
    using classify_data [OF assms, of name] classify_raw [OF assms, of name]
      classify_ratio [of "hdr_interface (fr_header f) @ ''/'' @ name"]
    by (intro exI [of _ name]) (simp add: b)
qed

theorem classify_logged_topics_witness:
  "classify_topic ''vcan0/0x001/data'' = \<lparr>ci_kind = Kind_data, ci_iface = ''vcan0'', ci_msg_name = ''0x001''\<rparr>"
proof -
  have b: "base_topic ex_api ex_proto_frame None = ''vcan0/0x001''" "hdr_interface (fr_header ex_proto_frame) = ''vcan0''"
    by (simp_all add: base_topic_def ex_proto_frame_def) code_simp
  from classify_logged_topics [of ex_proto_frame ex_api None] show ?thesis by (simp add: b)
qed

text \<open>A model output called \<open>data\<close> is logged on a topic that playback takes for a CAN message
  of an interface called \<open>model\<close>.\<close>

theorem model_output_taken_for_frame:
  "classify_topic (''model/'' @ script @ ''/'' @ ''data'') = \<lparr>ci_kind = Kind_data, ci_iface = ''model'', ci_msg_name = script\<rparr>"
  using classify_data [of "''model''" script] by simp

text \<open>Frames logged without a DBC get their CAN id back from the topic, for every id, and frames
  logged with one never do: their id is the low 11 bits of the hash of the message name.\<close>

theorem derived_ids:
  "derive_can_id hash (''0x'' @ fmt_03X (unat cid)) = cid
    \<and> derive_can_id hash (sanitize name) = ucast (hash (sanitize name) AND 0x7FF)"
proof
  have "unat cid < 2 ^ 64" using unsigned_less [of cid, where ?'a = nat] by simp
  then have "stoul16 (fmt_03X (unat cid)) = Some (of_nat (unat cid))" by (rule stoul16_fmt_03X)
  then show "derive_can_id hash (''0x'' @ fmt_03X (unat cid)) = cid"
    using fmt_03X_nonempty [of "unat cid"] ucast_up_down [of cid] by (simp add: derive_can_id_def Let_def)
  show "derive_can_id hash (sanitize name) = ucast (hash (sanitize name) AND 0x7FF)"
    using sanitized_not_hex [OF sanitize_ident, of name] by (simp add: derive_can_id_def Let_def)
qed

text \<open>C7: with a controller, a message is delivered only if its interface was running and its name
  enabled when the loop looked, whatever the controller did in between.\<close>

theorem playback_respects_controller:
  "play_msgs True chans deliver obs n p ms =
   play_msgs True chans (\<lambda>ob info ch m.
     if is_running (ro_running ob) (ci_iface info) \<and> is_message_enabled (ro_enabled ob) (ci_iface info) (ci_msg_name info)
     then deliver ob info ch m else []) obs n p ms"
  by (induction ms arbitrary: n p) (auto simp: Let_def split: option.split)


definition ex_obs :: "int \<Rightarrow> reader_obs" where
  "ex_obs t = (let c = mk_playback [] in \<lparr>ro_any = c, ro_after_wait = c, ro_sleep = c, ro_running = c, ro_enabled = c,
     ro_steady = t, ro_wall = 0\<rparr>)"

definition ex_message_at :: "u64 \<Rightarrow> mcap_message" where
  "ex_message_at t = \<lparr>mm_channel_id = 0, mm_sequence = 0, mm_log_time = t, mm_publish_time = t, mm_data = []\<rparr>"


end
