(* ===== verification/Sockets.thy ===== *)
theory Sockets
  imports Frame Prelude
begin

text \<open>
  \<open>src/socket\<close>: the SocketCAN socket, which reads and writes the kernel's \<open>struct can_frame\<close>,
  and the gRPC socket, whose reader thread subscribes to a server. The results of the system
  calls and of the RPCs are inputs of the model.
\<close>

section \<open>SocketCAN\<close>

record wire_frame =
  wf_can_id :: u32
  wf_can_dlc :: u8
  wf_data :: bytes

text \<open>\<open>CAN_EFF_MASK\<close> keeps the 29 identifier bits; bit 31 of a \<open>can_id\<close> is the flag of an
  extended frame.\<close>

definition eff_mask :: u32 where "eff_mask = 0x1FFFFFFF"

record time_spec =
  ts_sec :: int
  ts_nsec :: int

text \<open>A control message: is it the timestamping one, and its software and hardware stamps.\<close>

record control_message =
  cm_is_timestamping :: bool
  cm_sw :: time_spec
  cm_hw :: time_spec

datatype recv_result = Recv_failed | Recv_runt | Recv_frame wire_frame "control_message list"

definition ts_zero :: "time_spec \<Rightarrow> bool" where
  "ts_zero t \<longleftrightarrow> ts_sec t = 0 \<and> ts_nsec t = 0"

definition chosen_stamp :: "control_message \<Rightarrow> time_spec option" where
  "chosen_stamp cm =
     (if \<not> ts_zero (cm_hw cm) then Some (cm_hw cm)
      else if \<not> ts_zero (cm_sw cm) then Some (cm_sw cm) else None)"

text \<open>The loop stops at the first timestamping message, whether it carries a stamp or not.\<close>

definition rx_timestamp :: "control_message list \<Rightarrow> int option" where
  "rx_timestamp cms =
     (case List.find cm_is_timestamping cms of
        None \<Rightarrow> None
      | Some cm \<Rightarrow> map_option (\<lambda>t. ts_sec t * 1000000000 + ts_nsec t) (chosen_stamp cm))"

text \<open>A length above 8 would read past the frame's data array: None.\<close>

definition wire_to_frame :: "string \<Rightarrow> int \<Rightarrow> wire_frame \<Rightarrow> control_message list \<Rightarrow> can_frame option" where
  "wire_to_frame interface now raw cms =
     (if length (wf_data raw) < unat (wf_can_dlc raw) then None
      else
        (let payload = take (unat (wf_can_dlc raw)) (wf_data raw);
             header = \<lparr>hdr_id = wf_can_id raw AND eff_mask, hdr_interface = interface, hdr_dlc = wf_can_dlc raw\<rparr>;
             frame = mk_can_frame now header payload
         in Some (case rx_timestamp cms of Some ts \<Rightarrow> set_timestamp ts frame | None \<Rightarrow> frame)))"

text \<open>One call of \<open>readFrame\<close>: whether to go on, and the frame handed to the callback.\<close>

definition read_frame :: "string \<Rightarrow> int \<Rightarrow> recv_result \<Rightarrow> (bool \<times> can_frame option) option" where
  "read_frame interface now r =
     (case r of
        Recv_failed \<Rightarrow> Some (False, None)
      | Recv_runt \<Rightarrow> Some (True, None)
      | Recv_frame raw cms \<Rightarrow> map_option (\<lambda>f. (True, Some f)) (wire_to_frame interface now raw cms))"

text \<open>\<open>while (readFrame()) {}\<close> over the results the kernel gives, with their clock readings; after
  the last of them the socket is drained and the next call fails.\<close>

fun drain :: "string \<Rightarrow> (int \<times> recv_result) list \<Rightarrow> can_frame list option" where
  "drain interface [] = Some []"
| "drain interface ((now, r) # rs) =
     (case read_frame interface now r of
        None \<Rightarrow> None
      | Some (False, _) \<Rightarrow> Some []
      | Some (True, None) \<Rightarrow> drain interface rs
      | Some (True, Some f) \<Rightarrow> map_option (\<lambda>fs. f # fs) (drain interface rs))"

definition sock_send :: "u64 \<Rightarrow> bytes \<Rightarrow> wire_frame" where
  "sock_send cid data =
     (let dlc = min (length data) 8
      in \<lparr>wf_can_id = ucast (cid AND ucast eff_mask), wf_can_dlc = of_nat dlc,
          wf_data = take dlc data @ replicate (8 - dlc) 0\<rparr>)"

text \<open>Opening: the five system calls in order, the last of which may fail silently.\<close>

record sys_results =
  sys_socket :: bool
  sys_ifindex :: bool
  sys_bind :: bool
  sys_recv_own :: bool
  sys_errno :: string

definition mk_socket_can :: "sys_results \<Rightarrow> string \<Rightarrow> string result" where
  "mk_socket_can sys interface =
     (if \<not> sys_socket sys then Inl (Exn (''Failed to open CAN socket: '' @ sys_errno sys))
      else if \<not> sys_ifindex sys then Inl (Exn (''Failed to get interface index for: '' @ interface))
      else if \<not> sys_bind sys then Inl (Exn (''Failed to bind CAN socket to: '' @ interface))
      else if \<not> sys_recv_own sys then Inl (Exn (''Failed to set CAN_RAW_RECV_OWN_MSGS on: '' @ interface))
      else Inr interface)"

section \<open>SocketGrpc\<close>

record raw_can_frame =
  rc_interface :: string
  rc_can_id :: u32
  rc_dlc :: u32
  rc_data :: bytes
  rc_timestamp_us :: int

definition grpc_to_frame :: "string \<Rightarrow> int \<Rightarrow> raw_can_frame \<Rightarrow> can_frame" where
  "grpc_to_frame interface now p =
     mk_can_frame now \<lparr>hdr_id = rc_can_id p, hdr_interface = interface, hdr_dlc = ucast (rc_dlc p)\<rparr> (rc_data p)"

definition grpc_send :: "string \<Rightarrow> u64 \<Rightarrow> bytes \<Rightarrow> raw_can_frame" where
  "grpc_send interface cid data =
     \<lparr>rc_interface = interface, rc_can_id = ucast cid, rc_dlc = of_nat (length data), rc_data = data, rc_timestamp_us = 0\<rparr>"

text \<open>
  The reader thread and \<open>stop\<close>, by their program points: the reader checks \<open>running_\<close>,
  publishes its context, subscribes, reads until a read fails, withdraws the context and
  sleeps; \<open>stop\<close> clears \<open>running_\<close>, then cancels the published context, then joins. A read
  on a cancelled context fails.
\<close>

datatype reader_pc = R_check | R_publish | R_subscribe | R_test | R_read | R_withdraw | R_sleep | R_exit

datatype stop_pc = S_idle | S_cancel | S_join | S_joined

record grpc_socket =
  gs_running :: bool
  gs_connected :: bool
  gs_ctx :: bool
  gs_cancelled :: bool
  gs_reader :: reader_pc
  gs_stop :: stop_pc
  gs_posted :: "raw_can_frame list"

definition grpc_start :: grpc_socket where
  "grpc_start = \<lparr>gs_running = True, gs_connected = False, gs_ctx = False, gs_cancelled = False,
     gs_reader = R_check, gs_stop = S_idle, gs_posted = []\<rparr>"

inductive grpc_step :: "grpc_socket \<Rightarrow> grpc_socket \<Rightarrow> bool" where
  check_go: "gs_reader s = R_check \<Longrightarrow> gs_running s \<Longrightarrow> grpc_step s (s\<lparr>gs_reader := R_publish\<rparr>)"
| check_exit: "gs_reader s = R_check \<Longrightarrow> \<not> gs_running s \<Longrightarrow> grpc_step s (s\<lparr>gs_reader := R_exit\<rparr>)"
| publish: "gs_reader s = R_publish \<Longrightarrow>
    grpc_step s (s\<lparr>gs_reader := R_subscribe, gs_ctx := True, gs_cancelled := False\<rparr>)"
| subscribe: "gs_reader s = R_subscribe \<Longrightarrow> grpc_step s (s\<lparr>gs_reader := R_test, gs_connected := True\<rparr>)"
| test_go: "gs_reader s = R_test \<Longrightarrow> gs_running s \<Longrightarrow> grpc_step s (s\<lparr>gs_reader := R_read\<rparr>)"
| test_end: "gs_reader s = R_test \<Longrightarrow> \<not> gs_running s \<Longrightarrow> grpc_step s (s\<lparr>gs_reader := R_withdraw, gs_connected := False\<rparr>)"
| read_frame: "gs_reader s = R_read \<Longrightarrow> \<not> gs_cancelled s \<Longrightarrow>
    grpc_step s (s\<lparr>gs_reader := R_test, gs_posted := gs_posted s @ [p]\<rparr>)"
| read_end: "gs_reader s = R_read \<Longrightarrow> grpc_step s (s\<lparr>gs_reader := R_withdraw, gs_connected := False\<rparr>)"
| withdraw: "gs_reader s = R_withdraw \<Longrightarrow>
    grpc_step s (s\<lparr>gs_reader := (if gs_running s then R_sleep else R_check), gs_ctx := False\<rparr>)"
| sleep_over: "gs_reader s = R_sleep \<Longrightarrow> grpc_step s (s\<lparr>gs_reader := R_check\<rparr>)"
| stop_flag: "gs_stop s = S_idle \<Longrightarrow> grpc_step s (s\<lparr>gs_running := False, gs_stop := S_cancel\<rparr>)"
| stop_cancel: "gs_stop s = S_cancel \<Longrightarrow>
    grpc_step s (s\<lparr>gs_cancelled := (gs_ctx s \<or> gs_cancelled s), gs_stop := S_join\<rparr>)"
| stop_join: "gs_stop s = S_join \<Longrightarrow> gs_reader s = R_exit \<Longrightarrow> grpc_step s (s\<lparr>gs_stop := S_joined\<rparr>)"

inductive_simps grpc_step_simps: "grpc_step s s'"

definition grpc_ok :: "grpc_socket \<Rightarrow> bool" where
  "grpc_ok s \<longleftrightarrow> (gs_running s \<longleftrightarrow> gs_stop s = S_idle)
     \<and> (gs_ctx s \<longleftrightarrow> gs_reader s \<in> {R_subscribe, R_test, R_read, R_withdraw})
     \<and> (gs_stop s \<in> {S_join, S_joined} \<and> gs_reader s = R_read \<longrightarrow> gs_cancelled s)
     \<and> (gs_stop s = S_joined \<longrightarrow> gs_reader s = R_exit)"

lemma grpc_start_ok: "grpc_ok grpc_start"
  by (simp add: grpc_ok_def grpc_start_def)

lemma grpc_step_ok: "grpc_step s s' \<Longrightarrow> grpc_ok s \<Longrightarrow> grpc_ok s'"
  by (induction rule: grpc_step.induct) (auto simp: grpc_ok_def)

interpretation grpc_sys: safe_system "\<lambda>s. s = grpc_start" grpc_step grpc_ok
  by unfold_locales (auto simp: grpc_start_ok intro: grpc_step_ok)

text \<open>How far the reader is from its exit once \<open>running_\<close> is false and the context cancelled.\<close>

fun reader_rank :: "reader_pc \<Rightarrow> nat" where
  "reader_rank R_publish = 6"
| "reader_rank R_subscribe = 5"
| "reader_rank R_read = 4"
| "reader_rank R_test = 3"
| "reader_rank R_withdraw = 2"
| "reader_rank R_sleep = 2"
| "reader_rank R_check = 1"
| "reader_rank R_exit = 0"

lemma stop_progress:
  assumes "grpc_ok s" "gs_stop s = S_join" "gs_reader s \<noteq> R_exit"
  shows "\<exists>s'. grpc_step s s'"
    and "grpc_step s s' \<Longrightarrow> reader_rank (gs_reader s') < reader_rank (gs_reader s) \<and> gs_stop s' = S_join"
proof -
  show "\<exists>s'. grpc_step s s'"
    by (cases "gs_reader s") (use assms in \<open>blast intro: grpc_step.intros\<close>)+
  show "grpc_step s s' \<Longrightarrow> reader_rank (gs_reader s') < reader_rank (gs_reader s) \<and> gs_stop s' = S_join"
    by (induction rule: grpc_step.cases) (use assms in \<open>auto simp: grpc_ok_def\<close>)
qed

lemma sent_read_back:
  "\<exists>f. read_frame interface now (Recv_frame (sock_send cid data) cms) = Some (True, Some f)
    \<and> hdr_id (fr_header f) = ucast (cid AND 0x1FFFFFFF) \<and> hdr_interface (fr_header f) = interface
    \<and> fr_payload f = take 8 data \<and> unat (hdr_dlc (fr_header f)) = min (length data) 8"
proof -
  have d: "unat (of_nat (length data) :: u8) = length data" if "length data \<le> 8"
    using that by (simp add: unat_of_nat)
  have l: "length (take (min (length data) 8) data @ replicate (8 - min (length data) 8) 0 :: bytes) = 8"
    by simp
  have m: "ucast (cid AND ucast eff_mask) AND eff_mask = (ucast (cid AND 0x1FFFFFFF) :: u32)"
    by (rule bit_word_eqI) (auto simp: eff_mask_def bit_simps)
  have t: "take (min (length data) 8) (take (min (length data) 8) data @ replicate (8 - min (length data) 8) 0) = take 8 data"
    by (simp add: min_def)
  show ?thesis
    by (cases "rx_timestamp cms")
      (simp_all add: read_frame_def wire_to_frame_def sock_send_def Let_def d m min_def set_timestamp_def)
qed

section \<open>Properties\<close>

text \<open>C18: a frame sent by \<open>SocketCAN::send\<close> and echoed by the kernel is read back with the low 29
  bits of the id, the first eight bytes of the data and their number as length; it is
  delivered and the drain loop goes on.\<close>

theorem send_then_read:
  "\<exists>f. read_frame interface now (Recv_frame (sock_send cid data) cms) = Some (True, Some f)
    \<and> hdr_id (fr_header f) = ucast (cid AND 0x1FFFFFFF) \<and> hdr_interface (fr_header f) = interface
    \<and> fr_payload f = take 8 data \<and> unat (hdr_dlc (fr_header f)) = min (length data) 8"
  by (rule sent_read_back)

text \<open>\<open>send\<close> never marks a frame as extended: bit 31 of the identifier word is always clear, so
  an identifier above 11 bits goes out as a standard one.\<close>

theorem send_never_extended:
  "\<not> bit (wf_can_id (sock_send cid data)) 31 \<and> length (wf_data (sock_send cid data)) = 8"
  by (simp add: sock_send_def Let_def eff_mask_def bit_simps)

definition pending :: "(int \<times> recv_result) list \<Rightarrow> (int \<times> recv_result) list" where
  "pending rs = takeWhile (\<lambda>(now, r). r \<noteq> Recv_failed) rs"

definition wire_ok :: "recv_result \<Rightarrow> bool" where
  "wire_ok r = (case r of Recv_frame raw cms \<Rightarrow> unat (wf_can_dlc raw) \<le> length (wf_data raw) | _ \<Rightarrow> True)"

text \<open>C12: draining delivers, in order, every frame the kernel has queued before the first failing
  call, skipping runts, and never reads outside a frame when the kernel keeps lengths at 8.\<close>

theorem drain_delivers_all:
  assumes "list_all (\<lambda>(now, r). wire_ok r) rs"
  shows "drain interface rs = Some (concat (map (\<lambda>(now, r).
    case r of Recv_frame raw cms \<Rightarrow> (case wire_to_frame interface now raw cms of Some f \<Rightarrow> [f] | None \<Rightarrow> []) | _ \<Rightarrow> []) (pending rs)))"
  using assms
proof (induction rs)
  case (Cons e rs)
  then show ?case
    by (cases e; cases "snd e") (auto simp: read_frame_def pending_def wire_ok_def wire_to_frame_def Let_def)
qed (simp add: pending_def)

theorem drain_delivers_all_witness:
  "map fr_payload (the (drain ''can0'' [(0, Recv_runt), (1, Recv_frame (sock_send 5 [1, 2]) []), (2, Recv_failed),
     (3, Recv_frame (sock_send 6 [3]) [])])) = [[1, 2]]"
  by (subst drain_delivers_all) (simp_all add: wire_ok_def sock_send_def Let_def pending_def wire_to_frame_def rx_timestamp_def)


definition ex_stopping :: grpc_socket where
  "ex_stopping = grpc_start\<lparr>gs_reader := R_publish, gs_running := False, gs_stop := S_join\<rparr>"

lemma ex_stopping_reachable: "grpc_step\<^sup>*\<^sup>* grpc_start ex_stopping"
proof -
  have "grpc_step grpc_start (grpc_start\<lparr>gs_reader := R_publish\<rparr>)"
    by (rule grpc_step.check_go) (simp_all add: grpc_start_def)
  moreover have "grpc_step (grpc_start\<lparr>gs_reader := R_publish\<rparr>) (grpc_start\<lparr>gs_reader := R_publish, gs_running := False, gs_stop := S_cancel\<rparr>)"
    by (rule grpc_step.stop_flag) (simp add: grpc_start_def)
  moreover have "grpc_step (grpc_start\<lparr>gs_reader := R_publish, gs_running := False, gs_stop := S_cancel\<rparr>) ex_stopping"
    using grpc_step.stop_cancel [of "grpc_start\<lparr>gs_reader := R_publish, gs_running := False, gs_stop := S_cancel\<rparr>"]
    by (simp add: ex_stopping_def grpc_start_def)
  ultimately show ?thesis by (meson converse_rtranclp_into_rtranclp rtranclp.rtrancl_refl)
qed


end
