(* ===== verification/CanStream.thy ===== *)
theory CanStream
  imports Sockets Logging
begin

text \<open>
  \<open>src/grpc\<close>: the service that streams frames to subscribers and takes sends and log commands
  from clients. Every \<open>Subscribe\<close> call runs in a thread of its own; the model has its program
  points, the mutex of the subscriber being held at those of \<open>holds_lock\<close>.
\<close>

section \<open>One subscriber\<close>

text \<open>
  \<open>W_check\<close> tests \<open>done\<close>; \<open>W_pred\<close> evaluates the predicate of \<open>cv.wait\<close>; \<open>W_about\<close> is between a
  false predicate and the block, with the mutex still held; \<open>W_blocked\<close> is blocked on the
  condition variable; \<open>W_woken\<close> was notified and has to take the mutex again; \<open>W_drain\<close> tests
  the inner loop; \<open>W_write\<close> writes a frame with the mutex released.
\<close>

datatype sub_pc = W_check | W_pred | W_about | W_blocked | W_woken | W_drain | W_write raw_can_frame | W_exit

record subscriber =
  sub_filter :: string
  sub_queue :: "raw_can_frame list"
  sub_done :: bool
  sub_pc :: sub_pc
  sub_written :: "raw_can_frame list"

definition mk_subscriber :: "string \<Rightarrow> subscriber" where
  "mk_subscriber interface =
     \<lparr>sub_filter = interface, sub_queue = [], sub_done = False, sub_pc = W_check, sub_written = []\<rparr>"

definition holds_lock :: "sub_pc \<Rightarrow> bool" where
  "holds_lock pc \<longleftrightarrow> pc = W_pred \<or> pc = W_about \<or> pc = W_drain"

definition notify :: "subscriber \<Rightarrow> subscriber" where
  "notify sub = (if sub_pc sub = W_blocked then sub\<lparr>sub_pc := W_woken\<rparr> else sub)"

definition to_proto :: "int \<Rightarrow> can_frame \<Rightarrow> raw_can_frame" where
  "to_proto now_us frame =
     \<lparr>rc_interface = hdr_interface (fr_header frame), rc_can_id = hdr_id (fr_header frame),
      rc_dlc = ucast (hdr_dlc (fr_header frame)), rc_data = fr_payload frame, rc_timestamp_us = now_us\<rparr>"

lemma ucast_widen_back: "(ucast (ucast (w :: 8 word) :: 32 word) :: 8 word) = w"
  by (rule ucast_up_ucast_id) (simp add: is_up)

definition wants :: "subscriber \<Rightarrow> string \<Rightarrow> bool" where
  "wants sub interface \<longleftrightarrow> sub_filter sub = [] \<or> sub_filter sub = interface"

definition push_frame :: "raw_can_frame \<Rightarrow> subscriber \<Rightarrow> subscriber" where
  "push_frame proto sub =
     (if \<not> wants sub (rc_interface proto) then sub
      else notify (sub\<lparr>sub_queue := sub_queue sub @ [proto]\<rparr>))"

definition shutdown_sub :: "subscriber \<Rightarrow> subscriber" where
  "shutdown_sub sub = notify (sub\<lparr>sub_done := True\<rparr>)"

text \<open>The steps of the thread that runs \<open>Subscribe\<close>.\<close>

inductive thread_step :: "subscriber \<Rightarrow> subscriber \<Rightarrow> bool" where
  enter: "sub_pc s = W_check \<Longrightarrow> \<not> sub_done s \<Longrightarrow> thread_step s (s\<lparr>sub_pc := W_pred\<rparr>)"
| leave: "sub_pc s = W_check \<Longrightarrow> sub_done s \<Longrightarrow> thread_step s (s\<lparr>sub_pc := W_exit\<rparr>)"
| pred_true: "sub_pc s = W_pred \<Longrightarrow> sub_queue s \<noteq> [] \<or> sub_done s \<Longrightarrow> thread_step s (s\<lparr>sub_pc := W_drain\<rparr>)"
| pred_false: "sub_pc s = W_pred \<Longrightarrow> sub_queue s = [] \<Longrightarrow> \<not> sub_done s \<Longrightarrow> thread_step s (s\<lparr>sub_pc := W_about\<rparr>)"
| block: "sub_pc s = W_about \<Longrightarrow> thread_step s (s\<lparr>sub_pc := W_blocked\<rparr>)"
| relock: "sub_pc s = W_woken \<Longrightarrow> thread_step s (s\<lparr>sub_pc := W_pred\<rparr>)"
| pop: "sub_pc s = W_drain \<Longrightarrow> sub_queue s = f # q \<Longrightarrow> \<not> sub_done s
    \<Longrightarrow> thread_step s (s\<lparr>sub_queue := q, sub_pc := W_write f\<rparr>)"
| drained: "sub_pc s = W_drain \<Longrightarrow> sub_queue s = [] \<or> sub_done s \<Longrightarrow> thread_step s (s\<lparr>sub_pc := W_check\<rparr>)"
| write_ok: "sub_pc s = W_write f \<Longrightarrow> thread_step s (s\<lparr>sub_written := sub_written s @ [f], sub_pc := W_drain\<rparr>)"
| write_failed: "sub_pc s = W_write f \<Longrightarrow> thread_step s (s\<lparr>sub_done := True, sub_pc := W_drain\<rparr>)"

inductive_simps thread_step_simps: "thread_step s s'"

text \<open>
  Its interleaving with \<open>broadcast\<close> (which takes the subscriber's mutex) and \<open>shutdown\<close> (which does
  not). The list collects the frames broadcast to it.
\<close>

inductive sub_step :: "subscriber \<times> raw_can_frame list \<Rightarrow> subscriber \<times> raw_can_frame list \<Rightarrow> bool" where
  own: "thread_step s s' \<Longrightarrow> sub_step (s, h) (s', h)"
| broadcast: "\<not> holds_lock (sub_pc s) \<Longrightarrow> sub_pc s \<noteq> W_exit
    \<Longrightarrow> sub_step (s, h) (push_frame p s, if wants s (rc_interface p) then h @ [p] else h)"
| shutdown: "sub_step (s, h) (shutdown_sub s, h)"

inductive_simps sub_step_cases: "sub_step (s, h) (s', h')"

lemmas sub_step_simps = sub_step_cases thread_step_simps

text \<open>The frame being written is neither in the queue nor written yet.\<close>

definition in_flight :: "sub_pc \<Rightarrow> raw_can_frame list" where
  "in_flight pc = (case pc of W_write f \<Rightarrow> [f] | _ \<Rightarrow> [])"

definition sub_ok :: "subscriber \<times> raw_can_frame list \<Rightarrow> bool" where
  "sub_ok st = (case st of (s, h) \<Rightarrow>
     (\<exists>rest. h = sub_written s @ rest \<and> (\<not> sub_done s \<longrightarrow> rest = in_flight (sub_pc s) @ sub_queue s)
        \<and> (sub_done s \<longrightarrow> (\<forall>f. sub_pc s = W_write f \<longrightarrow> (\<exists>r. rest = f # r))))
     \<and> (sub_pc s = W_blocked \<or> sub_pc s = W_about \<longrightarrow> sub_queue s = []))"

lemma sub_ok_start: "sub_ok (mk_subscriber interface, [])"
  by (simp add: sub_ok_def mk_subscriber_def in_flight_def)

lemma thread_step_ok: "thread_step s s' \<Longrightarrow> sub_ok (s, h) \<Longrightarrow> sub_ok (s', h)"
  by (induction rule: thread_step.induct) (auto simp: sub_ok_def in_flight_def)

lemma sub_step_ok: "sub_step st st' \<Longrightarrow> sub_ok st \<Longrightarrow> sub_ok st'"
proof (induction rule: sub_step.induct)
  case (own s s' h)
  then show ?case by (rule thread_step_ok)
next
  case (broadcast s h p)
  then show ?case
    by (auto simp: sub_ok_def push_frame_def notify_def holds_lock_def in_flight_def split: sub_pc.splits)
next
  case (shutdown s h)
  then show ?case
    by (auto simp: sub_ok_def shutdown_sub_def notify_def in_flight_def split: sub_pc.splits)
qed

interpretation sub_sys: safe_system "\<lambda>st. \<exists>i. st = (mk_subscriber i, [])" sub_step sub_ok
  by unfold_locales (auto simp: sub_ok_start intro: sub_step_ok)

section \<open>The service\<close>

record 'w service =
  sv_subscribers :: "subscriber list"
  sv_send_fn :: bool
  sv_log :: "'w log_controller option"

definition broadcast :: "int \<Rightarrow> can_frame \<Rightarrow> 'w service \<Rightarrow> 'w service" where
  "broadcast now_us frame s = s\<lparr>sv_subscribers := map (push_frame (to_proto now_us frame)) (sv_subscribers s)\<rparr>"

definition sv_shutdown :: "'w service \<Rightarrow> 'w service" where
  "sv_shutdown s = s\<lparr>sv_subscribers := map shutdown_sub (sv_subscribers s)\<rparr>"

definition set_send_fn :: "'w service \<Rightarrow> 'w service" where
  "set_send_fn s = s\<lparr>sv_send_fn := True\<rparr>"

definition set_log_controller :: "'w log_controller \<Rightarrow> 'w service \<Rightarrow> 'w service" where
  "set_log_controller lc s = s\<lparr>sv_log := Some lc\<rparr>"

text \<open>\<open>Send\<close>: the call of the send function, if any, and the result's \<open>ok\<close>.\<close>

definition sv_send :: "raw_can_frame \<Rightarrow> 'w service \<Rightarrow> (string \<times> u64 \<times> bytes) option \<times> bool" where
  "sv_send req s =
     (if sv_send_fn s then (Some (rc_interface req, ucast (rc_can_id req), rc_data req), True) else (None, False))"

record log_status =
  st_active :: bool
  st_path :: string

definition no_status :: log_status where "no_status = \<lparr>st_active = False, st_path = []\<rparr>"

definition fill_log_status :: "'w log_controller option \<Rightarrow> log_status" where
  "fill_log_status lc =
     (case lc of None \<Rightarrow> no_status | Some c \<Rightarrow> \<lparr>st_active = lc_is_logging c, st_path = lc_current_path c\<rparr>)"

text \<open>An exception in a handler makes the call fail: no status comes back.\<close>

definition start_log :: "'w mcap_api \<Rightarrow> string result \<Rightarrow> int \<Rightarrow> 'w service \<Rightarrow> 'w service \<times> log_status option" where
  "start_log M make_path now s =
     (case sv_log s of
        None \<Rightarrow> (s, Some (fill_log_status (sv_log s)))
      | Some c \<Rightarrow>
          (let (c', e) = lc_start M make_path now c; s' = s\<lparr>sv_log := Some c'\<rparr>
           in (s', if e = None then Some (fill_log_status (sv_log s')) else None)))"

definition stop_log :: "'w service \<Rightarrow> 'w service \<times> log_status option" where
  "stop_log s =
     (let s' = s\<lparr>sv_log := map_option lc_stop (sv_log s)\<rparr> in (s', Some (fill_log_status (sv_log s'))))"

definition get_log_status :: "'w service \<Rightarrow> log_status option" where
  "get_log_status s = Some (fill_log_status (sv_log s))"

section \<open>RemoteLogControl\<close>

record remote_log =
  rl_logging :: bool
  rl_path :: string
  rl_start_time :: int

text \<open>The reply of a call is None when the call failed; the status then keeps its defaults.\<close>

definition reply_status :: "log_status option \<Rightarrow> log_status" where
  "reply_status reply = (case reply of Some st \<Rightarrow> st | None \<Rightarrow> no_status)"

definition remote_start :: "int \<Rightarrow> log_status option \<Rightarrow> remote_log \<Rightarrow> remote_log" where
  "remote_start now reply r =
     (let st = reply_status reply; r' = r\<lparr>rl_logging := st_active st, rl_path := st_path st\<rparr>
      in if st_active st then r'\<lparr>rl_start_time := now\<rparr> else r')"

definition remote_stop :: "log_status option \<Rightarrow> remote_log \<Rightarrow> remote_log" where
  "remote_stop reply r =
     (let st = reply_status reply in r\<lparr>rl_logging := st_active st, rl_path := st_path st\<rparr>)"

definition refresh_status :: "int \<Rightarrow> log_status option \<Rightarrow> remote_log \<Rightarrow> remote_log" where
  "refresh_status now reply r =
     (case reply of
        None \<Rightarrow> r
      | Some st \<Rightarrow>
          (let r' = r\<lparr>rl_logging := st_active st, rl_path := st_path st\<rparr>
           in if st_active st \<and> \<not> rl_logging r then r'\<lparr>rl_start_time := now\<rparr> else r'))"

definition mk_remote_log :: "int \<Rightarrow> log_status option \<Rightarrow> remote_log" where
  "mk_remote_log now reply = refresh_status now reply \<lparr>rl_logging = False, rl_path = [], rl_start_time = 0\<rparr>"

definition remote_elapsed_seconds :: "int \<Rightarrow> remote_log \<Rightarrow> dbl" where
  "remote_elapsed_seconds now r = (if rl_logging r then seconds (now - rl_start_time r) else 0)"

text \<open>A client and the service it talks to, over calls that get through.\<close>

definition client_start :: "'w mcap_api \<Rightarrow> string result \<Rightarrow> int \<Rightarrow> 'w service \<times> remote_log \<Rightarrow> 'w service \<times> remote_log" where
  "client_start M make_path now sr =
     (case sr of (s, r) \<Rightarrow> let (s', reply) = start_log M make_path now s in (s', remote_start now reply r))"

definition client_stop :: "'w service \<times> remote_log \<Rightarrow> 'w service \<times> remote_log" where
  "client_stop sr = (case sr of (s, r) \<Rightarrow> let (s', reply) = stop_log s in (s', remote_stop reply r))"

text \<open>The client shows what the server does: both log or none does, and while they do, the path
  is the same.\<close>

definition mirrors :: "'w service \<times> remote_log \<Rightarrow> bool" where
  "mirrors sr \<longleftrightarrow>
     (case sr of (s, r) \<Rightarrow> rl_logging r = st_active (fill_log_status (sv_log s))
        \<and> (rl_logging r \<longrightarrow> rl_path r = st_path (fill_log_status (sv_log s))))"

interpretation remote: log_control "client_start M make_path now" client_stop "\<lambda>sr. rl_logging (snd sr)" "\<lambda>sr. rl_path (snd sr)" mirrors
  by unfold_locales
    (auto simp: mirrors_def client_start_def client_stop_def start_log_def stop_log_def remote_start_def remote_stop_def
      reply_status_def fill_log_status_def no_status_def lc_stop_def lc_is_logging_def lc_current_path_def lc_start_def Let_def
      split: prod.splits option.splits sum.splits if_splits)

section \<open>Properties\<close>

lemma sub_reachable_ok: "sub_step\<^sup>*\<^sup>* (mk_subscriber i, []) st \<Longrightarrow> sub_ok st"
  by (rule sub_sys.inv_reachable) auto

text \<open>C9: a subscriber receives, in order and without loss or repetition, a prefix of the frames
  broadcast to it; when it waits for more and has not been told to end, it has received all of
  them.\<close>

theorem subscriber_delivers:
  assumes "sub_step\<^sup>*\<^sup>* (mk_subscriber i, []) (s, h)"
  shows "(\<exists>rest. h = sub_written s @ rest) \<and> (sub_pc s = W_blocked \<and> \<not> sub_done s \<longrightarrow> sub_written s = h)"
  using sub_reachable_ok [OF assms] by (auto simp: sub_ok_def in_flight_def)

definition ex_raw :: raw_can_frame where
  "ex_raw = \<lparr>rc_interface = ''vcan0'', rc_can_id = 1, rc_dlc = 1, rc_data = [7], rc_timestamp_us = 0\<rparr>"

lemmas sub_run_simps = sub_step_simps mk_subscriber_def push_frame_def wants_def notify_def holds_lock_def shutdown_sub_def ex_raw_def

lemma ex_delivered:
  "sub_step\<^sup>*\<^sup>* (mk_subscriber [], [])
     ((mk_subscriber [])\<lparr>sub_pc := W_blocked, sub_written := [ex_raw]\<rparr>, [ex_raw])"
proof -
  let ?s = "mk_subscriber []"
  have 1: "sub_step (?s, []) (?s\<lparr>sub_queue := [ex_raw]\<rparr>, [ex_raw])"
    using sub_step.broadcast [of ?s "[]" ex_raw] by (simp add: mk_subscriber_def push_frame_def wants_def notify_def holds_lock_def)
  have 2: "sub_step (?s\<lparr>sub_queue := [ex_raw]\<rparr>, [ex_raw]) (?s\<lparr>sub_queue := [ex_raw], sub_pc := W_pred\<rparr>, [ex_raw])"
    by (simp add: sub_step_simps mk_subscriber_def)
  have 3: "sub_step (?s\<lparr>sub_queue := [ex_raw], sub_pc := W_pred\<rparr>, [ex_raw]) (?s\<lparr>sub_queue := [ex_raw], sub_pc := W_drain\<rparr>, [ex_raw])"
    by (simp add: sub_step_simps mk_subscriber_def)
  have 4: "sub_step (?s\<lparr>sub_queue := [ex_raw], sub_pc := W_drain\<rparr>, [ex_raw]) (?s\<lparr>sub_pc := W_write ex_raw\<rparr>, [ex_raw])"
    by (simp add: sub_step_simps mk_subscriber_def)
  have 5: "sub_step (?s\<lparr>sub_pc := W_write ex_raw\<rparr>, [ex_raw]) (?s\<lparr>sub_pc := W_drain, sub_written := [ex_raw]\<rparr>, [ex_raw])"
    by (simp add: sub_step_simps mk_subscriber_def)
  have 6: "sub_step (?s\<lparr>sub_pc := W_drain, sub_written := [ex_raw]\<rparr>, [ex_raw]) (?s\<lparr>sub_written := [ex_raw]\<rparr>, [ex_raw])"
    by (simp add: sub_step_simps mk_subscriber_def)
  have 7: "sub_step (?s\<lparr>sub_written := [ex_raw]\<rparr>, [ex_raw]) (?s\<lparr>sub_pc := W_pred, sub_written := [ex_raw]\<rparr>, [ex_raw])"
    by (simp add: sub_step_simps mk_subscriber_def)
  have 8: "sub_step (?s\<lparr>sub_pc := W_pred, sub_written := [ex_raw]\<rparr>, [ex_raw]) (?s\<lparr>sub_pc := W_about, sub_written := [ex_raw]\<rparr>, [ex_raw])"
    by (simp add: sub_step_simps mk_subscriber_def)
  have 9: "sub_step (?s\<lparr>sub_pc := W_about, sub_written := [ex_raw]\<rparr>, [ex_raw]) (?s\<lparr>sub_pc := W_blocked, sub_written := [ex_raw]\<rparr>, [ex_raw])"
    by (simp add: sub_step_simps mk_subscriber_def)
  show ?thesis using 1 2 3 4 5 6 7 8 9 by (meson converse_rtranclp_into_rtranclp r_into_rtranclp)
qed

lemma subscriber_delivers_witness:
  "\<exists>(s :: subscriber) h. (\<exists>rest. h = sub_written s @ rest) \<and> sub_written s = h \<and> h = [ex_raw] \<and> sub_pc s = W_blocked"
proof -
  let ?s = "(mk_subscriber [])\<lparr>sub_pc := W_blocked, sub_written := [ex_raw]\<rparr>"
  from subscriber_delivers [OF ex_delivered] have "\<exists>rest. [ex_raw] = sub_written ?s @ rest" "sub_written ?s = [ex_raw]"
    by (simp_all add: mk_subscriber_def)
  then show ?thesis by (intro exI [of _ ?s] exI [of _ "[ex_raw]"]) (simp add: mk_subscriber_def)
qed

text \<open>\<open>shutdown\<close> may be lost. It sets \<open>done\<close> and notifies without taking the subscriber's
  mutex, so it can fall between the test of the predicate and the block: the thread then sleeps
  with \<open>done\<close> set, and nothing but another broadcast or shutdown can move it.\<close>

theorem shutdown_lost_wakeup:
  "\<exists>s. sub_step\<^sup>*\<^sup>* (mk_subscriber i, []) (s, []) \<and> sub_done s \<and> sub_pc s = W_blocked
     \<and> (\<forall>s' h'. sub_step (s, []) (s', h') = ((s' = shutdown_sub s \<and> h' = [])
          \<or> (\<exists>p. s' = push_frame p s \<and> h' = (if wants s (rc_interface p) then [p] else []))))"
proof -
  let ?s = "mk_subscriber i" and ?b = "(mk_subscriber i)\<lparr>sub_done := True, sub_pc := W_blocked\<rparr>"
  have 1: "sub_step (?s, []) (?s\<lparr>sub_pc := W_pred\<rparr>, [])" by (simp add: sub_step_simps mk_subscriber_def)
  have 2: "sub_step (?s\<lparr>sub_pc := W_pred\<rparr>, []) (?s\<lparr>sub_pc := W_about\<rparr>, [])" by (simp add: sub_step_simps mk_subscriber_def)
  have 3: "sub_step (?s\<lparr>sub_pc := W_about\<rparr>, []) (?s\<lparr>sub_done := True, sub_pc := W_about\<rparr>, [])"
    by (simp add: sub_step_simps mk_subscriber_def shutdown_sub_def notify_def)
  have 4: "sub_step (?s\<lparr>sub_done := True, sub_pc := W_about\<rparr>, []) (?b, [])" by (simp add: sub_step_simps mk_subscriber_def)
  have "sub_step\<^sup>*\<^sup>* (?s, []) (?b, [])"
    using 1 2 3 4 by (meson converse_rtranclp_into_rtranclp r_into_rtranclp)
  moreover have "sub_pc ?b = W_blocked" "sub_done ?b" by (simp_all add: mk_subscriber_def)
  moreover have "sub_step (?b, []) (s', h') = ((s' = shutdown_sub ?b \<and> h' = [])
      \<or> (\<exists>p. s' = push_frame p ?b \<and> h' = (if wants ?b (rc_interface p) then [p] else [])))" for s' h'
    by (auto simp: sub_step_simps holds_lock_def)
  ultimately show ?thesis by blast
qed


definition ex_logging :: "unit service" where
  "ex_logging = \<lparr>sv_subscribers = [], sv_send_fn = True, sv_log = Some \<lparr>
     lc_logger = Some \<lparr>ml_writer = (), ml_channels = Map.empty, ml_schemas = Map.empty\<rparr>, lc_path = ''a.mcap'',
     lc_start_time = 0, lc_last_ts = Map.empty\<rparr>\<rparr>"


text \<open>A frame broadcast by a server reaches the client's handlers with its id, length and
  bytes, under the interface the client subscribed to and with the client's own receive time; the
  time the server sent along is not used.\<close>

theorem stream_frame_forwarded:
  "let f' = grpc_to_frame interface now (to_proto now_us frame)
   in hdr_id (fr_header f') = hdr_id (fr_header frame) \<and> hdr_dlc (fr_header f') = hdr_dlc (fr_header frame)
     \<and> fr_payload f' = fr_payload frame \<and> hdr_interface (fr_header f') = interface \<and> fr_timestamp f' = now
     \<and> (wants \<lparr>sub_filter = interface, sub_queue = q, sub_done = d, sub_pc = pc, sub_written = w\<rparr> (rc_interface (to_proto now_us frame))
         = (interface = [] \<or> hdr_interface (fr_header frame) = interface))"
  by (auto simp: Let_def grpc_to_frame_def to_proto_def mk_can_frame_def wants_def ucast_widen_back)

end
