(* ===== verification/Console.thy ===== *)
theory Console
  imports TextFmt
begin

text \<open>
  \<open>src/compat/print.hpp\<close>: \<open>std::println\<close> where the library has none. A stream is the text written
  to it so far; the formatting itself is done by the callers.
\<close>

definition println :: "string \<Rightarrow> string \<Rightarrow> string" where
  "println s out = out @ s @ [CHR 0x0A]"

text \<open>The lines of a text; a last line without its newline counts.\<close>

fun lines :: "string \<Rightarrow> string list" where
  "lines [] = []"
| "lines (c # s) =
     (if c = CHR 0x0A then [] # lines s
      else (case lines s of [] \<Rightarrow> [[c]] | l # ls \<Rightarrow> (c # l) # ls))"

lemma lines_line: "CHR 0x0A \<notin> set s \<Longrightarrow> lines (s @ CHR 0x0A # t) = s # lines t"
  by (induction s) auto

lemma lines_nonempty: "s \<noteq> [] \<Longrightarrow> lines s \<noteq> []"
  by (cases s) (auto split: list.split)

text \<open>A stream that ends with a complete line gets one line more from a text without newlines.\<close>

lemma lines_complete: "lines (t @ CHR 0x0A # u) = lines (t @ [CHR 0x0A]) @ lines u"
  by (induction t) (auto split: list.split simp: lines_nonempty)

lemma lines_println:
  assumes "CHR 0x0A \<notin> set s" "out = [] \<or> last out = CHR 0x0A"
  shows "lines (println s out) = lines out @ [s]"
proof (cases out rule: rev_cases)
  case (snoc t c)
  with assms(2) have "out = t @ [CHR 0x0A]" by simp
  then show ?thesis using lines_complete [of t "s @ [CHR 0x0A]"] lines_line [OF assms(1), of "[]"] by (simp add: println_def)
qed (use lines_line [OF assms(1), of "[]"] in \<open>simp add: println_def\<close>)

end
