(* ===== verification/CanServer.thy ===== *)
theory CanServer
  imports CanStream Console
begin

text \<open>
  \<open>src/grpc/CanStreamServer\<close>: the server around the service, and how it ends. The destructor
  tells every subscriber to leave, shuts the gRPC server down, which takes no more calls and
  waits for those under way, and joins the server thread.
\<close>

section \<open>How a subscriber leaves\<close>

fun sub_rank :: "sub_pc \<Rightarrow> nat" where
  "sub_rank W_exit = 0" | "sub_rank W_check = 1" | "sub_rank W_drain = 2" | "sub_rank W_pred = 3" | "sub_rank (W_write _) = 3"
| "sub_rank W_woken = 4" | "sub_rank W_blocked = 5" | "sub_rank W_about = 6"

text \<open>Told to leave, and not asleep or about to fall asleep.\<close>

definition leaving :: "subscriber \<Rightarrow> bool" where
  "leaving s \<longleftrightarrow> sub_done s \<and> sub_pc s \<noteq> W_about \<and> sub_pc s \<noteq> W_blocked"

lemma leaving_shutdown: "leaving (shutdown_sub s) \<longleftrightarrow> sub_pc s \<noteq> W_about"
  by (simp add: leaving_def shutdown_sub_def notify_def)

lemma leaving_step: "thread_step s s' \<Longrightarrow> leaving s \<Longrightarrow> leaving s' \<and> sub_rank (sub_pc s') < sub_rank (sub_pc s)"
  by (induction rule: thread_step.induct) (auto simp: leaving_def)

lemma leaving_moves: "leaving s \<Longrightarrow> sub_pc s \<noteq> W_exit \<Longrightarrow> \<exists>s'. thread_step s s'"
  by (cases "sub_pc s") (auto simp: leaving_def thread_step_simps)

lemma leaving_rank: "leaving s \<Longrightarrow> sub_rank (sub_pc s) \<le> 4"
  by (cases "sub_pc s") (auto simp: leaving_def)

lemma leaving_run: "(thread_step ^^ n) s s' \<Longrightarrow> leaving s \<Longrightarrow> leaving s' \<and> sub_rank (sub_pc s') + n \<le> sub_rank (sub_pc s)"
proof (induction n arbitrary: s')
  case (Suc n)
  then obtain u where "(thread_step ^^ n) s u" "thread_step u s'" by auto
  with Suc.IH Suc.prems(2) leaving_step [of u s'] show ?case by fastforce
qed simp

lemma exited_stays: "sub_pc s = W_exit \<Longrightarrow> \<not> thread_step s s'"
  by (simp add: thread_step_simps)

section \<open>The server\<close>

definition server_address :: "16 word \<Rightarrow> string" where
  "server_address port = ''0.0.0.0:'' @ dec_of_nat (unat port)"

text \<open>\<open>Sv_told\<close>: the service has been shut down; \<open>Sv_closing\<close>: in the gRPC server's \<open>Shutdown\<close>.\<close>

datatype server_phase = Sv_serving | Sv_told | Sv_closing | Sv_joined

record 'w server =
  cs_service :: "'w service"
  cs_phase :: server_phase
  cs_out :: string

definition mk_server :: "16 word \<Rightarrow> string \<Rightarrow> 'w server" where
  "mk_server port out =
     \<lparr>cs_service = \<lparr>sv_subscribers = [], sv_send_fn = False, sv_log = None\<rparr>, cs_phase = Sv_serving,
      cs_out = println (''gRPC server listening on '' @ server_address port) out\<rparr>"

definition cs_subs :: "'w server \<Rightarrow> subscriber list" where
  "cs_subs c = sv_subscribers (cs_service c)"

definition with_subs :: "subscriber list \<Rightarrow> 'w server \<Rightarrow> 'w server" where
  "with_subs subs c = c\<lparr>cs_service := (cs_service c)\<lparr>sv_subscribers := subs\<rparr>\<rparr>"

definition server_broadcast :: "int \<Rightarrow> can_frame \<Rightarrow> 'w server \<Rightarrow> 'w server" where
  "server_broadcast now_us frame c = c\<lparr>cs_service := broadcast now_us frame (cs_service c)\<rparr>"

text \<open>The steps of the destructor and of the calls under way.\<close>

inductive server_end :: "'w server \<Rightarrow> 'w server \<Rightarrow> bool" where
  thread: "i < length (cs_subs c) \<Longrightarrow> thread_step (cs_subs c ! i) s' \<Longrightarrow> server_end c (with_subs ((cs_subs c)[i := s']) c)"
| retire: "i < length (cs_subs c) \<Longrightarrow> sub_pc (cs_subs c ! i) = W_exit \<Longrightarrow> server_end c (with_subs (erase_idx i (cs_subs c)) c)"
| close: "cs_phase c = Sv_told \<Longrightarrow> server_end c (c\<lparr>cs_phase := Sv_closing\<rparr>)"
| join: "cs_phase c = Sv_closing \<Longrightarrow> cs_subs c = [] \<Longrightarrow> server_end c (c\<lparr>cs_phase := Sv_joined\<rparr>)"

text \<open>Everything that can happen to a server: calls also arrive until it closes.\<close>

inductive server_step :: "'w server \<Rightarrow> 'w server \<Rightarrow> bool" where
  runs: "server_end c c' \<Longrightarrow> server_step c c'"
| subscribe: "cs_phase c = Sv_serving \<or> cs_phase c = Sv_told \<Longrightarrow> server_step c (with_subs (cs_subs c @ [mk_subscriber i]) c)"
| frame: "cs_phase c = Sv_serving \<Longrightarrow> (\<And>s. s \<in> set (cs_subs c) \<Longrightarrow> wants s (hdr_interface (fr_header f)) \<Longrightarrow> \<not> holds_lock (sub_pc s))
    \<Longrightarrow> server_step c (server_broadcast now_us f c)"
| tell: "cs_phase c = Sv_serving \<Longrightarrow> server_step c (c\<lparr>cs_service := sv_shutdown (cs_service c), cs_phase := Sv_told\<rparr>)"

inductive_simps server_end_simps: "server_end c c'"

section \<open>The end of the server\<close>

definition tell_all :: "'w server \<Rightarrow> 'w server" where
  "tell_all c = c\<lparr>cs_service := sv_shutdown (cs_service c), cs_phase := Sv_told\<rparr>"

lemma subs_simps [simp]:
  "cs_subs (with_subs subs c) = subs" "cs_phase (with_subs subs c) = cs_phase c"
  "cs_subs (c\<lparr>cs_phase := p\<rparr>) = cs_subs c"
  "cs_subs (tell_all c) = map shutdown_sub (cs_subs c)" "cs_phase (tell_all c) = Sv_told"
  by (simp_all add: cs_subs_def with_subs_def tell_all_def sv_shutdown_def)

fun phase_rank :: "server_phase \<Rightarrow> nat" where
  "phase_rank Sv_serving = 3" | "phase_rank Sv_told = 2" | "phase_rank Sv_closing = 1" | "phase_rank Sv_joined = 0"

definition end_left :: "'w server \<Rightarrow> nat" where
  "end_left c = sum_list (map (\<lambda>s. Suc (sub_rank (sub_pc s))) (cs_subs c)) + phase_rank (cs_phase c)"

definition ending :: "'w server \<Rightarrow> bool" where
  "ending c \<longleftrightarrow> list_all leaving (cs_subs c) \<and> cs_phase c \<noteq> Sv_serving \<and> (cs_phase c = Sv_joined \<longrightarrow> cs_subs c = [])"

lemma sum_list_smaller: "i < length xs \<Longrightarrow> f y < f (xs ! i) \<Longrightarrow> sum_list (map f (xs[i := y])) < (sum_list (map f xs) :: nat)"
  by (induction xs arbitrary: i) (auto split: nat.split simp: nth_Cons')

lemma sum_list_erase: "i < length xs \<Longrightarrow> 0 < f (xs ! i) \<Longrightarrow> sum_list (map f (erase_idx i xs)) < (sum_list (map f xs) :: nat)"
proof -
  assume i: "i < length xs" "0 < f (xs ! i)"
  have "sum_list (map f xs) = sum_list (map f (take i xs)) + f (xs ! i) + sum_list (map f (drop (Suc i) xs))"
    by (subst erase_idx_split [OF i(1)]) simp
  with i show ?thesis by (simp add: erase_idx_def)
qed

lemma ending_step: "server_end c c' \<Longrightarrow> ending c \<Longrightarrow> ending c' \<and> end_left c' < end_left c"
proof (induction rule: server_end.induct)
  case (thread i c s')
  from thread have "leaving (cs_subs c ! i)" by (simp add: ending_def list_all_length)
  from leaving_step [OF thread(2) this] have s': "leaving s'" "sub_rank (sub_pc s') < sub_rank (sub_pc (cs_subs c ! i))" by auto
  have "list_all leaving ((cs_subs c)[i := s'])"
    using thread(3) s'(1) by (auto simp: ending_def list_all_iff dest: set_update_subset_insert [THEN subsetD])
  with thread s'(2) sum_list_smaller [of i "cs_subs c" "\<lambda>s. Suc (sub_rank (sub_pc s))" s'] show ?case
    by (auto simp: ending_def end_left_def)
next
  case (retire i c)
  have "list_all leaving (erase_idx i (cs_subs c))"
    using retire(3) set_erase_idx [of i "cs_subs c"] by (auto simp: ending_def list_all_iff)
  with retire sum_list_erase [of i "cs_subs c" "\<lambda>s. Suc (sub_rank (sub_pc s))"] show ?case
    by (auto simp: ending_def end_left_def erase_idx_def)
qed (auto simp: ending_def end_left_def)

lemma ending_moves: "ending c \<Longrightarrow> cs_phase c \<noteq> Sv_joined \<Longrightarrow> \<exists>c'. server_end c c'"
proof -
  assume c: "ending c" "cs_phase c \<noteq> Sv_joined"
  show ?thesis
  proof (cases "cs_phase c = Sv_told")
    case True
    then show ?thesis using server_end.close by blast
  next
    case False
    with c have closing: "cs_phase c = Sv_closing" by (cases "cs_phase c") (auto simp: ending_def)
    show ?thesis
    proof (cases "cs_subs c")
      case Nil
      then show ?thesis using server_end.join closing by blast
    next
      case (Cons s ss)
      then have 0: "0 < length (cs_subs c)" "cs_subs c ! 0 = s" "leaving s" using c by (auto simp: ending_def)
      show ?thesis
      proof (cases "sub_pc s = W_exit")
        case True
        then show ?thesis using server_end.retire [OF 0(1)] 0(2) by blast
      next
        case False
        then obtain s' where "thread_step s s'" using leaving_moves [OF 0(3)] by blast
        then show ?thesis using server_end.thread [OF 0(1)] 0(2) by blast
      qed
    qed
  qed
qed

lemma ending_run: "server_end\<^sup>*\<^sup>* c c' \<Longrightarrow> ending c \<Longrightarrow> ending c'"
  by (induction rule: rtranclp_induct) (auto dest: ending_step)

lemma ending_tell: "list_all (\<lambda>s. sub_pc s \<noteq> W_about) (cs_subs c) \<Longrightarrow> ending (tell_all c)"
  by (auto simp: ending_def list_all_iff leaving_shutdown)

section \<open>Properties\<close>

text \<open>C27: A subscriber told to leave ends within four steps of its thread, unless it was told between
  the test of its predicate and the block: then, and only then, its thread may fall asleep with
  nothing left to wake it but another frame.\<close>

theorem shutdown_ends_iff:
  "(\<forall>n s'. (thread_step ^^ n) (shutdown_sub s) s' \<longrightarrow> n \<le> 4 \<and> (sub_pc s' = W_exit \<or> (\<exists>s''. thread_step s' s''))) \<longleftrightarrow> sub_pc s \<noteq> W_about"
proof
  assume all: "\<forall>n s'. (thread_step ^^ n) (shutdown_sub s) s' \<longrightarrow> n \<le> 4 \<and> (sub_pc s' = W_exit \<or> (\<exists>s''. thread_step s' s''))"
  show "sub_pc s \<noteq> W_about"
  proof
    assume "sub_pc s = W_about"
    then have "sub_pc (shutdown_sub s) = W_about" by (simp add: shutdown_sub_def notify_def)
    from thread_step.block [OF this] have "(thread_step ^^ 1) (shutdown_sub s) ((shutdown_sub s)\<lparr>sub_pc := W_blocked\<rparr>)"
      by (simp only: relpowp_1)
    with all have "sub_pc ((shutdown_sub s)\<lparr>sub_pc := W_blocked\<rparr>) = W_exit \<or> (\<exists>s''. thread_step ((shutdown_sub s)\<lparr>sub_pc := W_blocked\<rparr>) s'')"
      by blast
    then show False by (simp add: thread_step_simps)
  qed
next
  assume "sub_pc s \<noteq> W_about"
  then have l: "leaving (shutdown_sub s)" by (simp add: leaving_shutdown)
  show "\<forall>n s'. (thread_step ^^ n) (shutdown_sub s) s' \<longrightarrow> n \<le> 4 \<and> (sub_pc s' = W_exit \<or> (\<exists>s''. thread_step s' s''))"
  proof (intro allI impI)
    fix n s' assume "(thread_step ^^ n) (shutdown_sub s) s'"
    from leaving_run [OF this l] have "leaving s'" "sub_rank (sub_pc s') + n \<le> sub_rank (sub_pc (shutdown_sub s))" by auto
    with leaving_rank [OF l] leaving_moves [of s'] show "n \<le> 4 \<and> (sub_pc s' = W_exit \<or> (\<exists>s''. thread_step s' s''))" by fastforce
  qed
qed

theorem shutdown_ends_iff_witness: "\<exists>s'. thread_step (shutdown_sub (mk_subscriber [])) s'"
proof -
  have "sub_pc (mk_subscriber []) \<noteq> W_about" by (simp add: mk_subscriber_def)
  with shutdown_ends_iff [of "mk_subscriber []"]
  have "(thread_step ^^ 0) (shutdown_sub (mk_subscriber [])) (shutdown_sub (mk_subscriber []))
      \<longrightarrow> sub_pc (shutdown_sub (mk_subscriber [])) = W_exit \<or> (\<exists>s''. thread_step (shutdown_sub (mk_subscriber [])) s'')"
    by blast
  then show ?thesis by (simp add: shutdown_sub_def notify_def mk_subscriber_def)
qed

text \<open>The destructor ends when no subscriber is between its predicate and its block as it is told to
  leave, and no call arrives afterwards: it is never stuck, and each step brings it closer.\<close>

theorem server_stop_ends:
  assumes "list_all (\<lambda>s. sub_pc s \<noteq> W_about) (cs_subs c)" "server_end\<^sup>*\<^sup>* (tell_all c) c'"
  shows "(cs_phase c' = Sv_joined \<or> (\<exists>c''. server_end c' c'')) \<and> (\<forall>c''. server_end c' c'' \<longrightarrow> end_left c'' < end_left c')"
proof -
  have e: "ending c'" using ending_run [OF assms(2)] ending_tell [OF assms(1)] .
  with ending_moves [OF e] ending_step [OF _ e] show ?thesis by blast
qed

theorem server_stop_ends_witness:
  "\<exists>c'. server_end (tell_all (mk_server 50051 [] :: unit server)) c' \<and> end_left c' < end_left (tell_all (mk_server 50051 [] :: unit server))"
proof -
  let ?c = "mk_server 50051 [] :: unit server"
  have n: "list_all (\<lambda>s. sub_pc s \<noteq> W_about) (cs_subs ?c)" by (simp add: mk_server_def cs_subs_def)
  from server_stop_ends [OF n rtranclp.rtrancl_refl] show ?thesis by auto
qed

text \<open>A call that arrives after the subscribers were told and before the server closes is told nothing:
  the destructor then waits for it for ever.\<close>

theorem late_subscriber_blocks:
  "\<exists>c :: 'w server. server_step\<^sup>*\<^sup>* (mk_server port []) c \<and> cs_phase c = Sv_closing \<and> (\<nexists>c'. server_step c c')"
proof -
  let ?m = "mk_server port [] :: 'w server" and ?s = "mk_subscriber []"
  let ?at = "\<lambda>pc. with_subs [?s\<lparr>sub_pc := pc\<rparr>] (tell_all ?m)"
  have none: "cs_subs ?m = []" "cs_phase ?m = Sv_serving" by (simp_all add: mk_server_def cs_subs_def)
  have 1: "server_step ?m (tell_all ?m)" using server_step.tell [OF none(2)] by (simp add: tell_all_def)
  have 2: "server_step (tell_all ?m) (with_subs [?s] (tell_all ?m))"
    using server_step.subscribe [of "tell_all ?m" "[]"] none by simp
  have set: "with_subs ((cs_subs (with_subs [u] d))[0 := v]) (with_subs [u] d) = with_subs [v] d" for u v and d :: "'w server"
    by (simp add: with_subs_def cs_subs_def)
  have move: "server_step (with_subs [u] d) (with_subs [v] d)" if "thread_step u v" for u v and d :: "'w server"
    using server_end.thread [of 0 "with_subs [u] d" v] that by (auto intro: server_step.runs simp: with_subs_def cs_subs_def)
  have 3: "server_step (with_subs [?s] (tell_all ?m)) (?at W_pred)"
    by (rule move) (simp add: thread_step_simps mk_subscriber_def)
  have 4: "server_step (?at W_pred) (?at W_about)"
    by (rule move) (simp add: thread_step_simps mk_subscriber_def)
  have 5: "server_step (?at W_about) (?at W_blocked)"
    by (rule move) (simp add: thread_step_simps mk_subscriber_def)
  have 6: "server_step (?at W_blocked) ((?at W_blocked)\<lparr>cs_phase := Sv_closing\<rparr>)"
    by (rule server_step.runs, rule server_end.close) simp
  from 1 2 3 4 5 6 have "server_step\<^sup>*\<^sup>* ?m ((?at W_blocked)\<lparr>cs_phase := Sv_closing\<rparr>)"
    by (meson converse_rtranclp_into_rtranclp r_into_rtranclp)
  moreover have "\<not> server_step ((?at W_blocked)\<lparr>cs_phase := Sv_closing\<rparr>) c'" for c'
    by (auto simp: server_step.simps server_end_simps thread_step_simps)
  ultimately show ?thesis by (intro exI conjI) auto
qed


end
