(* ===== verification/PlayWait.thy ===== *)
theory PlayWait
  imports Playback
begin

text \<open>
  The threads behind \<open>src/playback/PlaybackController.hpp\<close>: the replay thread waits in
  \<open>wait_for_any_running\<close> or \<open>sleep_until\<close> while the user interface toggles, filters and stops.
  Every change is made under the mutex and notified after releasing it, so no wake-up is lost.
\<close>

section \<open>The threads\<close>

text \<open>What the replay thread waits for, and when that wait is over.\<close>

datatype wait_kind = For_running | For_time int

fun wait_over :: "wait_kind \<Rightarrow> playback \<Rightarrow> bool" where
  "wait_over For_running c = running_wakes c"
| "wait_over (For_time tp) c = sleep_result c"

text \<open>
  \<open>P_test\<close> evaluates the predicate and \<open>P_about\<close> is between a false predicate and the block, both
  with the mutex held; \<open>P_woken\<close> was notified and \<open>P_expired\<close> timed out, and both have to take
  the mutex again. A sleep that timed out returns whatever the predicate says.
\<close>

datatype play_pc = P_free | P_test wait_kind | P_about wait_kind | P_blocked wait_kind | P_woken wait_kind | P_expired

text \<open>\<open>ps_pending\<close> counts the changes whose \<open>notify_all\<close> has not been called yet.\<close>

record play_sync =
  ps_ctl :: playback
  ps_pc :: play_pc
  ps_pending :: nat
  ps_clock :: int

definition ps_start :: "string list \<Rightarrow> int \<Rightarrow> play_sync" where
  "ps_start interfaces now = \<lparr>ps_ctl = mk_playback interfaces, ps_pc = P_free, ps_pending = 0, ps_clock = now\<rparr>"

definition reader_locks :: "play_pc \<Rightarrow> bool" where
  "reader_locks pc \<longleftrightarrow> (\<exists>k. pc = P_test k \<or> pc = P_about k)"

definition wake :: "play_pc \<Rightarrow> play_pc" where
  "wake pc = (case pc of P_blocked k \<Rightarrow> P_woken k | _ \<Rightarrow> pc)"

text \<open>The steps of the replay thread, and the \<open>notify_all\<close> a change still owes.\<close>

inductive wait_step :: "play_sync \<Rightarrow> play_sync \<Rightarrow> bool" where
  returns: "ps_pc s = P_test k \<Longrightarrow> wait_over k (ps_ctl s) \<Longrightarrow> wait_step s (s\<lparr>ps_pc := P_free\<rparr>)"
| waits: "ps_pc s = P_test k \<Longrightarrow> \<not> wait_over k (ps_ctl s) \<Longrightarrow> wait_step s (s\<lparr>ps_pc := P_about k\<rparr>)"
| blocks: "ps_pc s = P_about k \<Longrightarrow> wait_step s (s\<lparr>ps_pc := P_blocked k\<rparr>)"
| relocks: "ps_pc s = P_woken k \<Longrightarrow> wait_step s (s\<lparr>ps_pc := P_test k\<rparr>)"
| expires: "ps_pc s = P_blocked (For_time tp) \<Longrightarrow> tp \<le> ps_clock s \<Longrightarrow> wait_step s (s\<lparr>ps_pc := P_expired\<rparr>)"
| expired: "ps_pc s = P_expired \<Longrightarrow> wait_step s (s\<lparr>ps_pc := P_free\<rparr>)"
| notifies: "ps_pending s = Suc n \<Longrightarrow> wait_step s (s\<lparr>ps_pending := n, ps_pc := wake (ps_pc s)\<rparr>)"

text \<open>All steps: the replay thread calls a wait, the user interface changes the controller, the
  condition variable wakes without a reason, and time passes.\<close>

inductive play_step :: "play_sync \<Rightarrow> play_sync \<Rightarrow> bool" where
  own: "wait_step s s' \<Longrightarrow> play_step s s'"
| calls: "ps_pc s = P_free \<Longrightarrow> play_step s (s\<lparr>ps_pc := P_test k\<rparr>)"
| toggles: "\<not> reader_locks (ps_pc s) \<Longrightarrow> play_step s (s\<lparr>ps_ctl := pb_toggle i (ps_ctl s), ps_pending := Suc (ps_pending s)\<rparr>)"
| stops: "\<not> reader_locks (ps_pc s) \<Longrightarrow> play_step s (s\<lparr>ps_ctl := pb_stop (ps_ctl s), ps_pending := Suc (ps_pending s)\<rparr>)"
| filters: "\<not> reader_locks (ps_pc s) \<Longrightarrow> toggle_message i n (ps_ctl s) = Some c \<Longrightarrow> play_step s (s\<lparr>ps_ctl := c\<rparr>)"
| spurious: "play_step s (s\<lparr>ps_pc := wake (ps_pc s)\<rparr>)"
| passes: "0 \<le> d \<Longrightarrow> play_step s (s\<lparr>ps_clock := ps_clock s + d\<rparr>)"

inductive_simps wait_step_simps: "wait_step s s'"
inductive_simps play_step_simps: "play_step s s'"

section \<open>No wake-up is lost\<close>

definition wait_ok :: "play_sync \<Rightarrow> bool" where
  "wait_ok s \<longleftrightarrow>
     (\<forall>k. ps_pc s = P_about k \<longrightarrow> \<not> wait_over k (ps_ctl s))
     \<and> (\<forall>k. ps_pc s = P_blocked k \<and> wait_over k (ps_ctl s) \<longrightarrow> 0 < ps_pending s)"

lemma toggle_message_states:
  "toggle_message i n c = Some c' \<Longrightarrow> pb_states c' = pb_states c \<and> pb_stopped c' = pb_stopped c"
  by (auto simp: toggle_message_def Let_def bind_eq_Some_conv split: option.splits if_splits)

lemma wait_over_filter: "toggle_message i n c = Some c' \<Longrightarrow> wait_over k c' = wait_over k c"
  by (cases k) (auto simp: running_wakes_def sleep_result_def dest: toggle_message_states)

lemma wake_simps [simp]: "wake pc \<noteq> P_blocked k" "wake pc = P_about k \<longleftrightarrow> pc = P_about k"
  by (simp_all add: wake_def split: play_pc.split)

lemma wait_step_ok: "wait_step s s' \<Longrightarrow> wait_ok s \<Longrightarrow> wait_ok s'"
  by (induction rule: wait_step.induct) (auto simp: wait_ok_def)

lemma play_step_ok: "play_step s s' \<Longrightarrow> wait_ok s \<Longrightarrow> wait_ok s'"
proof (induction rule: play_step.induct)
  case (own s s')
  then show ?case using wait_step_ok by blast
next
  case (filters s i n c)
  then show ?case using wait_over_filter [OF filters(2)] by (auto simp: wait_ok_def)
qed (auto simp: wait_ok_def reader_locks_def)

interpretation play_sys: safe_system "\<lambda>s. \<exists>ifs now. s = ps_start ifs now" play_step wait_ok
proof
  show "\<exists>ifs now. s = ps_start ifs now \<Longrightarrow> wait_ok s" for s by (auto simp: wait_ok_def ps_start_def)
qed (rule play_step_ok)

text \<open>How far the replay thread is from the end of a wait that is over.\<close>

fun pc_rank :: "play_pc \<Rightarrow> nat" where
  "pc_rank P_free = 0" | "pc_rank (P_test _) = 1" | "pc_rank P_expired = 1" | "pc_rank (P_woken _) = 2"
| "pc_rank (P_blocked _) = 3" | "pc_rank (P_about _) = 4"

definition wait_left :: "play_sync \<Rightarrow> nat" where
  "wait_left s = pc_rank (ps_pc s) + ps_pending s"

text \<open>The kind of wait the thread is in.\<close>

fun waiting :: "play_pc \<Rightarrow> wait_kind option" where
  "waiting P_free = None" | "waiting P_expired = None" | "waiting (P_test k) = Some k" | "waiting (P_about k) = Some k"
| "waiting (P_blocked k) = Some k" | "waiting (P_woken k) = Some k"

lemma waiting_wake [simp]: "waiting (wake pc) = waiting pc"
  by (simp add: wake_def split: play_pc.split)

lemma rank_wake: "pc_rank (wake pc) \<le> pc_rank pc"
  by (simp add: wake_def split: play_pc.split)

lemma wait_progress:
  assumes "wait_ok s" "ps_pc s \<noteq> P_free" "\<And>k. waiting (ps_pc s) = Some k \<Longrightarrow> wait_over k (ps_ctl s)"
  shows "\<exists>s'. wait_step s s'"
proof (cases "ps_pc s")
  case (P_blocked k)
  with assms have "0 < ps_pending s" by (auto simp: wait_ok_def)
  then obtain n where "ps_pending s = Suc n" using gr0_conv_Suc by blast
  from wait_step.notifies [OF this] show ?thesis by blast
qed (use assms in \<open>auto simp: wait_ok_def wait_step_simps\<close>)

lemma wait_decreases:
  assumes "wait_step s s'" "wait_ok s" "\<And>k. waiting (ps_pc s) = Some k \<Longrightarrow> wait_over k (ps_ctl s)"
  shows "wait_left s' < wait_left s"
  using assms
proof (induction rule: wait_step.induct)
  case (notifies s n)
  then show ?case using rank_wake [of "ps_pc s"] by (simp add: wait_left_def)
qed (auto simp: wait_left_def wait_ok_def)

lemma wait_keeps:
  "wait_step s s' \<Longrightarrow> ps_ctl s' = ps_ctl s \<and> (\<forall>k. waiting (ps_pc s') = Some k \<longrightarrow> waiting (ps_pc s) = Some k)"
  by (induction rule: wait_step.induct) auto

section \<open>Properties\<close>

text \<open>C11: No wake-up of the replay thread is lost: once what it waits for holds (an interface runs or
  the playback was stopped), its wait returns after boundedly many steps of its own and of the
  notifications under way, whatever happened before; in particular it is never blocked for good.\<close>

theorem playback_wait_ends:
  assumes "play_step\<^sup>*\<^sup>* (ps_start ifs now) s" "\<And>k. waiting (ps_pc s) = Some k \<Longrightarrow> wait_over k (ps_ctl s)"
  shows "(ps_pc s \<noteq> P_free \<longrightarrow> (\<exists>s'. wait_step s s'))
    \<and> (\<forall>s'. wait_step s s' \<longrightarrow> wait_left s' < wait_left s \<and> (\<forall>k. waiting (ps_pc s') = Some k \<longrightarrow> wait_over k (ps_ctl s')))"
proof -
  have ok: "wait_ok s" using play_sys.inv_reachable assms(1) by blast
  show ?thesis using wait_progress [OF ok _ assms(2)] wait_decreases [OF _ ok assms(2)] wait_keeps assms(2) by metis
qed

text \<open>A replay blocked until something runs, when the user starts an interface.\<close>

definition ex_started :: play_sync where
  "ex_started = \<lparr>ps_ctl = pb_toggle ''vcan0'' (mk_playback [''vcan0'']), ps_pc = P_blocked For_running, ps_pending = 1, ps_clock = 0\<rparr>"

lemma ex_started_reachable: "play_step\<^sup>*\<^sup>* (ps_start [''vcan0''] 0) ex_started"
proof -
  let ?s = "ps_start [''vcan0''] 0"
  have idle: "\<not> wait_over For_running (ps_ctl ?s)" by (simp add: running_wakes_def ps_start_def mk_playback_def)
  have 1: "play_step ?s (?s\<lparr>ps_pc := P_test For_running\<rparr>)" by (rule play_step.calls) (simp add: ps_start_def)
  have 2: "play_step (?s\<lparr>ps_pc := P_test For_running\<rparr>) (?s\<lparr>ps_pc := P_about For_running\<rparr>)"
    using wait_step.waits [of "?s\<lparr>ps_pc := P_test For_running\<rparr>" For_running] idle by (auto intro: play_step.own)
  have 3: "play_step (?s\<lparr>ps_pc := P_about For_running\<rparr>) (?s\<lparr>ps_pc := P_blocked For_running\<rparr>)"
    using wait_step.blocks [of "?s\<lparr>ps_pc := P_about For_running\<rparr>" For_running] by (auto intro: play_step.own)
  have 4: "play_step (?s\<lparr>ps_pc := P_blocked For_running\<rparr>) ex_started"
    using play_step.toggles [of "?s\<lparr>ps_pc := P_blocked For_running\<rparr>" "''vcan0''"]
    by (simp add: reader_locks_def ps_start_def ex_started_def)
  from 1 2 3 4 show ?thesis by (meson converse_rtranclp_into_rtranclp r_into_rtranclp)
qed

theorem playback_wait_ends_witness:
  "\<exists>s'. wait_step ex_started s' \<and> wait_left s' < wait_left ex_started"
proof -
  have "wait_over k (ps_ctl ex_started)" if "waiting (ps_pc ex_started) = Some k" for k
    using that by (auto simp: ex_started_def running_wakes_def pb_toggle_def mk_playback_def)
  from playback_wait_ends [OF ex_started_reachable this] show ?thesis
    by (auto simp: ex_started_def)
qed


end
