(* ===== verification/Setup.thy ===== *)
theory Setup
  imports Config Console
begin

text \<open>
  \<open>src/setup\<close> and \<open>src/main.cpp\<close>: bringing the interfaces up by shell commands, and the choice
  of the mode. The host is a parameter: what \<open>if_nametoindex\<close> finds, the first word of an
  \<open>operstate\<close> file, and \<open>std::system\<close>, which changes the host.
\<close>

section \<open>InterfaceSetup\<close>

record 'h host_api =
  h_nametoindex :: "'h \<Rightarrow> string \<Rightarrow> nat"
  h_operstate :: "'h \<Rightarrow> string \<Rightarrow> string option"
  h_system :: "'h \<Rightarrow> string \<Rightarrow> 'h \<times> int"

text \<open>What a setup has done: the host it leaves, the commands it ran, in order, and what it wrote to
  stdout and stderr.\<close>

record 'h setup_state =
  su_host :: 'h
  su_commands :: "string list"
  su_out :: string
  su_err :: string

definition interface_exists :: "'h host_api \<Rightarrow> string \<Rightarrow> 'h \<Rightarrow> bool" where
  "interface_exists H name h \<longleftrightarrow> h_nametoindex H h name \<noteq> 0"

definition interface_is_up :: "'h host_api \<Rightarrow> string \<Rightarrow> 'h \<Rightarrow> bool" where
  "interface_is_up H name h =
     (case h_operstate H h (''/sys/class/net/'' @ name @ ''/operstate'') of
        Some state \<Rightarrow> state = ''up'' \<or> state = ''unknown''
      | None \<Rightarrow> False)"

definition run_command :: "'h host_api \<Rightarrow> string \<Rightarrow> 'h setup_state \<Rightarrow> 'h setup_state \<times> exn option" where
  "run_command H cmd s =
     (let s1 = s\<lparr>su_out := println (''  $ '' @ cmd) (su_out s)\<rparr>;
          (h, rc) = h_system H (su_host s1) cmd; s' = s1\<lparr>su_host := h, su_commands := su_commands s1 @ [cmd]\<rparr>
      in (s', if rc \<noteq> 0 then Some (Exn (''Command failed: '' @ cmd)) else None))"

text \<open>Sequencing: an exception leaves the function.\<close>

definition run_if :: "bool \<Rightarrow> 'h host_api \<Rightarrow> string \<Rightarrow> 'h setup_state \<Rightarrow> 'h setup_state \<times> exn option" where
  "run_if b H cmd s = (if b then run_command H cmd s else (s, None))"

definition add_cmd :: "string \<Rightarrow> string" where "add_cmd name = ''sudo ip link add dev '' @ name @ '' type vcan''"
definition up_cmd :: "string \<Rightarrow> string" where "up_cmd name = ''sudo ip link set up '' @ name"
definition bitrate_cmd :: "string \<Rightarrow> u32 \<Rightarrow> string" where
  "bitrate_cmd name rate = ''sudo ip link set '' @ name @ '' type can bitrate '' @ dec_of_nat (unat rate)"

definition setup_virtual :: "'h host_api \<Rightarrow> interface_config \<Rightarrow> 'h setup_state \<Rightarrow> 'h setup_state \<times> exn option" where
  "setup_virtual H iface s =
     and_then (run_if (\<not> interface_exists H (ic_name iface) (su_host s)) H (add_cmd (ic_name iface)) s) (\<lambda>s.
       run_if (\<not> interface_is_up H (ic_name iface) (su_host s)) H (up_cmd (ic_name iface)) s)"

definition setup_real :: "'h host_api \<Rightarrow> interface_config \<Rightarrow> 'h setup_state \<Rightarrow> 'h setup_state \<times> exn option" where
  "setup_real H iface s =
     (if \<not> interface_exists H (ic_name iface) (su_host s)
      then (s\<lparr>su_err := println (''Warning: interface '' @ ic_name iface @ '' not found, skipping.'') (su_err s)\<rparr>, None)
      else if interface_is_up H (ic_name iface) (su_host s)
      then (s\<lparr>su_out := println (''  '' @ ic_name iface @ '' is already up, skipping.'') (su_out s)\<rparr>, None)
      else and_then (run_if (0 < ic_baudrate iface) H (bitrate_cmd (ic_name iface) (ic_baudrate iface)) s) (\<lambda>s.
             run_command H (up_cmd (ic_name iface)) s))"

definition setup_interfaces :: "'h host_api \<Rightarrow> config \<Rightarrow> 'h setup_state \<Rightarrow> 'h setup_state \<times> exn option" where
  "setup_interfaces H cfg s =
     (if cf_virtual_can cfg
      then and_then (run_command H ''sudo modprobe vcan'' s) (each (setup_virtual H) (cf_interfaces cfg))
      else each (setup_real H) (cf_interfaces cfg) s)"

section \<open>main\<close>

datatype run_mode = Run_playback | Run_tui | Run_gui | Run_live

definition mode_of :: "app_config \<Rightarrow> run_mode" where
  "mode_of app =
     (if app_playback_path app \<noteq> [] then Run_playback
      else if app_tui_mode app then Run_tui
      else if app_gui_mode app then Run_gui
      else Run_live)"

text \<open>\<open>scan\<close> is \<open>McapReader::scan_interfaces\<close>.\<close>

definition detect_interfaces :: "(string \<Rightarrow> string list) \<Rightarrow> app_config \<Rightarrow> app_config" where
  "detect_interfaces scan app =
     (if app_playback_path app \<noteq> [] \<and> cf_interfaces (app_config_file app) = []
      then app\<lparr>app_config_file := (app_config_file app)\<lparr>cf_interfaces := map mk_interface_config (scan (app_playback_path app))\<rparr>\<rparr>
      else app)"

text \<open>The exit code and what is written to stderr; \<open>setup\<close> and \<open>run\<close> give the exception that leaves
  \<open>setup_interfaces\<close> and the mode, if any.\<close>

definition main_prog :: "app_config result \<Rightarrow> (string \<Rightarrow> string list) \<Rightarrow> (config \<Rightarrow> exn option)
    \<Rightarrow> (run_mode \<Rightarrow> app_config \<Rightarrow> exn option) \<Rightarrow> nat \<times> string" where
  "main_prog parsed scan setup run =
     (case parsed of
        Inl e \<Rightarrow> (1, println (''Error loading config: '' @ what e) [])
      | Inr app0 \<Rightarrow>
          (let app = detect_interfaces scan app0; ifs = cf_interfaces (app_config_file app)
           in if ifs = [] \<and> app_playback_path app = []
              then (1, println ''Error: no interfaces specified and no caneo.yaml found.'' [])
              else (case (if ifs \<noteq> [] \<and> app_grpc_client app = [] then setup (app_config_file app) else None) of
                      Some e \<Rightarrow> (1, println (''Error setting up interfaces: '' @ what e) [])
                    | None \<Rightarrow>
                        (case run (mode_of app) app of
                           Some e \<Rightarrow> (1, println (''Error: '' @ what e) [])
                         | None \<Rightarrow> (0, [])))))"

section \<open>Setup as a contract\<close>

text \<open>
  A setup step for one interface, in any mode: it only appends commands, and it stops at the
  first that fails, which its exception names.
\<close>

locale setup_step =
  fixes step :: "interface_config \<Rightarrow> 'h setup_state \<Rightarrow> 'h setup_state \<times> exn option"
    and allowed :: "interface_config \<Rightarrow> string set"
  assumes step_appends: "\<exists>cs. su_commands (fst (step i s)) = su_commands s @ cs \<and> set cs \<subseteq> allowed i
      \<and> (\<forall>e. snd (step i s) = Some e \<longrightarrow> cs \<noteq> [] \<and> e = Exn (''Command failed: '' @ last cs))"
begin

lemma each_appends:
  "\<exists>cs. su_commands (fst (each step is s)) = su_commands s @ cs \<and> set cs \<subseteq> (\<Union>i\<in>set is. allowed i)
     \<and> (\<forall>e. snd (each step is s) = Some e \<longrightarrow> cs \<noteq> [] \<and> e = Exn (''Command failed: '' @ last cs))"
proof (induction "is" arbitrary: s)
  case (Cons i "is")
  obtain s1 r where st: "step i s = (s1, r)" by fastforce
  from step_appends [of i s] st obtain c1 where c1: "su_commands s1 = su_commands s @ c1" "set c1 \<subseteq> allowed i"
    "\<forall>e. r = Some e \<longrightarrow> c1 \<noteq> [] \<and> e = Exn (''Command failed: '' @ last c1)" by auto
  show ?case
  proof (cases r)
    case None
    from Cons.IH [of s1] obtain c2 where c2: "su_commands (fst (each step is s1)) = su_commands s1 @ c2"
      "set c2 \<subseteq> (\<Union>i\<in>set is. allowed i)"
      "\<forall>e. snd (each step is s1) = Some e \<longrightarrow> c2 \<noteq> [] \<and> e = Exn (''Command failed: '' @ last c2)" by auto
    with c1 None st show ?thesis by (intro exI [of _ "c1 @ c2"]) (auto simp: and_then_def)
  next
    case (Some e)
    with c1 st show ?thesis by (intro exI [of _ c1]) (auto simp: and_then_def)
  qed
qed simp

end

lemma run_command_appends:
  "su_commands (fst (run_command H cmd s)) = su_commands s @ [cmd]"
  "snd (run_command H cmd s) = Some e \<Longrightarrow> e = Exn (''Command failed: '' @ cmd)"
  by (auto simp: run_command_def split: prod.splits if_splits)

interpretation virtual: setup_step "setup_virtual H" "\<lambda>i. {add_cmd (ic_name i), up_cmd (ic_name i)}"
  by unfold_locales (auto simp: setup_virtual_def run_if_def and_then_def run_command_def split: prod.splits option.splits)

interpretation real: setup_step "setup_real H" "\<lambda>i. {bitrate_cmd (ic_name i) (ic_baudrate i), up_cmd (ic_name i)}"
  by unfold_locales (auto simp: setup_real_def run_if_def and_then_def run_command_def split: prod.splits option.splits)

section \<open>What setup achieves\<close>

text \<open>
  The documented behaviour of the commands for the interfaces \<open>names\<close>: \<open>ip link add\<close> that
  succeeds creates the link, \<open>ip link set up\<close> on a vcan link that exists makes it report up (or
  unknown), and none of the commands of a virtual setup removes a link or takes it down.
\<close>

definition vcan_laws :: "'h host_api \<Rightarrow> string set \<Rightarrow> bool" where
  "vcan_laws H names \<longleftrightarrow>
     (\<forall>n\<in>names. \<forall>h h'. h_system H h (add_cmd n) = (h', 0) \<longrightarrow> interface_exists H n h')
     \<and> (\<forall>n\<in>names. \<forall>h h'. h_system H h (up_cmd n) = (h', 0) \<longrightarrow> interface_exists H n h \<longrightarrow> interface_is_up H n h')
     \<and> (\<forall>n\<in>names. \<forall>cmd\<in>insert ''sudo modprobe vcan'' (add_cmd ` names \<union> up_cmd ` names). \<forall>h.
          (interface_exists H n h \<longrightarrow> interface_exists H n (fst (h_system H h cmd)))
          \<and> (interface_is_up H n h \<longrightarrow> interface_is_up H n (fst (h_system H h cmd))))"

definition is_ready :: "'h host_api \<Rightarrow> 'h setup_state \<Rightarrow> string \<Rightarrow> bool" where
  "is_ready H s n \<longleftrightarrow> interface_exists H n (su_host s) \<and> interface_is_up H n (su_host s)"

lemma vcan_lawsD:
  assumes "vcan_laws H names" "n \<in> names"
  shows "h_system H h (add_cmd n) = (h', 0) \<Longrightarrow> interface_exists H n h'"
    and "h_system H h (up_cmd n) = (h', 0) \<Longrightarrow> interface_exists H n h \<Longrightarrow> interface_is_up H n h'"
    and "cmd \<in> insert ''sudo modprobe vcan'' (add_cmd ` names \<union> up_cmd ` names) \<Longrightarrow> h_system H h cmd = (h', r)
      \<Longrightarrow> (interface_exists H n h \<longrightarrow> interface_exists H n h') \<and> (interface_is_up H n h \<longrightarrow> interface_is_up H n h')"
  using assms unfolding vcan_laws_def by (blast, blast, metis fst_conv)

lemma run_if_keeps:
  assumes laws: "vcan_laws H names" and n: "n \<in> names"
    and cmd: "cmd \<in> insert ''sudo modprobe vcan'' (add_cmd ` names \<union> up_cmd ` names)" and r: "run_if b H cmd s = (s', r)"
  shows "(interface_exists H n (su_host s) \<longrightarrow> interface_exists H n (su_host s'))
    \<and> (interface_is_up H n (su_host s) \<longrightarrow> interface_is_up H n (su_host s'))"
  using r vcan_lawsD(3) [OF laws n cmd] by (auto simp: run_if_def run_command_def split: if_splits prod.splits)

lemma setup_virtual_keeps:
  assumes laws: "vcan_laws H names" and i: "ic_name i \<in> names" and n: "n \<in> names"
    and r: "setup_virtual H i s = (s', None)" and "is_ready H s n"
  shows "is_ready H s' n"
proof -
  from r obtain s1 where 1: "run_if (\<not> interface_exists H (ic_name i) (su_host s)) H (add_cmd (ic_name i)) s = (s1, None)"
    and 2: "run_if (\<not> interface_is_up H (ic_name i) (su_host s1)) H (up_cmd (ic_name i)) s1 = (s', None)"
    by (auto simp: setup_virtual_def and_then_def split: prod.splits option.splits)
  show ?thesis using run_if_keeps [OF laws n _ 1] run_if_keeps [OF laws n _ 2] i assms(5) by (auto simp: is_ready_def)
qed

lemma setup_virtual_readies:
  assumes laws: "vcan_laws H names" and n: "ic_name i \<in> names" and r: "setup_virtual H i s = (s', None)"
  shows "is_ready H s' (ic_name i)"
proof -
  let ?n = "ic_name i"
  from r obtain s1 where 1: "run_if (\<not> interface_exists H ?n (su_host s)) H (add_cmd ?n) s = (s1, None)"
    and 2: "run_if (\<not> interface_is_up H ?n (su_host s1)) H (up_cmd ?n) s1 = (s', None)"
    by (auto simp: setup_virtual_def and_then_def split: prod.splits option.splits)
  have e: "interface_exists H ?n (su_host s1)"
    using 1 vcan_lawsD(1) [OF laws n] by (auto simp: run_if_def run_command_def split: if_splits prod.splits)
  have "interface_exists H ?n (su_host s')" using run_if_keeps [OF laws n _ 2] e n by auto
  moreover have "interface_is_up H ?n (su_host s')"
    using 2 e vcan_lawsD(2) [OF laws n] by (auto simp: run_if_def run_command_def split: if_splits prod.splits)
  ultimately show ?thesis by (simp add: is_ready_def)
qed

lemma each_virtual_readies:
  assumes "vcan_laws H names" "ic_name ` set is \<subseteq> names" "each (setup_virtual H) is s = (s', None)"
  shows "(\<forall>i\<in>set is. is_ready H s' (ic_name i)) \<and> (\<forall>n\<in>names. is_ready H s n \<longrightarrow> is_ready H s' n)"
  using assms(2,3)
proof (induction "is" arbitrary: s)
  case (Cons i "is")
  then obtain s1 where s1: "setup_virtual H i s = (s1, None)" and rest: "each (setup_virtual H) is s1 = (s', None)"
    by (auto simp: and_then_def split: prod.splits option.splits)
  have "is_ready H s1 (ic_name i)" using setup_virtual_readies [OF assms(1) _ s1] Cons.prems by auto
  with Cons.IH [OF _ rest] Cons.prems setup_virtual_keeps [OF assms(1) _ _ s1] show ?case by auto
qed simp

lemma each_virtual_idle:
  "\<forall>i\<in>set is. is_ready H s (ic_name i) \<Longrightarrow> each (setup_virtual H) is s = (s, None)"
  by (induction "is") (auto simp: setup_virtual_def run_if_def and_then_def is_ready_def)

text \<open>C24: a virtual setup that returns leaves every configured interface existing and up, and one
  more setup on that host would only load the module again.\<close>

theorem virtual_setup_readies:
  assumes "vcan_laws H (ic_name ` set (cf_interfaces cfg))" and "cf_virtual_can cfg"
    and "setup_interfaces H cfg s = (s', None)" and "h_system H (su_host s') ''sudo modprobe vcan'' = (h, 0)"
  shows "(\<forall>i\<in>set (cf_interfaces cfg). is_ready H s' (ic_name i))
    \<and> setup_interfaces H cfg s' = (fst (run_command H ''sudo modprobe vcan'' s'), None)"
proof -
  let ?names = "ic_name ` set (cf_interfaces cfg)"
  from assms(2,3) obtain s1 where "each (setup_virtual H) (cf_interfaces cfg) s1 = (s', None)"
    by (auto simp: setup_interfaces_def and_then_def split: prod.splits option.splits)
  from each_virtual_readies [OF assms(1) _ this] have ready: "\<forall>i\<in>set (cf_interfaces cfg). is_ready H s' (ic_name i)" by auto
  let ?s = "fst (run_command H ''sudo modprobe vcan'' s')"
  have host: "su_host ?s = h" using assms(4) by (simp add: run_command_def)
  have "is_ready H ?s (ic_name i)" if "i \<in> set (cf_interfaces cfg)" for i
    using vcan_lawsD(3) [OF assms(1) _ insertI1 assms(4), of "ic_name i"] ready that by (auto simp: is_ready_def host)
  then have "each (setup_virtual H) (cf_interfaces cfg) ?s = (?s, None)" by (intro each_virtual_idle) auto
  then have "setup_interfaces H cfg s' = (?s, None)"
    using assms(2,4) by (simp add: setup_interfaces_def run_command_def and_then_def)
  with ready show ?thesis by simp
qed

text \<open>A host of vcan links: the names that exist and those that are up.\<close>

definition ex_host :: "(string set \<times> string set) host_api" where
  "ex_host =
     \<lparr>h_nametoindex = (\<lambda>h n. if n \<in> fst h then 1 else 0),
      h_operstate = (\<lambda>h f. if f = ''/sys/class/net/vcan0/operstate'' \<and> ''vcan0'' \<in> snd h then Some ''unknown'' else None),
      h_system = (\<lambda>h cmd. if cmd = add_cmd ''vcan0'' then ((insert ''vcan0'' (fst h), snd h), 0)
        else if cmd = up_cmd ''vcan0'' then if ''vcan0'' \<in> fst h then ((fst h, insert ''vcan0'' (snd h)), 0) else (h, 1)
        else (h, 0))\<rparr>"

definition ex_vcan :: config where
  "ex_vcan = empty_config\<lparr>cf_virtual_can := True, cf_interfaces := [mk_interface_config ''vcan0'']\<rparr>"

definition ex_fresh :: "(string set \<times> string set) setup_state" where
  "ex_fresh = \<lparr>su_host = ({}, {}), su_commands = [], su_out = [], su_err = []\<rparr>"

lemma ex_setup: "\<exists>s'. setup_interfaces ex_host ex_vcan ex_fresh = (s', None) \<and> su_host s' = ({''vcan0''}, {''vcan0''})"
  by (simp add: setup_interfaces_def ex_vcan_def ex_host_def ex_fresh_def empty_config_def mk_interface_config_def run_command_def
      and_then_def setup_virtual_def run_if_def interface_exists_def interface_is_up_def add_cmd_def up_cmd_def)

lemma virtual_setup_readies_witness:
  "\<exists>s'. setup_interfaces ex_host ex_vcan ex_fresh = (s', None)
     \<and> is_ready ex_host s' ''vcan0'' \<and> snd (setup_interfaces ex_host ex_vcan s') = None"
proof -
  have laws: "vcan_laws ex_host (ic_name ` set (cf_interfaces ex_vcan))"
    by (auto simp: vcan_laws_def ex_host_def ex_vcan_def empty_config_def mk_interface_config_def interface_exists_def
        interface_is_up_def add_cmd_def up_cmd_def)
  have v: "cf_virtual_can ex_vcan" by (simp add: ex_vcan_def)
  from ex_setup obtain s' where s': "setup_interfaces ex_host ex_vcan ex_fresh = (s', None)" "su_host s' = ({''vcan0''}, {''vcan0''})"
    by blast
  have m: "h_system ex_host (su_host s') ''sudo modprobe vcan'' = (({''vcan0''}, {''vcan0''}), 0)"
    by (simp add: ex_host_def add_cmd_def up_cmd_def s'(2))
  from virtual_setup_readies [OF laws v s'(1) m] s'(1) show ?thesis
    by (intro exI [of _ s']) (simp add: ex_vcan_def mk_interface_config_def)
qed

text \<open>Setup only runs the commands of its mode for the configured interfaces, never creates a
  link when the links are real, and stops at the first command that fails: an exception names the
  last command it ran.\<close>

theorem setup_stops_at_failure:
  "\<exists>cs. su_commands (fst (setup_interfaces H cfg s)) = su_commands s @ cs
     \<and> set cs \<subseteq> (if cf_virtual_can cfg
         then insert ''sudo modprobe vcan'' (\<Union>i\<in>set (cf_interfaces cfg). {add_cmd (ic_name i), up_cmd (ic_name i)})
         else (\<Union>i\<in>set (cf_interfaces cfg). {bitrate_cmd (ic_name i) (ic_baudrate i), up_cmd (ic_name i)}))
     \<and> snd (setup_interfaces H cfg s) \<in> {None, Some (Exn (''Command failed: '' @ last cs))}
     \<and> (cs \<noteq> [] \<or> snd (setup_interfaces H cfg s) = None)"
proof (cases "cf_virtual_can cfg")
  case False
  from real.each_appends [of H "cf_interfaces cfg" s] obtain cs where
    cs: "su_commands (fst (each (setup_real H) (cf_interfaces cfg) s)) = su_commands s @ cs"
      "set cs \<subseteq> (\<Union>i\<in>set (cf_interfaces cfg). {bitrate_cmd (ic_name i) (ic_baudrate i), up_cmd (ic_name i)})"
      "\<forall>e. snd (each (setup_real H) (cf_interfaces cfg) s) = Some e \<longrightarrow> cs \<noteq> [] \<and> e = Exn (''Command failed: '' @ last cs)"
    by blast
  have "snd (each (setup_real H) (cf_interfaces cfg) s) \<in> {None, Some (Exn (''Command failed: '' @ last cs))}
      \<and> (cs \<noteq> [] \<or> snd (each (setup_real H) (cf_interfaces cfg) s) = None)"
    using cs(3) by (cases "snd (each (setup_real H) (cf_interfaces cfg) s)") auto
  with False cs(1,2) show ?thesis by (auto simp: setup_interfaces_def)
next
  case True
  obtain s1 r where m: "run_command H ''sudo modprobe vcan'' s = (s1, r)" by fastforce
  have c: "su_commands s1 = su_commands s @ [''sudo modprobe vcan'']"
    using run_command_appends(1) [of H "''sudo modprobe vcan''" s] m by simp
  show ?thesis
  proof (cases r)
    case (Some e)
    then have "e = Exn (''Command failed: '' @ ''sudo modprobe vcan'')"
      using run_command_appends(2) [of H "''sudo modprobe vcan''" s] m by simp
    with True m c Some show ?thesis
      by (intro exI [of _ "[''sudo modprobe vcan'']"]) (auto simp: setup_interfaces_def and_then_def)
  next
    case None
    from virtual.each_appends [of H "cf_interfaces cfg" s1] obtain cs where
      cs: "su_commands (fst (each (setup_virtual H) (cf_interfaces cfg) s1)) = su_commands s1 @ cs"
        "set cs \<subseteq> (\<Union>i\<in>set (cf_interfaces cfg). {add_cmd (ic_name i), up_cmd (ic_name i)})"
        "\<forall>e. snd (each (setup_virtual H) (cf_interfaces cfg) s1) = Some e \<longrightarrow> cs \<noteq> [] \<and> e = Exn (''Command failed: '' @ last cs)"
      by blast
    have "snd (each (setup_virtual H) (cf_interfaces cfg) s1) \<in> {None, Some (Exn (''Command failed: '' @ last (''sudo modprobe vcan'' # cs)))}"
      using cs(3) by (cases "snd (each (setup_virtual H) (cf_interfaces cfg) s1)") auto
    with True m c None cs(1,2) show ?thesis
      by (intro exI [of _ "''sudo modprobe vcan'' # cs"]) (auto simp: setup_interfaces_def and_then_def)
  qed
qed

end
