(* ===== verification/Tui.thy ===== *)
theory Tui
  imports Action Config Playback Preset
begin

text \<open>
  \<open>src/gui/TuiDataFrameSet\<close>: the terminal interface as a state machine over keys. The models of
  the Send tab are the store the asio thread's sine actions write to, so the state holds them
  in the handler. A key changes the state and is consumed or not; reading outside a vector is
  None. \<open>fmt\<close> is the formatting \<open>{:.6g}\<close> of a double.
\<close>

section \<open>State\<close>

datatype key =
    Char string | Return | Escape | Backspace | Delete | Arrow_up | Arrow_down | Arrow_left | Arrow_right | Custom

datatype periodic_step = Step_none | Step_period | Step_type | Step_amplitude | Step_sin_period | Step_offset | Step_ready

fun step_index :: "periodic_step \<Rightarrow> nat" where
  "step_index Step_none = 0" | "step_index Step_period = 1" | "step_index Step_type = 2" | "step_index Step_amplitude = 3"
| "step_index Step_sin_period = 4" | "step_index Step_offset = 5" | "step_index Step_ready = 6"

text \<open>The code compares steps by their position in the enumeration.\<close>

instantiation periodic_step :: linorder
begin

definition less_eq_periodic_step :: "periodic_step \<Rightarrow> periodic_step \<Rightarrow> bool" where
  "less_eq_periodic_step x y \<longleftrightarrow> step_index x \<le> step_index y"

definition less_periodic_step :: "periodic_step \<Rightarrow> periodic_step \<Rightarrow> bool" where
  "less_periodic_step x y \<longleftrightarrow> step_index x < step_index y"

instance
proof
  fix x y :: periodic_step
  show "x \<le> y \<Longrightarrow> y \<le> x \<Longrightarrow> x = y"
    by (cases x; cases y) (simp_all add: less_eq_periodic_step_def)
qed (auto simp: less_eq_periodic_step_def less_periodic_step_def)

end

type_synonym models = "(string, send_model) omap"

record tui =
  tu_interfaces :: "string list"
  tu_handler :: "models action_handler"
  tu_playback :: "playback option"
  tu_nav :: int
  tu_main :: int
  tu_pb_cursor :: int
  tu_pb_msg :: int
  tu_sub_trace :: int
  tu_sub_send :: int
  tu_msg :: int
  tu_sig :: int
  tu_act :: int
  tu_act_sig :: int
  tu_editing :: bool
  tu_edit_buf :: string
  tu_act_editing :: bool
  tu_act_buf :: string
  tu_step :: periodic_step
  tu_interval_buf :: string
  tu_interval_ms :: int
  tu_type :: int
  tu_amplitude_buf :: string
  tu_sin_period_buf :: string
  tu_offset_buf :: string
  tu_searching :: bool
  tu_search_buf :: string
  tu_trace :: int
  tu_model_tab :: bool
  tu_outputs :: "(string, dbl) omap"
  tu_sets :: "(string, data_frame_set) omap"
  tu_quit :: bool

text \<open>\<open>emplace\<close> keeps an entry that is there; a model that cannot be built is left out.\<close>

fun build_models :: "(string \<Rightarrow> dbc_file) \<Rightarrow> interface_config list \<Rightarrow> models \<Rightarrow> models" where
  "build_models load [] ms = ms"
| "build_models load (cfg # cfgs) ms =
     build_models load cfgs
       (if ic_dbc cfg = [] then ms
        else case mk_send_model load (ic_dbc cfg) of
               Inl _ \<Rightarrow> ms
             | Inr model \<Rightarrow> if omap_contains ms (ic_name cfg) then ms else omap_insert (ic_name cfg) model ms)"

definition mk_tui :: "(string \<Rightarrow> dbc_file) \<Rightarrow> interface_config list \<Rightarrow> models action_handler \<Rightarrow> playback option \<Rightarrow> tui" where
  "mk_tui load cfgs h pb =
     \<lparr>tu_interfaces = map ic_name cfgs, tu_handler = h\<lparr>ah_store := build_models load cfgs []\<rparr>, tu_playback = pb,
      tu_nav = 0, tu_main = 0, tu_pb_cursor = 0, tu_pb_msg = 0, tu_sub_trace = 0, tu_sub_send = 0, tu_msg = 0,
      tu_sig = 0, tu_act = 0, tu_act_sig = 0, tu_editing = False, tu_edit_buf = [], tu_act_editing = False,
      tu_act_buf = [], tu_step = Step_none, tu_interval_buf = [], tu_interval_ms = 0, tu_type = 0,
      tu_amplitude_buf = [], tu_sin_period_buf = [], tu_offset_buf = [], tu_searching = False, tu_search_buf = [],
      tu_trace = 0, tu_model_tab = False, tu_outputs = [], tu_sets = [], tu_quit = False\<rparr>"

definition tui_update :: "can_frame \<Rightarrow> tui \<Rightarrow> tui" where
  "tui_update frame s =
     (let iface = hdr_interface (fr_header frame);
          st = (case map_of (tu_sets s) iface of None \<Rightarrow> mk_data_frame_set iface | Some st \<Rightarrow> st)
      in s\<lparr>tu_sets := omap_insert iface (dfs_update frame st) (tu_sets s)\<rparr>)"

definition enable_model_tab :: "tui \<Rightarrow> tui" where
  "enable_model_tab s = s\<lparr>tu_model_tab := True\<rparr>"

definition push_model_output :: "string \<Rightarrow> dbl \<Rightarrow> tui \<Rightarrow> tui" where
  "push_model_output name v s = s\<lparr>tu_outputs := omap_insert name v (tu_outputs s)\<rparr>"

definition playback_tab_idx :: "tui \<Rightarrow> int" where
  "playback_tab_idx s = (if tu_model_tab s then 4 else 3)"

definition tab_count :: "tui \<Rightarrow> int" where
  "tab_count s = 3 + (if tu_model_tab s then 1 else 0) + (if tu_playback s \<noteq> None then 1 else 0)"

section \<open>Search\<close>

definition to_lower :: "string \<Rightarrow> string" where
  "to_lower s = map tolower s"

definition ci_contains :: "string \<Rightarrow> string \<Rightarrow> bool" where
  "ci_contains q hay \<longleftrightarrow> contains_sub (to_lower hay) q"

definition trace_matches :: "u32 \<Rightarrow> can_frame \<Rightarrow> string \<Rightarrow> bool" where
  "trace_matches cid frame query =
     (let q = to_lower query
      in ci_contains q (''0x'' @ fmt_03X (unat cid)) \<or> ci_contains q (fr_msg_name frame)
         \<or> list_ex (\<lambda>sig. ci_contains q (ds_name sig) \<or> ci_contains q (ds_unit sig)) (fr_decoded frame))"

section \<open>The Send tab's selection and actions\<close>

definition selected_send_iface :: "tui \<Rightarrow> string option" where
  "selected_send_iface s =
     (if tu_interfaces s = [] then Some []
      else nth_opt (tu_interfaces s) (min (tu_sub_send s) (int (length (tu_interfaces s)) - 1)))"

definition selected_send_model :: "tui \<Rightarrow> send_model option option" where
  "selected_send_model s = map_option (map_of (ah_store (tu_handler s))) (selected_send_iface s)"

text \<open>The message the cursor is on, clamped to the list; -1 for an empty list.\<close>

definition msg_idx :: "tui \<Rightarrow> send_model \<Rightarrow> int" where
  "msg_idx s model = min (tu_msg s) (int (length model) - 1)"

definition with_selected :: "tui \<Rightarrow> (string \<Rightarrow> send_model \<Rightarrow> int \<Rightarrow> send_message \<Rightarrow> tui option) \<Rightarrow> tui option" where
  "with_selected s f =
     do { m \<leftarrow> selected_send_model s;
          case m of
            None \<Rightarrow> Some s
          | Some model \<Rightarrow>
              if model = [] \<or> msg_idx s model < 0 then Some s
              else do { msg \<leftarrow> nth_opt model (msg_idx s model);
                        iface \<leftarrow> selected_send_iface s;
                        f iface model (msg_idx s model) msg } }"

definition post_action :: "models action \<Rightarrow> tui \<Rightarrow> tui" where
  "post_action a s = s\<lparr>tu_handler := add_action a (tu_handler s)\<rparr>"

definition create_single_action :: "tui \<Rightarrow> tui option" where
  "create_single_action s =
     with_selected s (\<lambda>iface model mi msg.
       do { payload \<leftarrow> encode model mi;
            Some (post_action (mk_action iface (sm_id msg) (sm_name msg) payload Single_action) s) })"

definition create_periodic_action :: "int \<Rightarrow> tui \<Rightarrow> tui option" where
  "create_periodic_action ms s =
     with_selected s (\<lambda>iface model mi msg.
       do { payload \<leftarrow> encode model mi;
            Some (post_action (mk_action iface (sm_id msg) (sm_name msg) payload (Periodic_action ms)) s) })"

text \<open>The encoder runs on the asio thread and leaves its value in the model.\<close>

definition sin_encode_fn :: "string \<Rightarrow> int \<Rightarrow> int \<Rightarrow> models \<Rightarrow> dbl \<Rightarrow> (models \<times> bytes) option" where
  "sin_encode_fn iface mi si store v =
     do { model \<leftarrow> map_of store iface;
          model' \<leftarrow> set_value model mi si v;
          payload \<leftarrow> encode model' mi;
          Some (omap_insert iface model' store, payload) }"

definition create_sin_action :: "int \<Rightarrow> dbl \<Rightarrow> int \<Rightarrow> dbl \<Rightarrow> tui \<Rightarrow> tui option" where
  "create_sin_action now amplitude sin_period offset s =
     with_selected s (\<lambda>iface model mi msg.
       let sig_count = int (length (sm_signals msg))
       in if sig_count = 0 then Some s
          else Some (post_action (mk_sin_action now iface (sm_id msg) (sm_name msg) (tu_interval_ms s)
                 (sin_encode_fn iface mi (min (tu_sig s) (sig_count - 1))) amplitude sin_period offset) s))"

section \<open>Keys\<close>

type_synonym handled = "(tui \<times> bool) option"

abbreviation consumed :: "tui \<Rightarrow> handled" where "consumed s \<equiv> Some (s, True)"
abbreviation passed :: "tui \<Rightarrow> handled" where "passed s \<equiv> Some (s, False)"

definition consume :: "tui option \<Rightarrow> handled" where
  "consume r = map_option (\<lambda>s. (s, True)) r"

definition first_char :: "string \<Rightarrow> char" where
  "first_char s = (case s of [] \<Rightarrow> CHR 0x00 | c # _ \<Rightarrow> c)"

definition pop_back :: "string \<Rightarrow> string" where
  "pop_back s = butlast s"

text \<open>The characters the two value editors accept.\<close>

definition edit_append :: "string \<Rightarrow> string \<Rightarrow> string" where
  "edit_append ch buf =
     (let c = first_char ch in if is_digit c \<or> c = CHR ''.'' \<or> c = CHR ''-'' then buf @ [c] else buf)"

subsection \<open>Editing a value in the Actions tab\<close>

definition end_action_edit :: "tui \<Rightarrow> tui" where
  "end_action_edit s = s\<lparr>tu_act_editing := False, tu_act_buf := []\<rparr>"

definition commit_action_signal :: "action_info \<Rightarrow> tui \<Rightarrow> tui option" where
  "commit_action_signal info s =
     (case map_of (ah_store (tu_handler s)) (ai_interface info) of
        None \<Rightarrow> Some s
      | Some model \<Rightarrow>
          (case find_idx (\<lambda>m. sm_id m = ai_msg_id info) model of
             None \<Rightarrow> Some s
           | Some mi \<Rightarrow>
               do { msg \<leftarrow> nth_opt model (int mi);
                    let si = min (tu_act_sig s) (int (length (sm_signals msg)) - 1);
                    case (if 0 \<le> si then stod (tu_act_buf s) else None) of
                      None \<Rightarrow> Some s
                    | Some v \<Rightarrow>
                        do { model' \<leftarrow> set_value model (int mi) si v;
                             payload \<leftarrow> encode model' (int mi);
                             let h = tu_handler s;
                             Some (s\<lparr>tu_handler := update_payload (nat (tu_act s)) payload
                                      (h\<lparr>ah_store := omap_insert (ai_interface info) model' (ah_store h)\<rparr>)\<rparr>) } }))"

definition commit_action_edit :: "tui \<Rightarrow> tui option" where
  "commit_action_edit s =
     (let snap = snapshot (tu_handler s)
      in if tu_act s < int (length snap) \<and> tu_act_buf s \<noteq> []
         then do { info \<leftarrow> nth_opt snap (tu_act s);
                   if ai_type_name info = ''Sin''
                   then Some (case stod (tu_act_buf s) of
                                Some v \<Rightarrow> s\<lparr>tu_handler := update_sin_param (nat (tu_act s)) (tu_act_sig s) v (tu_handler s)\<rparr>
                              | None \<Rightarrow> s)
                   else commit_action_signal info s }
         else Some s)"

definition action_edit_event :: "key \<Rightarrow> tui \<Rightarrow> handled" where
  "action_edit_event k s =
     (case k of
        Return \<Rightarrow> consume (map_option end_action_edit (commit_action_edit s))
      | Arrow_left \<Rightarrow> consume (map_option end_action_edit (commit_action_edit s))
      | Escape \<Rightarrow> consumed (end_action_edit s)
      | Backspace \<Rightarrow> consumed (s\<lparr>tu_act_buf := pop_back (tu_act_buf s)\<rparr>)
      | Char ch \<Rightarrow> consumed (s\<lparr>tu_act_buf := edit_append ch (tu_act_buf s)\<rparr>)
      | _ \<Rightarrow> passed s)"

subsection \<open>Creating a periodic or sine action\<close>

definition reset_periodic :: "tui \<Rightarrow> tui" where
  "reset_periodic s =
     s\<lparr>tu_step := Step_none, tu_interval_buf := [], tu_interval_ms := 0, tu_type := 0,
       tu_amplitude_buf := [], tu_sin_period_buf := [], tu_offset_buf := []\<rparr>"

definition period_event :: "key \<Rightarrow> tui \<Rightarrow> handled" where
  "period_event k s =
     (if k = Return \<or> k = Arrow_right
      then consumed (case (if tu_interval_buf s = [] then None else stol (tu_interval_buf s)) of
             None \<Rightarrow> s
           | Some ms \<Rightarrow> s\<lparr>tu_interval_ms := ms, tu_step := (if 0 < ms then Step_type else tu_step s)\<rparr>)
      else if k = Backspace then consumed (s\<lparr>tu_interval_buf := pop_back (tu_interval_buf s)\<rparr>)
      else (case k of
              Char ch \<Rightarrow> if is_digit (first_char ch)
                         then consumed (s\<lparr>tu_interval_buf := tu_interval_buf s @ [first_char ch]\<rparr>)
                         else passed s
            | _ \<Rightarrow> passed s))"

definition type_event :: "key \<Rightarrow> tui \<Rightarrow> handled" where
  "type_event k s =
     (if k = Arrow_left \<or> k = Arrow_right then consumed (s\<lparr>tu_type := 1 - tu_type s\<rparr>)
      else if k = Return
      then (if tu_type s = 0 then consume (map_option reset_periodic (create_periodic_action (tu_interval_ms s) s))
            else consumed (s\<lparr>tu_step := Step_amplitude\<rparr>))
      else if k = Arrow_up then consumed (s\<lparr>tu_step := Step_period\<rparr>)
      else passed s)"

text \<open>\<open>handle_num\<close>: the buffer after the key, or None when the key is not consumed.\<close>

definition handle_num :: "key \<Rightarrow> bool \<Rightarrow> string \<Rightarrow> string option" where
  "handle_num k allow_decimal buf =
     (case k of
        Backspace \<Rightarrow> Some (pop_back buf)
      | Char ch \<Rightarrow>
          (let c = first_char ch
           in Some (if is_digit c then buf @ [c]
                    else if allow_decimal \<and> c = CHR ''.'' \<and> CHR ''.'' \<notin> set buf then buf @ [c]
                    else if allow_decimal \<and> c = CHR ''-'' \<and> buf = [] then buf @ [c]
                    else buf))
      | _ \<Rightarrow> None)"

definition field_event :: "periodic_step \<Rightarrow> periodic_step \<Rightarrow> (tui \<Rightarrow> string) \<Rightarrow> ((string \<Rightarrow> string) \<Rightarrow> tui \<Rightarrow> tui) \<Rightarrow> bool
    \<Rightarrow> key \<Rightarrow> tui \<Rightarrow> handled" where
  "field_event next_step prev_step get upd allow_decimal k s =
     (if k = Return \<or> k = Arrow_down then consumed (s\<lparr>tu_step := next_step\<rparr>)
      else if k = Arrow_up then consumed (s\<lparr>tu_step := prev_step\<rparr>)
      else (case handle_num k allow_decimal (get s) of
              Some buf \<Rightarrow> consumed (upd (\<lambda>_. buf) s)
            | None \<Rightarrow> passed s))"

text \<open>Starting the sine: a field that does not parse creates nothing.\<close>

definition start_sin :: "int \<Rightarrow> tui \<Rightarrow> tui option" where
  "start_sin now s =
     (case (if tu_amplitude_buf s = [] then Some 0 else stod (tu_amplitude_buf s)) of
        None \<Rightarrow> Some s
      | Some amp \<Rightarrow>
          (case (if tu_sin_period_buf s = [] then Some 1000 else stol (tu_sin_period_buf s)) of
             None \<Rightarrow> Some s
           | Some sp_ms \<Rightarrow>
               (case (if tu_offset_buf s = [] then Some 0 else stod (tu_offset_buf s)) of
                  None \<Rightarrow> Some s
                | Some offset \<Rightarrow> if 0 < sp_ms then create_sin_action now amp sp_ms offset s else Some s)))"

definition ready_event :: "int \<Rightarrow> key \<Rightarrow> tui \<Rightarrow> handled" where
  "ready_event now k s =
     (if k = Return \<or> k = Arrow_right then consume (map_option reset_periodic (start_sin now s))
      else if k = Arrow_up then consumed (s\<lparr>tu_step := Step_offset\<rparr>)
      else passed s)"

definition periodic_event :: "int \<Rightarrow> key \<Rightarrow> tui \<Rightarrow> handled" where
  "periodic_event now k s =
     (if k = Escape then consumed (reset_periodic s)
      else (case tu_step s of
              Step_none \<Rightarrow> passed s
            | Step_period \<Rightarrow> period_event k s
            | Step_type \<Rightarrow> type_event k s
            | Step_amplitude \<Rightarrow> field_event Step_sin_period Step_type tu_amplitude_buf tu_amplitude_buf_update True k s
            | Step_sin_period \<Rightarrow> field_event Step_offset Step_amplitude tu_sin_period_buf tu_sin_period_buf_update False k s
            | Step_offset \<Rightarrow> field_event Step_ready Step_sin_period tu_offset_buf tu_offset_buf_update True k s
            | Step_ready \<Rightarrow> ready_event now k s))"

subsection \<open>Editing a value in the Send tab, and the search\<close>

definition end_edit :: "tui \<Rightarrow> tui" where
  "end_edit s = s\<lparr>tu_editing := False, tu_edit_buf := []\<rparr>"

definition commit_edit :: "tui \<Rightarrow> tui option" where
  "commit_edit s =
     do { m \<leftarrow> selected_send_model s;
          case (case m of None \<Rightarrow> None | Some model \<Rightarrow> if tu_edit_buf s = [] then None
                  else map_option (\<lambda>v. (model, v)) (stod (tu_edit_buf s))) of
            None \<Rightarrow> Some s
          | Some (model, v) \<Rightarrow>
              if msg_idx s model < 0 then Some s
              else do { msg \<leftarrow> nth_opt model (msg_idx s model);
                        let si = min (tu_sig s) (int (length (sm_signals msg)) - 1);
                        if si < 0 then Some s
                        else do { model' \<leftarrow> set_value model (msg_idx s model) si v;
                                  iface \<leftarrow> selected_send_iface s;
                                  let h = tu_handler s;
                                  Some (s\<lparr>tu_handler := h\<lparr>ah_store := omap_insert iface model' (ah_store h)\<rparr>\<rparr>) } } }"

definition edit_event :: "key \<Rightarrow> tui \<Rightarrow> handled" where
  "edit_event k s =
     (case k of
        Return \<Rightarrow> consume (map_option end_edit (commit_edit s))
      | Arrow_left \<Rightarrow> consume (map_option end_edit (commit_edit s))
      | Escape \<Rightarrow> consumed (end_edit s)
      | Backspace \<Rightarrow> consumed (s\<lparr>tu_edit_buf := pop_back (tu_edit_buf s)\<rparr>)
      | Char ch \<Rightarrow> consumed (s\<lparr>tu_edit_buf := edit_append ch (tu_edit_buf s)\<rparr>)
      | _ \<Rightarrow> passed s)"

definition search_event :: "key \<Rightarrow> tui \<Rightarrow> handled" where
  "search_event k s =
     (case k of
        Escape \<Rightarrow> consumed (s\<lparr>tu_searching := False, tu_search_buf := []\<rparr>)
      | Backspace \<Rightarrow> consumed (s\<lparr>tu_search_buf := pop_back (tu_search_buf s)\<rparr>)
      | Char ch \<Rightarrow> consumed (s\<lparr>tu_search_buf := tu_search_buf s @ ch\<rparr>)
      | _ \<Rightarrow> passed s)"

subsection \<open>Moving around\<close>

definition selected_sig_count :: "tui \<Rightarrow> send_model \<Rightarrow> int option" where
  "selected_sig_count s model =
     map_option (\<lambda>msg. int (length (sm_signals msg))) (nth_opt model (msg_idx s model))"

definition start_period :: "tui \<Rightarrow> tui" where
  "start_period s = s\<lparr>tu_step := Step_period, tu_interval_buf := []\<rparr>"

text \<open>The signal list: entering a value, or one of the two buttons below the signals.\<close>

definition sig_list_enter :: "(dbl \<Rightarrow> string) \<Rightarrow> tui \<Rightarrow> tui option" where
  "sig_list_enter fmt s =
     do { m \<leftarrow> selected_send_model s;
          case m of
            None \<Rightarrow> Some s
          | Some model \<Rightarrow>
              if msg_idx s model < 0 then Some s
              else do { msg \<leftarrow> nth_opt model (msg_idx s model);
                        let count = int (length (sm_signals msg));
                        if tu_sig s < count
                        then do { sig \<leftarrow> nth_opt (sm_signals msg) (tu_sig s);
                                  Some (s\<lparr>tu_edit_buf := fmt (ss_value sig), tu_editing := True\<rparr>) }
                        else if tu_sig s = count then create_single_action s
                        else Some (start_period s) } }"

definition sig_list_down :: "tui \<Rightarrow> tui option" where
  "sig_list_down s =
     do { m \<leftarrow> selected_send_model s;
          max_idx \<leftarrow> (case m of
             None \<Rightarrow> Some 1
           | Some model \<Rightarrow> if msg_idx s model < 0 then Some 1
                           else map_option (\<lambda>n. n + 1) (selected_sig_count s model));
          Some (if tu_sig s < max_idx then s\<lparr>tu_sig := tu_sig s + 1\<rparr> else s) }"

definition sig_list_two :: "tui \<Rightarrow> tui option" where
  "sig_list_two s =
     do { m \<leftarrow> selected_send_model s;
          si \<leftarrow> (case m of
             None \<Rightarrow> Some (tu_sig s)
           | Some model \<Rightarrow> if model = [] \<or> msg_idx s model < 0 then Some (tu_sig s)
                           else map_option (\<lambda>n. n + 1) (selected_sig_count s model));
          Some (start_period (s\<lparr>tu_sig := si\<rparr>)) }"

definition sig_list_event :: "(dbl \<Rightarrow> string) \<Rightarrow> key \<Rightarrow> tui \<Rightarrow> handled" where
  "sig_list_event fmt k s =
     (if k = Arrow_left then consumed (s\<lparr>tu_nav := 2\<rparr>)
      else if k = Arrow_right \<or> k = Return then consume (sig_list_enter fmt s)
      else if k = Arrow_up then consumed (if 0 < tu_sig s then s\<lparr>tu_sig := tu_sig s - 1\<rparr> else s)
      else if k = Arrow_down then consume (sig_list_down s)
      else if k = Char ''1'' then consume (create_single_action s)
      else if k = Char ''2'' then consume (sig_list_two s)
      else passed s)"

definition filter_event :: "playback \<Rightarrow> key \<Rightarrow> tui \<Rightarrow> handled" where
  "filter_event pc k s =
     (let snap = pb_states pc
      in if k = Arrow_left then consumed (s\<lparr>tu_nav := 1\<rparr>)
         else if k = Arrow_up then consumed (if 0 < tu_pb_msg s then s\<lparr>tu_pb_msg := tu_pb_msg s - 1\<rparr> else s)
         else if k = Arrow_down
         then consume (if tu_pb_cursor s < int (length snap)
                       then do { e \<leftarrow> nth_opt snap (tu_pb_cursor s);
                                 Some (if tu_pb_msg s < int (length (message_snapshot pc (fst e)))
                                       then s\<lparr>tu_pb_msg := tu_pb_msg s + 1\<rparr> else s) }
                       else Some s)
         else if k = Return
         then consume (if tu_pb_cursor s < int (length snap)
                       then do { e \<leftarrow> nth_opt snap (tu_pb_cursor s);
                                 pc' \<leftarrow> toggle_message (fst e) (tu_pb_msg s) pc;
                                 Some (s\<lparr>tu_playback := Some pc'\<rparr>) }
                       else Some s)
         else passed s)"

text \<open>The first message of an id, and of an id with signals.\<close>

definition message_of :: "models \<Rightarrow> action_info \<Rightarrow> (send_message \<Rightarrow> bool) \<Rightarrow> send_message option" where
  "message_of ms info p =
     (case map_of ms (ai_interface info) of
        None \<Rightarrow> None
      | Some model \<Rightarrow> List.find (\<lambda>m. sm_id m = ai_msg_id info \<and> p m) model)"

definition action_view_enter :: "(dbl \<Rightarrow> string) \<Rightarrow> tui \<Rightarrow> tui option" where
  "action_view_enter fmt s =
     (let snap = snapshot (tu_handler s)
      in if tu_act s < int (length snap)
         then do { info \<leftarrow> nth_opt snap (tu_act s);
                   if ai_type_name info = ''Sin''
                   then Some (s\<lparr>tu_act_editing := True,
                       tu_act_buf := (if tu_act_sig s = 0 then fmt (ai_sin_amplitude info)
                         else if tu_act_sig s = 1 then dec_of_int (ai_sin_period_ms info)
                         else if tu_act_sig s = 2 then fmt (ai_sin_offset info) else tu_act_buf s)\<rparr>)
                   else (case message_of (ah_store (tu_handler s)) info (\<lambda>m. sm_signals m \<noteq> []) of
                           None \<Rightarrow> Some s
                         | Some msg \<Rightarrow>
                             do { sig \<leftarrow> nth_opt (sm_signals msg) (min (tu_act_sig s) (int (length (sm_signals msg)) - 1));
                                  Some (s\<lparr>tu_act_buf := fmt (ss_value sig), tu_act_editing := True\<rparr>) }) }
         else Some s)"

definition action_view_down :: "tui \<Rightarrow> tui option" where
  "action_view_down s =
     (let snap = snapshot (tu_handler s)
      in if tu_act s < int (length snap)
         then do { info \<leftarrow> nth_opt snap (tu_act s);
                   let top = (if ai_type_name info = ''Sin'' then 2
                         else case message_of (ah_store (tu_handler s)) info (\<lambda>_. True) of
                                None \<Rightarrow> tu_act_sig s
                              | Some msg \<Rightarrow> int (length (sm_signals msg)) - 1);
                   Some (if tu_act_sig s < top then s\<lparr>tu_act_sig := tu_act_sig s + 1\<rparr> else s) }
         else Some s)"

definition action_view_event :: "(dbl \<Rightarrow> string) \<Rightarrow> key \<Rightarrow> tui \<Rightarrow> handled" where
  "action_view_event fmt k s =
     (if k = Arrow_left then consumed (s\<lparr>tu_nav := 1\<rparr>)
      else if k = Arrow_right \<or> k = Return then consume (action_view_enter fmt s)
      else if k = Arrow_up then consumed (if 0 < tu_act_sig s then s\<lparr>tu_act_sig := tu_act_sig s - 1\<rparr> else s)
      else if k = Arrow_down then consume (action_view_down s)
      else passed s)"

definition msg_list_event :: "key \<Rightarrow> tui \<Rightarrow> handled" where
  "msg_list_event k s =
     (if k = Arrow_left then consumed (s\<lparr>tu_nav := 1\<rparr>)
      else if k = Arrow_right \<or> k = Return
      then consume (map_option (\<lambda>m. case m of None \<Rightarrow> s
             | Some model \<Rightarrow> if model = [] then s else s\<lparr>tu_sig := 0, tu_nav := 3\<rparr>) (selected_send_model s))
      else if k = Arrow_up then consumed (if 0 < tu_msg s then s\<lparr>tu_msg := tu_msg s - 1\<rparr> else s)
      else if k = Arrow_down
      then consume (map_option (\<lambda>m. case m of None \<Rightarrow> s
             | Some model \<Rightarrow> if tu_msg s + 1 < int (length model) then s\<lparr>tu_msg := tu_msg s + 1\<rparr> else s) (selected_send_model s))
      else passed s)"

text \<open>The list of interfaces of a playback; the second test for \<open>Return\<close> in the code is not reached.\<close>

definition playback_list_event :: "playback \<Rightarrow> key \<Rightarrow> tui \<Rightarrow> handled" where
  "playback_list_event pc k s =
     (let snap = pb_states pc
      in if k = Arrow_up
         then consumed (if 0 < tu_pb_cursor s then s\<lparr>tu_pb_cursor := tu_pb_cursor s - 1\<rparr> else s\<lparr>tu_nav := 0\<rparr>)
         else if k = Arrow_down
         then consumed (if tu_pb_cursor s + 1 < int (length snap) then s\<lparr>tu_pb_cursor := tu_pb_cursor s + 1\<rparr> else s)
         else if k = Return
         then consume (if tu_pb_cursor s < int (length snap)
                       then map_option (\<lambda>e. s\<lparr>tu_playback := Some (pb_toggle (fst e) pc)\<rparr>) (nth_opt snap (tu_pb_cursor s))
                       else Some s)
         else if k = Arrow_right
         then consumed (if tu_pb_cursor s < int (length snap) then s\<lparr>tu_pb_msg := 0, tu_nav := 2\<rparr> else s)
         else passed s)"

definition action_list_event :: "key \<Rightarrow> tui \<Rightarrow> handled" where
  "action_list_event k s =
     (let h = tu_handler s; snap = snapshot h; inside = (tu_act s < int (length snap))
      in if k = Arrow_up
         then consumed (if 0 < tu_act s then s\<lparr>tu_act := tu_act s - 1\<rparr> else s\<lparr>tu_nav := 0\<rparr>)
         else if k = Arrow_down
         then consumed (if tu_act s + 1 < int (length snap) then s\<lparr>tu_act := tu_act s + 1\<rparr> else s)
         else if k = Arrow_right \<or> k = Return
         then consumed (if inside then s\<lparr>tu_act_sig := 0, tu_nav := 2\<rparr> else s)
         else if k = Char '' ''
         then consume (if inside then map_option (\<lambda>info. s\<lparr>tu_handler := toggle_pause (ai_idx info) h\<rparr>) (nth_opt snap (tu_act s))
                       else Some s)
         else if k = Delete \<or> k = Backspace
         then consume (if inside
                       then map_option (\<lambda>info. s\<lparr>tu_handler := remove_action (ai_idx info) h,
                              tu_act := (if 0 < tu_act s then tu_act s - 1 else tu_act s)\<rparr>) (nth_opt snap (tu_act s))
                       else Some s)
         else passed s)"

text \<open>The tabs below Trace and Send; the Model tab comes here too.\<close>

definition trace_down :: "tui \<Rightarrow> tui option" where
  "trace_down s =
     (if tu_sets s = [] then Some s
      else let n = int (length (tu_sets s)); i = (if tu_sub_trace s < n then tu_sub_trace s else n - 1)
           in map_option (\<lambda>e. if tu_trace s + 1 < int (length (dfs_frames (snd e)))
                              then s\<lparr>tu_trace := tu_trace s + 1\<rparr> else s) (nth_opt (tu_sets s) i))"

definition turn :: "int \<Rightarrow> tui \<Rightarrow> tui" where
  "turn d s =
     (if tu_main s = 0
      then (if tu_sets s = [] then s
            else s\<lparr>tu_sub_trace := (tu_sub_trace s + (if d < 0 then int (length (tu_sets s)) - 1 else 1)) mod int (length (tu_sets s)),
                   tu_trace := 0\<rparr>)
      else (if tu_interfaces s = [] then s
            else s\<lparr>tu_sub_send := (tu_sub_send s + (if d < 0 then int (length (tu_interfaces s)) - 1 else 1))
                                    mod int (length (tu_interfaces s))\<rparr>))"

definition sub_tab_event :: "key \<Rightarrow> tui \<Rightarrow> handled" where
  "sub_tab_event k s =
     (if k = Arrow_up
      then consumed (if tu_main s = 0 \<and> 0 < tu_trace s then s\<lparr>tu_trace := tu_trace s - 1\<rparr> else s\<lparr>tu_nav := 0\<rparr>)
      else if k = Arrow_down \<and> tu_main s = 0 then consume (trace_down s)
      else if k = Arrow_down \<and> tu_main s = 1
      then consume (map_option (\<lambda>m. case m of None \<Rightarrow> s
             | Some model \<Rightarrow> if model = [] then s else s\<lparr>tu_msg := 0, tu_nav := 2\<rparr>) (selected_send_model s))
      else if k = Arrow_right then consumed (turn 1 s)
      else if k = Arrow_left then consumed (turn (- 1) s)
      else passed s)"

definition main_tab_event :: "key \<Rightarrow> tui \<Rightarrow> handled" where
  "main_tab_event k s =
     (if k = Arrow_down then consumed (s\<lparr>tu_nav := 1\<rparr>)
      else if k = Arrow_right then consumed (s\<lparr>tu_main := (tu_main s + 1) mod tab_count s\<rparr>)
      else if k = Arrow_left then consumed (s\<lparr>tu_main := (tu_main s + tab_count s - 1) mod tab_count s\<rparr>)
      else passed s)"

section \<open>The event handler\<close>

text \<open>The shortcuts, which come before the level's own keys; None when there is none for the key.\<close>

definition shortcut :: "key \<Rightarrow> tui \<Rightarrow> tui option" where
  "shortcut k s =
     (if k = Char ''q'' \<or> k = Escape then Some (s\<lparr>tu_quit := True\<rparr>)
      else if k = Char ''t'' then Some (s\<lparr>tu_main := 0, tu_nav := 1\<rparr>)
      else if k = Char ''s'' then Some (s\<lparr>tu_main := 1, tu_nav := 1\<rparr>)
      else if k = Char ''a'' then Some (s\<lparr>tu_main := 2, tu_nav := 1\<rparr>)
      else if k = Char ''m'' \<and> tu_model_tab s then Some (s\<lparr>tu_main := 3, tu_nav := 1\<rparr>)
      else if k = Char ''p'' \<and> tu_playback s \<noteq> None then Some (s\<lparr>tu_main := playback_tab_idx s, tu_nav := 1\<rparr>)
      else if k = Char ''f'' \<and> tu_main s = 0 then Some (s\<lparr>tu_searching := True\<rparr>)
      else None)"

definition level_event :: "(dbl \<Rightarrow> string) \<Rightarrow> key \<Rightarrow> tui \<Rightarrow> handled" where
  "level_event fmt k s =
     (if tu_nav s = 3 then sig_list_event fmt k s
      else if tu_nav s = 2
      then (case (if tu_main s = playback_tab_idx s then tu_playback s else None) of
              Some pc \<Rightarrow> filter_event pc k s
            | None \<Rightarrow> if tu_main s = 2 then action_view_event fmt k s else msg_list_event k s)
      else if tu_nav s = 1
      then (case (if tu_main s = playback_tab_idx s then tu_playback s else None) of
              Some pc \<Rightarrow> playback_list_event pc k s
            | None \<Rightarrow> if tu_main s = 2 then action_list_event k s else sub_tab_event k s)
      else main_tab_event k s)"

definition on_event :: "(dbl \<Rightarrow> string) \<Rightarrow> int \<Rightarrow> key \<Rightarrow> tui \<Rightarrow> handled" where
  "on_event fmt now k s =
     (if tu_act_editing s then action_edit_event k s
      else if tu_step s \<noteq> Step_none then periodic_event now k s
      else if tu_editing s then edit_event k s
      else if tu_searching s then search_event k s
      else case shortcut k s of Some s' \<Rightarrow> consumed s' | None \<Rightarrow> level_event fmt k s)"

lemmas key_defs = action_edit_event_def periodic_event_def period_event_def type_event_def field_event_def ready_event_def
  edit_event_def search_event_def sig_list_event_def filter_event_def action_view_event_def msg_list_event_def
  playback_list_event_def action_list_event_def sub_tab_event_def main_tab_event_def level_event_def on_event_def
lemmas pure_defs = end_action_edit_def reset_periodic_def end_edit_def start_period_def turn_def shortcut_def

end
