(* ===== verification/TuiSafe.thy ===== *)
theory TuiSafe
  imports Tui
begin

text \<open>
  The invariant of the terminal interface, that its keys never read outside a vector, and the
  properties of its wizards and editors.
\<close>

section \<open>The state the keys keep\<close>

definition tui_ok :: "tui \<Rightarrow> bool" where
  "tui_ok s \<longleftrightarrow>
     0 \<le> tu_nav s \<and> tu_nav s \<le> 3 \<and> 0 \<le> tu_main s \<and> tu_main s < tab_count s
     \<and> (tu_nav s = 3 \<longrightarrow> tu_main s = 1)
     \<and> (tu_nav s = 2 \<longrightarrow> tu_main s = 1 \<or> tu_main s = 2 \<or> tu_main s = playback_tab_idx s \<and> tu_playback s \<noteq> None)
     \<and> 0 \<le> tu_pb_cursor s \<and> 0 \<le> tu_pb_msg s \<and> 0 \<le> tu_sub_trace s \<and> 0 \<le> tu_sub_send s \<and> 0 \<le> tu_msg s
     \<and> 0 \<le> tu_sig s \<and> 0 \<le> tu_act s \<and> 0 \<le> tu_act_sig s \<and> 0 \<le> tu_trace s
     \<and> (tu_interfaces s = [] \<or> tu_sub_send s < int (length (tu_interfaces s)))
     \<and> (Step_type \<le> tu_step s \<longrightarrow> 0 < tu_interval_ms s) \<and> (tu_type s = 0 \<or> tu_type s = 1)"

lemmas tui_ok_unfold = tui_ok_def tab_count_def playback_tab_idx_def less_eq_periodic_step_def

lemma tui_okD:
  assumes "tui_ok s"
  shows "0 \<le> tu_pb_cursor s" "0 \<le> tu_pb_msg s" "0 \<le> tu_sub_trace s" "0 \<le> tu_sub_send s" "0 \<le> tu_msg s"
    "0 \<le> tu_sig s" "0 \<le> tu_act s" "0 \<le> tu_act_sig s" "0 \<le> tu_trace s"
  using assms by (simp_all add: tui_ok_def)

lemma selected_defined: "tui_ok s \<Longrightarrow> \<exists>i. selected_send_iface s = Some i"
  by (auto simp: selected_send_iface_def tui_ok_def nth_opt_def min_def)

lemma selected_model_defined: "tui_ok s \<Longrightarrow> \<exists>m. selected_send_model s = Some m"
  using selected_defined [of s] by (auto simp: selected_send_model_def)

lemma holds_iface: "tui_ok s \<Longrightarrow> (\<And>i. P i) \<Longrightarrow> holds P (selected_send_iface s)"
  using selected_defined [of s] by auto

lemma holds_model: "tui_ok s \<Longrightarrow> (\<And>m. P m) \<Longrightarrow> holds P (selected_send_model s)"
  using selected_model_defined [of s] by auto

lemma msg_idx_inside: "tui_ok s \<Longrightarrow> 0 \<le> msg_idx s model \<longleftrightarrow> model \<noteq> []" "msg_idx s model < int (length model)"
  by (auto simp: msg_idx_def tui_ok_def min_def)

lemma holds_set_value:
  "0 \<le> mi \<Longrightarrow> mi < int (length model) \<Longrightarrow> 0 \<le> si \<Longrightarrow> si < int (length (sm_signals (model ! nat mi)))
    \<Longrightarrow> (\<And>m. length m = length model \<Longrightarrow> P m) \<Longrightarrow> holds P (set_value model mi si v)"
  by (simp add: set_value_def)

lemma holds_encode: "0 \<le> mi \<Longrightarrow> mi < int (length model) \<Longrightarrow> (\<And>p. P p) \<Longrightarrow> holds P (encode model mi)"
  by (simp add: encode_def)

lemma holds_selected:
  assumes "tui_ok s" "P s"
    and "\<And>iface model mi msg. 0 \<le> mi \<Longrightarrow> mi < int (length model) \<Longrightarrow> msg = model ! nat mi \<Longrightarrow> holds P (f iface model mi msg)"
  shows "holds P (with_selected s f)"
proof -
  have "holds P (do { iface \<leftarrow> selected_send_iface s; f iface model (msg_idx s model) (model ! nat (msg_idx s model)) })"
    if "model \<noteq> []" for model
    using assms msg_idx_inside(1) [OF assms(1), of model] msg_idx_inside(2) [of s model] that by (auto intro!: holds_iface)
  then show ?thesis
    using assms(1,2) msg_idx_inside(1) [OF assms(1)] msg_idx_inside(2)
    by (auto simp: with_selected_def intro!: holds_model split: option.split)
qed

text \<open>The handler and its models are not part of the invariant.\<close>

lemma tui_ok_handler [simp]: "tui_ok (s\<lparr>tu_handler := h\<rparr>) = tui_ok s"
  by (simp add: tui_ok_unfold)

lemma tui_ok_post [simp]: "tui_ok (post_action a s) = tui_ok s"
  by (simp add: post_action_def)

lemma create_ok:
  assumes "tui_ok s"
  shows "holds tui_ok (create_single_action s)" "holds tui_ok (create_periodic_action ms s)"
    "holds tui_ok (create_sin_action now amp sp off s)"
  unfolding create_single_action_def create_periodic_action_def create_sin_action_def
  by (auto intro!: holds_selected holds_encode simp: assms Let_def)

lemma min_inside: "0 \<le> i \<Longrightarrow> 0 < n \<Longrightarrow> 0 \<le> min i (n - 1) \<and> min i (n - 1) < (n :: int)"
  by (auto simp: min_def)

lemma min_below: "min i (n - 1) < (n :: int)"
  by (simp add: min_def)

lemma commit_signal_ok:
  assumes ok: "tui_ok s"
  shows "holds tui_ok (commit_action_signal info s)"
proof (cases "map_of (ah_store (tu_handler s)) (ai_interface info)")
  case (Some model)
  show ?thesis
  proof (cases "find_idx (\<lambda>m. sm_id m = ai_msg_id info) model")
    case mi: (Some mi)
    let ?si = "min (tu_act_sig s) (int (length (sm_signals (model ! mi))) - 1)"
    have inside: "0 \<le> int mi" "int mi < int (length model)" using find_idx_Some [OF mi] by auto
    show ?thesis using Some mi inside ok
      by (auto simp: commit_action_signal_def Let_def min_below not_less
          intro!: holds_set_value holds_encode split: option.split)
  qed (use Some ok in \<open>simp add: commit_action_signal_def\<close>)
qed (use ok in \<open>simp add: commit_action_signal_def\<close>)

lemma commit_action_ok: "tui_ok s \<Longrightarrow> holds tui_ok (commit_action_edit s)"
  using tui_okD(7) [of s] commit_signal_ok [of s] by (auto simp: commit_action_edit_def Let_def split: option.split)

lemma commit_edit_ok:
  assumes ok: "tui_ok s"
  shows "holds tui_ok (commit_edit s)"
proof -
  obtain m where m: "selected_send_model s = Some m" using selected_model_defined [OF ok] by auto
  obtain i where i: "selected_send_iface s = Some i" using selected_defined [OF ok] by auto
  show ?thesis
  proof (cases m)
    case (Some model)
    let ?mi = "msg_idx s model"
    let ?si = "min (tu_sig s) (int (length (sm_signals (model ! nat ?mi))) - 1)"
    from Some m i ok msg_idx_inside(2) [of s model] show ?thesis
      by (auto simp: commit_edit_def Let_def min_below not_less
          intro!: holds_set_value split: option.split)
  qed (use m ok in \<open>simp add: commit_edit_def\<close>)
qed

abbreviation ok_after :: "handled \<Rightarrow> bool" where "ok_after r \<equiv> holds (\<lambda>(s', _). tui_ok s') r"

lemma holds_consume [simp]: "holds P (consume r) = holds (\<lambda>s. P (s, True)) r"
  by (simp add: consume_def)

lemma tui_ok_text [simp]:
  "tui_ok (end_action_edit s) = tui_ok s" "tui_ok (end_edit s) = tui_ok s"
  "tui_ok (s\<lparr>tu_act_buf := b\<rparr>) = tui_ok s" "tui_ok (s\<lparr>tu_edit_buf := b\<rparr>) = tui_ok s"
  "tui_ok (s\<lparr>tu_edit_buf := b, tu_editing := e\<rparr>) = tui_ok s" "tui_ok (s\<lparr>tu_act_buf := b, tu_act_editing := e\<rparr>) = tui_ok s"
  "tui_ok (s\<lparr>tu_act_editing := e, tu_act_buf := b\<rparr>) = tui_ok s" "tui_ok (s\<lparr>tu_act_editing := e\<rparr>) = tui_ok s"
  "tui_ok (s\<lparr>tu_searching := e\<rparr>) = tui_ok s" "tui_ok (s\<lparr>tu_search_buf := b\<rparr>) = tui_ok s"
  "tui_ok (s\<lparr>tu_searching := e, tu_search_buf := b\<rparr>) = tui_ok s" "tui_ok (s\<lparr>tu_quit := e\<rparr>) = tui_ok s"
  "tui_ok (s\<lparr>tu_interval_buf := b\<rparr>) = tui_ok s" "tui_ok (s\<lparr>tu_amplitude_buf := b\<rparr>) = tui_ok s"
  "tui_ok (s\<lparr>tu_sin_period_buf := b\<rparr>) = tui_ok s" "tui_ok (s\<lparr>tu_offset_buf := b\<rparr>) = tui_ok s"
  by (simp_all add: tui_ok_unfold end_action_edit_def end_edit_def)

lemma tui_ok_period [simp]: "tui_ok s \<Longrightarrow> tui_ok (reset_periodic s)" "tui_ok s \<Longrightarrow> tui_ok (start_period s)"
  by (simp_all add: tui_ok_unfold reset_periodic_def start_period_def)

lemma action_edit_ok: "tui_ok s \<Longrightarrow> ok_after (action_edit_event k s)"
  using commit_action_ok [of s] by (auto simp: action_edit_event_def split: key.split)

lemma edit_ok: "tui_ok s \<Longrightarrow> ok_after (edit_event k s)"
  using commit_edit_ok [of s] by (auto simp: edit_event_def split: key.split)

lemma search_ok: "tui_ok s \<Longrightarrow> ok_after (search_event k s)"
  by (auto simp: search_event_def split: key.split)

lemma period_ok: "tui_ok s \<Longrightarrow> tu_step s = Step_period \<Longrightarrow> ok_after (period_event k s)"
  by (auto simp: period_event_def split: option.split key.split) (simp add: tui_ok_unfold)+

lemma type_ok: "tui_ok s \<Longrightarrow> tu_step s = Step_type \<Longrightarrow> ok_after (type_event k s)"
  by (auto simp: type_event_def intro!: holds_mono [OF create_ok(2)]) (auto simp: tui_ok_unfold)

lemma field_ok:
  assumes "tui_ok s" "Step_type \<le> tu_step s" "\<And>f. tui_ok (upd f s)"
  shows "ok_after (field_event n p get upd d k s)"
  using assms by (auto simp: field_event_def split: option.split) (auto simp: tui_ok_unfold)

lemma start_sin_ok: "tui_ok s \<Longrightarrow> holds tui_ok (start_sin now s)"
  unfolding start_sin_def by (simp add: create_ok split: option.split)

lemma ready_ok: "tui_ok s \<Longrightarrow> tu_step s = Step_ready \<Longrightarrow> ok_after (ready_event now k s)"
proof -
  assume ok: "tui_ok s" and st: "tu_step s = Step_ready"
  then have "tui_ok (s\<lparr>tu_step := Step_offset\<rparr>)" by (simp add: tui_ok_unfold)
  with ok show ?thesis by (simp add: ready_event_def holds_mono [OF start_sin_ok])
qed

lemma periodic_ok: "tui_ok s \<Longrightarrow> ok_after (periodic_event now k s)"
proof -
  assume ok: "tui_ok s"
  have upd: "tui_ok (tu_amplitude_buf_update f s)" "tui_ok (tu_sin_period_buf_update f s)" "tui_ok (tu_offset_buf_update f s)" for f
    using ok by (simp_all add: tui_ok_unfold)
  show ?thesis using ok period_ok [OF ok] type_ok [OF ok] ready_ok [OF ok] upd
    by (auto simp: periodic_event_def less_eq_periodic_step_def intro!: field_ok split: periodic_step.split)
qed

lemma sig_list_ok: "tui_ok s \<Longrightarrow> tu_nav s = 3 \<Longrightarrow> ok_after (sig_list_event fmt k s)"
proof -
  assume ok: "tui_ok s" and nav: "tu_nav s = 3"
  obtain m where m: "selected_send_model s = Some m" using selected_model_defined [OF ok] by auto
  note inside = msg_idx_inside(2) [of s]
  have sig: "tui_ok (s\<lparr>tu_sig := i\<rparr>)" if "0 \<le> i" for i using ok that by (simp add: tui_ok_unfold)
  have nav2: "tui_ok (s\<lparr>tu_nav := 2\<rparr>)" using ok nav by (simp add: tui_ok_unfold)
  have "holds tui_ok (sig_list_enter fmt s)"
    using ok m inside tui_okD(6) [OF ok] create_ok(1) [OF ok]
    by (auto simp: sig_list_enter_def Let_def not_less split: option.split)
  moreover have "holds tui_ok (sig_list_down s)"
    using ok m inside sig tui_okD(6) [OF ok] by (auto simp: sig_list_down_def selected_sig_count_def not_less split: option.split)
  moreover have "holds tui_ok (sig_list_two s)"
    using ok m inside sig tui_okD(6) [OF ok] by (auto simp: sig_list_two_def selected_sig_count_def not_less split: option.split)
  ultimately show ?thesis using ok nav2 sig create_ok(1) [OF ok] by (auto simp: sig_list_event_def)
qed

lemma message_of_Some: "message_of ms info p = Some msg \<Longrightarrow> p msg"
  by (auto simp: message_of_def find_Some_iff split: option.splits)

lemma action_view_ok: "tui_ok s \<Longrightarrow> tu_nav s = 2 \<Longrightarrow> ok_after (action_view_event fmt k s)"
proof -
  assume ok: "tui_ok s" and nav: "tu_nav s = 2"
  have sig: "tui_ok (s\<lparr>tu_act_sig := i\<rparr>)" if "0 \<le> i" for i using ok that by (simp add: tui_ok_unfold)
  have nav1: "tui_ok (s\<lparr>tu_nav := 1\<rparr>)" using ok nav by (simp add: tui_ok_unfold)
  have "holds tui_ok (action_view_enter fmt s)"
    using ok tui_okD(7,8) [OF ok]
    by (auto simp: action_view_enter_def Let_def min_below dest!: message_of_Some split: option.split)
  moreover have "holds tui_ok (action_view_down s)"
    using ok tui_okD(7,8) [OF ok] sig by (auto simp: action_view_down_def Let_def split: option.split)
  ultimately show ?thesis using ok nav1 sig by (auto simp: action_view_event_def)
qed

lemma msg_list_ok:
  "tui_ok s \<Longrightarrow> tu_nav s = 2 \<Longrightarrow> tu_main s \<noteq> 2 \<Longrightarrow> \<not> (tu_main s = playback_tab_idx s \<and> tu_playback s \<noteq> None)
    \<Longrightarrow> ok_after (msg_list_event k s)"
proof -
  assume ok: "tui_ok s" and nav: "tu_nav s = 2" and here: "tu_main s \<noteq> 2"
    "\<not> (tu_main s = playback_tab_idx s \<and> tu_playback s \<noteq> None)"
  obtain m where m: "selected_send_model s = Some m" using selected_model_defined [OF ok] by auto
  from ok nav here have main: "tu_main s = 1" by (auto simp: tui_ok_def)
  have "tui_ok (s\<lparr>tu_msg := i\<rparr>)" if "0 \<le> i" for i using ok that by (simp add: tui_ok_unfold)
  moreover have "tui_ok (s\<lparr>tu_nav := 1\<rparr>)" "tui_ok (s\<lparr>tu_sig := 0, tu_nav := 3\<rparr>)"
    using ok main by (simp_all add: tui_ok_unfold)
  ultimately show ?thesis using ok m tui_okD(5) [OF ok] by (auto simp: msg_list_event_def split: option.split)
qed

lemma playback_ok [simp]: "tui_ok s \<Longrightarrow> tui_ok (s\<lparr>tu_playback := Some pc\<rparr>)"
proof -
  assume ok: "tui_ok s"
  have "tab_count s \<le> tab_count (s\<lparr>tu_playback := Some pc\<rparr>)" by (simp add: tab_count_def)
  with ok have "tu_main s < tab_count (s\<lparr>tu_playback := Some pc\<rparr>)" by (simp add: tui_ok_def)
  moreover have "playback_tab_idx (s\<lparr>tu_playback := Some pc\<rparr>) = playback_tab_idx s" by (simp add: playback_tab_idx_def)
  ultimately show ?thesis using ok by (simp add: tui_ok_def) blast
qed

lemma toggle_message_defined: "0 \<le> i \<Longrightarrow> \<exists>pc'. toggle_message iface i pc = Some pc'"
  by (auto simp: toggle_message_def Let_def split: option.split)

lemma filter_ok:
  assumes ok: "tui_ok s" and nav: "tu_nav s = 2"
  shows "ok_after (filter_event pc k s)"
proof -
  have "tui_ok (s\<lparr>tu_pb_msg := i\<rparr>)" if "0 \<le> i" for i using ok that by (simp add: tui_ok_unfold)
  moreover have "tui_ok (s\<lparr>tu_nav := 1\<rparr>)" using ok by (simp add: tui_ok_unfold)
  moreover have "holds (\<lambda>_. True) (toggle_message iface (tu_pb_msg s) pc)" for iface
    using toggle_message_defined [OF tui_okD(2) [OF ok]] by (auto simp: holds_iff)
  ultimately show ?thesis using ok tui_okD(1,2) [OF ok] by (auto simp: filter_event_def Let_def)
qed

lemma playback_list_ok:
  assumes ok: "tui_ok s" and here: "tu_main s = playback_tab_idx s" "tu_playback s = Some pc"
  shows "ok_after (playback_list_event pc k s)"
proof -
  have "tui_ok (s\<lparr>tu_pb_cursor := i\<rparr>)" if "0 \<le> i" for i using ok that by (simp add: tui_ok_unfold)
  moreover have "tui_ok (s\<lparr>tu_nav := 0\<rparr>)" "tui_ok (s\<lparr>tu_pb_msg := 0, tu_nav := 2\<rparr>)"
    using ok here by (simp_all add: tui_ok_unfold)
  ultimately show ?thesis using ok tui_okD(1) [OF ok] by (auto simp: playback_list_event_def Let_def)
qed

lemma action_list_ok:
  assumes ok: "tui_ok s" and here: "tu_main s = 2"
  shows "ok_after (action_list_event k s)"
proof -
  have "tui_ok (s\<lparr>tu_act := i\<rparr>)" "tui_ok (s\<lparr>tu_handler := h, tu_act := i\<rparr>)" if "0 \<le> i" for i h
    using ok that by (simp_all add: tui_ok_unfold)
  moreover have "tui_ok (s\<lparr>tu_nav := 0\<rparr>)" "tui_ok (s\<lparr>tu_act_sig := 0, tu_nav := 2\<rparr>)"
    using ok here by (simp_all add: tui_ok_unfold)
  ultimately show ?thesis using ok tui_okD(7) [OF ok] by (auto simp: action_list_event_def Let_def)
qed

lemma turn_ok: "tui_ok s \<Longrightarrow> tui_ok (turn d s)"
proof -
  assume ok: "tui_ok s"
  have "tui_ok (s\<lparr>tu_sub_trace := i, tu_trace := 0\<rparr>)" if "0 \<le> i" for i using ok that by (simp add: tui_ok_unfold)
  moreover have "tui_ok (s\<lparr>tu_sub_send := i\<rparr>)" if "0 \<le> i" "i < int (length (tu_interfaces s))" for i
    using ok that by (simp add: tui_ok_unfold)
  ultimately show ?thesis using ok by (simp add: turn_def)
qed

lemma trace_down_ok: "tui_ok s \<Longrightarrow> holds tui_ok (trace_down s)"
proof -
  assume ok: "tui_ok s"
  have "tui_ok (s\<lparr>tu_trace := i\<rparr>)" if "0 \<le> i" for i using ok that by (simp add: tui_ok_unfold)
  then show ?thesis using ok tui_okD(3,9) [OF ok] by (auto simp: trace_down_def Let_def)
qed

lemma sub_tab_ok:
  assumes ok: "tui_ok s"
  shows "ok_after (sub_tab_event k s)"
proof -
  obtain m where m: "selected_send_model s = Some m" using selected_model_defined [OF ok] by auto
  have "tui_ok (s\<lparr>tu_trace := i\<rparr>)" if "0 \<le> i" for i using ok that by (simp add: tui_ok_unfold)
  moreover have "tui_ok (s\<lparr>tu_nav := 0\<rparr>)" "tu_main s = 1 \<Longrightarrow> tui_ok (s\<lparr>tu_msg := 0, tu_nav := 2\<rparr>)"
    using ok by (simp_all add: tui_ok_unfold)
  ultimately show ?thesis using ok m tui_okD(9) [OF ok] turn_ok [OF ok] trace_down_ok [OF ok]
    by (auto simp: sub_tab_event_def split: option.split)
qed

lemma tab_count_pos: "3 \<le> tab_count s"
  by (simp add: tab_count_def)

lemma tui_ok_main: "tui_ok s \<Longrightarrow> 0 \<le> i \<Longrightarrow> i < tab_count s \<Longrightarrow> n = 0 \<or> n = 1 \<Longrightarrow> tui_ok (s\<lparr>tu_main := i, tu_nav := n\<rparr>)"
proof -
  assume a: "tui_ok s" "0 \<le> i" "i < tab_count s" and n: "n = 0 \<or> n = 1"
  have c: "tab_count (s\<lparr>tu_main := i, tu_nav := n\<rparr>) = tab_count s" by (simp add: tab_count_def)
  from n show ?thesis
  proof
    assume "n = 0" with a c show ?thesis by (simp add: tui_ok_def)
  next
    assume "n = 1" with a c show ?thesis by (simp add: tui_ok_def)
  qed
qed

lemma main_tab_ok: "tui_ok s \<Longrightarrow> tu_nav s = 0 \<Longrightarrow> ok_after (main_tab_event k s)"
proof -
  assume ok: "tui_ok s" and nav: "tu_nav s = 0"
  have "tui_ok (s\<lparr>tu_main := i\<rparr>)" if "0 \<le> i" "i < tab_count s" for i
    using tui_ok_main [OF ok that, of 0] nav by (metis tui.surjective tui.update_convs(4,5))
  moreover have "tui_ok (s\<lparr>tu_nav := 1\<rparr>)" using ok by (simp add: tui_ok_unfold)
  ultimately show ?thesis using ok tab_count_pos [of s] by (simp add: main_tab_event_def)
qed

lemma level_ok: "tui_ok s \<Longrightarrow> ok_after (level_event fmt k s)"
proof -
  assume ok: "tui_ok s"
  then have "tu_nav s = 0" if "tu_nav s \<noteq> 1" "tu_nav s \<noteq> 2" "tu_nav s \<noteq> 3" using that by (simp add: tui_ok_def)
  then show ?thesis
    using sig_list_ok [OF ok] filter_ok [OF ok] action_view_ok [OF ok] msg_list_ok [OF ok] playback_list_ok [OF ok]
      action_list_ok [OF ok] sub_tab_ok [OF ok] main_tab_ok [OF ok]
    by (simp add: level_event_def split: option.split)
qed

lemma shortcut_ok: "tui_ok s \<Longrightarrow> shortcut k s = Some s' \<Longrightarrow> tui_ok s'"
  using tab_count_pos [of s] tui_ok_main [of s _ 1]
  by (auto simp: shortcut_def tab_count_def playback_tab_idx_def split: if_splits)

lemma event_ok: "tui_ok s \<Longrightarrow> ok_after (on_event fmt now k s)"
  using action_edit_ok [of s] periodic_ok [of s] edit_ok [of s] search_ok [of s] level_ok [of s] shortcut_ok [of s]
  by (simp add: on_event_def split: option.split)

section \<open>The running interface\<close>

text \<open>Keys, frames and model outputs come in any order, and the asio thread works on the handler.\<close>

inductive tui_step :: "(dbl \<Rightarrow> string) \<Rightarrow> (dbl \<Rightarrow> dbl) \<Rightarrow> tui \<Rightarrow> tui \<Rightarrow> bool"
  for fmt :: "dbl \<Rightarrow> string" and sine :: "dbl \<Rightarrow> dbl" where
  press: "on_event fmt (ah_now (tu_handler s)) k s = Some (s', b) \<Longrightarrow> tui_step fmt sine s s'"
| receive: "tui_step fmt sine s (tui_update f s)"
| model_value: "tui_step fmt sine s (push_model_output n v s)"
| asio: "aio_step sine (\<lambda>_. True) (tu_handler s) h \<Longrightarrow> tui_step fmt sine s (s\<lparr>tu_handler := h\<rparr>)"

inductive_cases tui_stepE: "tui_step fmt sine s s'"

definition tui_start :: "tui \<Rightarrow> bool" where
  "tui_start s \<longleftrightarrow> (\<exists>load cfgs h pb m. s = (if m then enable_model_tab else id) (mk_tui load cfgs h pb))"

lemma tui_ok_start: "tui_start s \<Longrightarrow> tui_ok s"
proof -
  assume "tui_start s"
  then obtain load cfgs h pb m where s: "s = (if m then enable_model_tab else id) (mk_tui load cfgs h pb)"
    unfolding tui_start_def by blast
  show ?thesis
  proof (cases m)
    case True
    with s show ?thesis by (simp add: tui_ok_unfold mk_tui_def enable_model_tab_def)
  next
    case False
    with s show ?thesis by (simp add: tui_ok_unfold mk_tui_def)
  qed
qed

lemma event_Some_ok: "tui_ok s \<Longrightarrow> on_event fmt now k s = Some (s', b) \<Longrightarrow> tui_ok s'"
  using event_ok [of s fmt now k] by simp

lemma tui_ok_step: "tui_step fmt sine s s' \<Longrightarrow> tui_ok s \<Longrightarrow> tui_ok s'"
proof (induction rule: tui_step.induct)
  case (receive s f)
  then show ?case by (simp add: tui_update_def tui_ok_unfold Let_def)
next
  case (model_value s n v)
  then show ?case by (simp add: push_model_output_def tui_ok_unfold)
qed (simp_all add: event_Some_ok)

interpretation tui_sys: safe_system tui_start "tui_step fmt sine" tui_ok
  by unfold_locales (auto simp: tui_ok_start intro: tui_ok_step)

text \<open>C29: Whatever keys are pressed, frames received and actions run, the next key is handled
  without reading outside a vector; the selected tab exists, the signal list is only open in the
  Send tab, and the lists below a tab only where the tab has them.\<close>

theorem tui_never_undefined:
  assumes "tui_start s0" "(tui_step fmt sine)\<^sup>*\<^sup>* s0 s"
  shows "on_event fmt now k s \<noteq> None \<and> 0 \<le> tu_main s \<and> tu_main s < tab_count s
    \<and> (tu_nav s = 3 \<longrightarrow> tu_main s = 1)
    \<and> (tu_nav s = 2 \<longrightarrow> tu_main s = 1 \<or> tu_main s = 2 \<or> tu_main s = playback_tab_idx s \<and> tu_playback s \<noteq> None)"
proof -
  have ok: "tui_ok s" using tui_sys.inv_reachable assms .
  from event_ok [OF this, of fmt now k] have "on_event fmt now k s \<noteq> None" by (auto simp: holds_iff)
  with ok show ?thesis by (auto simp: tui_ok_def)
qed

text \<open>An interface with one bus whose DBC has one message of two bytes, and keys pressed in turn.\<close>

definition ex_tui :: tui where
  "ex_tui = mk_tui (\<lambda>_. Dbc_network [ex_message])
     [\<lparr>ic_name = ''vcan0'', ic_dbc = ''a.dbc'', ic_actions_file = [], ic_baudrate = 0\<rparr>] (mk_action_handler 0 []) None"

fun press_keys :: "key list \<Rightarrow> tui \<Rightarrow> tui option" where
  "press_keys [] s = Some s"
| "press_keys (k # ks) s = Option.bind (on_event (\<lambda>_. ''0'') (ah_now (tu_handler s)) k s) (\<lambda>(s', _). press_keys ks s')"

lemma press_keys_steps: "press_keys ks s = Some s' \<Longrightarrow> (tui_step (\<lambda>_. ''0'') sine)\<^sup>*\<^sup>* s s'"
proof (induction ks arbitrary: s)
  case (Cons k ks)
  then obtain s1 b where "on_event (\<lambda>_. ''0'') (ah_now (tu_handler s)) k s = Some (s1, b)" "press_keys ks s1 = Some s'"
    by (auto simp: bind_eq_Some_conv)
  with Cons.IH show ?case by (meson converse_rtranclp_into_rtranclp tui_step.press)
qed simp

lemma ex_tui_start: "tui_start ex_tui"
  unfolding tui_start_def ex_tui_def by (rule exI, rule exI, rule exI, rule exI, rule exI [of _ False]) simp

lemma press_keys_reach:
  "holds P (press_keys ks ex_tui) \<Longrightarrow> \<exists>s. (tui_step (\<lambda>_. ''0'') sine)\<^sup>*\<^sup>* ex_tui s \<and> P s"
  by (auto simp: holds_iff) (blast intro: press_keys_steps)

definition ex_sig_list :: "key list" where
  "ex_sig_list = [Char ''s'', Arrow_down, Return]"

lemma tui_never_undefined_witness:
  "\<exists>s. tu_nav s = 3 \<and> tu_main s = 1 \<and> tu_main s < tab_count s \<and> on_event (\<lambda>_. ''0'') 0 Return s \<noteq> None"
proof -
  have "holds (\<lambda>s. tu_nav s = 3) (press_keys ex_sig_list ex_tui)" by code_simp
  from press_keys_reach [OF this] obtain s
    where s: "(tui_step (\<lambda>_. ''0'') (\<lambda>x. x))\<^sup>*\<^sup>* ex_tui s" "tu_nav s = 3" by blast
  from tui_never_undefined [OF ex_tui_start s(1), where now = 0 and k = Return] s(2) show ?thesis by (intro exI [of _ s]) simp
qed

section \<open>What the wizards start\<close>

definition if_some :: "('a \<Rightarrow> bool) \<Rightarrow> 'a option \<Rightarrow> bool" where
  "if_some P r = (\<forall>a. r = Some a \<longrightarrow> P a)"

lemma if_some_simps [simp]:
  "if_some P (Some a) = P a" "if_some P None" "if_some (\<lambda>_. True) r"
  by (auto simp: if_some_def)

lemma if_some_map [simp]: "if_some P (map_option f r) = if_some (\<lambda>a. P (f a)) r"
  by (cases r) simp_all

lemma if_some_bind [simp]: "if_some P (Option.bind r g) = if_some (\<lambda>a. if_some P (g a)) r"
  by (cases r) simp_all

lemma if_some_case: "(x = None \<Longrightarrow> if_some P a) \<Longrightarrow> (\<And>v. x = Some v \<Longrightarrow> if_some P (f v)) \<Longrightarrow> if_some P (case x of None \<Rightarrow> a | Some v \<Rightarrow> f v)"
  by (cases x) simp_all

lemma if_some_if: "(b \<Longrightarrow> if_some P x) \<Longrightarrow> (\<not> b \<Longrightarrow> if_some P y) \<Longrightarrow> if_some P (if b then x else y)"
  by simp

lemma if_some_bindI: "(\<And>a. if_some P (g a)) \<Longrightarrow> if_some P (Option.bind r g)"
  by (cases r) simp_all

lemma if_some_mapI: "(\<And>a. P (f a)) \<Longrightarrow> if_some P (map_option f r)"
  by (cases r) simp_all

lemma if_some_all: "(\<And>a. P a) \<Longrightarrow> if_some P r"
  by (cases r) simp_all

lemma if_some_SomeI: "P a \<Longrightarrow> if_some P (Some a)"
  by simp

lemma if_some_consume [simp]: "if_some P (consume r) = if_some (\<lambda>s. P (s, True)) r"
  by (simp add: consume_def)

lemma if_some_consumeI: "if_some (\<lambda>s. P (s, True)) r \<Longrightarrow> if_some P (consume r)"
  by simp

lemma if_some_prod: "(\<And>a b. v = (a, b) \<Longrightarrow> if_some P (f a b)) \<Longrightarrow> if_some P (case v of (a, b) \<Rightarrow> f a b)"
  by (cases v) simp

text \<open>Walking through a function of the option monad, branch by branch.\<close>

lemmas if_someI = if_some_case if_some_prod if_some_consumeI if_some_if if_some_bindI if_some_mapI if_some_SomeI

lemmas if_some_unfold = if_some_def bind_eq_Some_conv

definition starts_well :: "models job \<Rightarrow> bool" where
  "starts_well j =
     (case j of
        Task (Add_action p a) \<Rightarrow>
          (case ac_kind a of Single_action \<Rightarrow> True | Periodic_action ms \<Rightarrow> 0 < ms
           | Sin_action sp \<Rightarrow> 0 < sp_interval sp \<and> 0 < sp_sin_period sp)
      | _ \<Rightarrow> True)"

definition queues_well :: "tui \<Rightarrow> tui \<Rightarrow> bool" where
  "queues_well s s' \<longleftrightarrow> (\<forall>j\<in>set (ah_queue (tu_handler s')). j \<in> set (ah_queue (tu_handler s)) \<or> starts_well j)"

lemma queues_well_same [simp]: "tu_handler s' = tu_handler s \<Longrightarrow> queues_well s s'"
  by (simp add: queues_well_def)

lemma queues_well_trans: "tu_handler s'' = tu_handler s' \<Longrightarrow> queues_well s s' \<Longrightarrow> queues_well s s''"
  by (simp add: queues_well_def)

lemma reset_handler [simp]:
  "tu_handler (reset_periodic s) = tu_handler s" "tu_handler (end_edit s) = tu_handler s"
  "tu_handler (end_action_edit s) = tu_handler s" "tu_handler (start_period s) = tu_handler s" "tu_handler (turn d s) = tu_handler s"
  by (simp_all add: reset_periodic_def end_edit_def end_action_edit_def start_period_def turn_def)

lemma queues_well_reset [simp]:
  "queues_well s (reset_periodic s') = queues_well s s'" "queues_well s (end_edit s') = queues_well s s'"
  "queues_well s (end_action_edit s') = queues_well s s'"
  by (simp_all add: queues_well_def)

lemma queues_well_post: "starts_well (Task (Add_action p a)) \<Longrightarrow> p = ah_fresh (tu_handler s) \<Longrightarrow> queues_well s (post_action a s)"
  by (auto simp: queues_well_def post_action_def add_action_def post_task_def)

lemma selected_queues:
  "(\<And>iface model mi msg. if_some (queues_well s) (f iface model mi msg)) \<Longrightarrow> if_some (queues_well s) (with_selected s f)"
  by (auto simp: with_selected_def if_some_unfold split: option.splits if_splits)

lemma create_queues:
  "if_some (queues_well s) (create_single_action s)"
  "0 < ms \<Longrightarrow> if_some (queues_well s) (create_periodic_action ms s)"
  "0 < tu_interval_ms s \<Longrightarrow> 0 < sp \<Longrightarrow> if_some (queues_well s) (create_sin_action now amp sp off s)"
proof -
  note post = queues_well_post if_some_unfold starts_well_def mk_action_def mk_sin_action_def
  show "if_some (queues_well s) (create_single_action s)"
    unfolding create_single_action_def by (rule selected_queues) (auto simp: post)
  show "if_some (queues_well s) (create_periodic_action ms s)" if "0 < ms"
    unfolding create_periodic_action_def using that by (intro selected_queues) (auto simp: post)
  show "if_some (queues_well s) (create_sin_action now amp sp off s)" if "0 < tu_interval_ms s" "0 < sp"
    unfolding create_sin_action_def using that by (intro selected_queues) (auto simp: post Let_def)
qed

lemma queues_well_task:
  "queues_well s (s\<lparr>tu_handler := update_payload i p (tu_handler s\<lparr>ah_store := m\<rparr>)\<rparr>)"
  "queues_well s (s\<lparr>tu_handler := update_sin_param i q v (tu_handler s)\<rparr>)"
  "queues_well s (s\<lparr>tu_handler := (tu_handler s)\<lparr>ah_store := m\<rparr>\<rparr>)"
  "queues_well s (s\<lparr>tu_handler := toggle_pause i (tu_handler s)\<rparr>)"
  "queues_well s (s\<lparr>tu_handler := remove_action i (tu_handler s), tu_act := c\<rparr>)"
  by (auto simp: queues_well_def update_payload_def update_sin_param_def toggle_pause_def remove_action_def post_task_def starts_well_def)

lemma commit_queues: "if_some (queues_well s) (commit_action_edit s)" "if_some (queues_well s) (commit_edit s)"
  unfolding commit_action_edit_def commit_action_signal_def commit_edit_def Let_def
  by (intro if_someI; simp add: queues_well_task split: option.split)+

lemma periodic_queues:
  assumes ok: "tui_ok s"
  shows "if_some (\<lambda>(s', _). queues_well s s') (periodic_event now k s)"
proof -
  have pos: "0 < tu_interval_ms s" if "tu_step s = Step_type \<or> tu_step s = Step_ready"
    using ok that by (auto simp: tui_ok_def less_eq_periodic_step_def)
  have "if_some (queues_well s) (start_sin now s)" if "tu_step s = Step_ready"
  proof -
    have "if_some (queues_well s) (if 0 < sp then create_sin_action now amp sp off s else Some s)" for sp amp off
      using pos that by (simp add: create_queues)
    then show ?thesis unfolding start_sin_def by (intro if_some_case if_some_SomeI queues_well_same refl)
  qed
  moreover have "if_some (queues_well s) (create_periodic_action (tu_interval_ms s) s)" if "tu_step s = Step_type"
    using pos that by (simp add: create_queues)
  moreover have "if_some (\<lambda>(s', _). queues_well s s') (field_event n p get (tu_amplitude_buf_update) d k s)"
    "if_some (\<lambda>(s', _). queues_well s s') (field_event n p get (tu_sin_period_buf_update) d k s)"
    "if_some (\<lambda>(s', _). queues_well s s') (field_event n p get (tu_offset_buf_update) d k s)" for n p get d
    by (simp_all add: field_event_def split: option.split)
  ultimately show ?thesis
    by (simp add: periodic_event_def period_event_def type_event_def ready_event_def split: periodic_step.split option.split key.split)
qed

lemma level_queues: "if_some (\<lambda>(s', _). queues_well s s') (level_event fmt k s)"
proof -
  have "if_some (queues_well s) (sig_list_enter fmt s)" "if_some (queues_well s) (sig_list_down s)"
    "if_some (queues_well s) (sig_list_two s)" "if_some (queues_well s) (action_view_enter fmt s)"
    "if_some (queues_well s) (action_view_down s)" "if_some (queues_well s) (trace_down s)"
    unfolding sig_list_enter_def sig_list_down_def sig_list_two_def action_view_enter_def action_view_down_def trace_down_def Let_def
    by (intro if_someI create_queues; simp)+
  then have "if_some (\<lambda>(s', _). queues_well s s') (sig_list_event fmt k s)"
    "if_some (\<lambda>(s', _). queues_well s s') (action_view_event fmt k s)"
    "if_some (\<lambda>(s', _). queues_well s s') (sub_tab_event k s)" "if_some (\<lambda>(s', _). queues_well s s') (msg_list_event k s)"
    by (simp_all add: sig_list_event_def action_view_event_def sub_tab_event_def msg_list_event_def create_queues)
      (intro conjI impI if_some_all; simp split: option.split)+
  moreover have "if_some (\<lambda>(s', _). queues_well s s') (filter_event pc k s)"
    "if_some (\<lambda>(s', _). queues_well s s') (playback_list_event pc k s)"
    "if_some (\<lambda>(s', _). queues_well s s') (action_list_event k s)" for pc
    unfolding filter_event_def playback_list_event_def action_list_event_def Let_def
    by (intro if_someI; simp add: queues_well_task)+
  moreover have "if_some (\<lambda>(s', _). queues_well s s') (main_tab_event k s)"
    by (simp add: main_tab_event_def)
  ultimately show ?thesis by (simp add: level_event_def split: option.split)
qed

lemma event_queues:
  assumes "tui_ok s"
  shows "if_some (\<lambda>(s', _). queues_well s s') (on_event fmt now k s)"
proof -
  have "if_some (\<lambda>(s', _). queues_well s s') (action_edit_event k s)" "if_some (\<lambda>(s', _). queues_well s s') (edit_event k s)"
    "if_some (\<lambda>(s', _). queues_well s s') (search_event k s)"
    using commit_queues [of s] by (simp_all add: action_edit_event_def edit_event_def search_event_def split: key.split)
  moreover have "if_some (queues_well s) (shortcut k s)"
    by (simp add: shortcut_def if_some_def)
  ultimately show ?thesis using periodic_queues [OF assms, of now k] level_queues [of s fmt k]
    by (auto simp: on_event_def split: option.split)
qed

text \<open>C30: The wizard never starts a periodic or sine action whose interval or sine period is not
  positive, whatever was typed.\<close>

theorem wizard_starts_positive:
  assumes "tui_start s0" "(tui_step fmt sine)\<^sup>*\<^sup>* s0 s" "on_event fmt now k s = Some (s', b)"
    and "Task (Add_action p a) \<in> set (ah_queue (tu_handler s'))" "Task (Add_action p a) \<notin> set (ah_queue (tu_handler s))"
  shows "case ac_kind a of Single_action \<Rightarrow> True | Periodic_action ms \<Rightarrow> 0 < ms
     | Sin_action sp \<Rightarrow> 0 < sp_interval sp \<and> 0 < sp_sin_period sp"
proof -
  have "tui_ok s" using tui_sys.inv_reachable assms(1,2) .
  from event_queues [OF this, of fmt now k] assms(3-5) show ?thesis
    by (auto simp: if_some_def queues_well_def starts_well_def)
qed

definition ex_interval_keys :: "key list" where
  "ex_interval_keys = ex_sig_list @ [Char ''2'', Char ''5'', Return]"

definition starts_periodic :: "int \<Rightarrow> models job list \<Rightarrow> bool" where
  "starts_periodic ms q =
     (case q of
        Task (Add_action p a) # _ \<Rightarrow> (case ac_kind a of Periodic_action i \<Rightarrow> i = ms | _ \<Rightarrow> False)
      | _ \<Rightarrow> False)"

lemma starts_periodicE:
  assumes "starts_periodic ms q"
  obtains p a where "Task (Add_action p a) \<in> set q" "ac_kind a = Periodic_action ms"
proof (cases q)
  case (Cons j js)
  with assms show ?thesis
    by (auto simp: starts_periodic_def intro: that split: job.splits task.splits action_kind.splits)
qed (use assms in \<open>simp add: starts_periodic_def\<close>)

lemma wizard_starts_positive_witness:
  "\<exists>s p a. (tui_step (\<lambda>_. ''0'') (\<lambda>x. x))\<^sup>*\<^sup>* ex_tui s \<and> Task (Add_action p a) \<in> set (ah_queue (tu_handler s))
     \<and> ac_kind a = Periodic_action 5 \<and> (0 :: int) < 5"
proof -
  have "holds (\<lambda>s. ah_queue (tu_handler s) = [] \<and>
      holds (\<lambda>(s', b). starts_periodic 5 (ah_queue (tu_handler s'))) (on_event (\<lambda>_. ''0'') (ah_now (tu_handler s)) Return s))
    (press_keys ex_interval_keys ex_tui)"
    by code_simp
  from press_keys_reach [OF this, of "\<lambda>x. x"] obtain s s' b
    where s: "(tui_step (\<lambda>_. ''0'') (\<lambda>x. x))\<^sup>*\<^sup>* ex_tui s" "ah_queue (tu_handler s) = []"
      "on_event (\<lambda>_. ''0'') (ah_now (tu_handler s)) Return s = Some (s', b)" "starts_periodic 5 (ah_queue (tu_handler s'))"
    by (auto simp: holds_iff)
  from s(4) obtain p a where a: "Task (Add_action p a) \<in> set (ah_queue (tu_handler s'))" "ac_kind a = Periodic_action 5"
    by (rule starts_periodicE)
  with s(2) wizard_starts_positive [OF ex_tui_start s(1) s(3), of p a] have "(0 :: int) < 5" by simp
  moreover from s(1,3) have "(tui_step (\<lambda>_. ''0'') (\<lambda>x. x))\<^sup>*\<^sup>* ex_tui s'"
    by (metis rtranclp.rtrancl_into_rtrancl tui_step.press)
  ultimately show ?thesis using a by blast
qed

section \<open>Editing running actions\<close>

text \<open>The interface over a handler in which one paused action has already been added.\<close>

definition ex_tui_with :: "models action \<Rightarrow> tui option" where
  "ex_tui_with a =
     map_option (\<lambda>h. mk_tui (\<lambda>_. Dbc_network [ex_message])
       [\<lparr>ic_name = ''vcan0'', ic_dbc = ''a.dbc'', ic_actions_file = [], ic_baudrate = 0\<rparr>] h None)
       (Option.bind (run_next (\<lambda>x. x) (add_action_paused a (mk_action_handler 0 []))) (run_next (\<lambda>x. x)))"

definition ex_preset :: "models action" where
  "ex_preset = mk_action ''vcan0'' 291 ''M'' [5, 6] (Periodic_action 100)"

definition ex_edit_first :: "key list" where
  "ex_edit_first = [Char ''a'', Return, Return, Backspace, Char ''7'', Return]"

text \<open>Editing one signal of an action in the Actions tab rewrites the others: the payload is
  encoded anew from the values of the Send tab, not from the action's own. Here the action sends
  the bytes 5 and 6, one signal each; setting the first to 7 also sets the second to 0.\<close>

theorem edit_resets_other_signals:
  "holds (\<lambda>s. map (\<lambda>(_, a). ac_payload a) (ah_actions (tu_handler s)) = [[5, 6]]
      \<and> holds (\<lambda>h. map (\<lambda>(_, a). ac_payload a) (ah_actions h) = [[7, 0]]) (run_next (\<lambda>x. x) (tu_handler s)))
    (Option.bind (ex_tui_with ex_preset) (press_keys ex_edit_first))"
  by code_simp

definition ex_sine :: "models action" where
  "ex_sine = mk_sin_action 0 ''vcan0'' 291 ''M'' 20 (\<lambda>m v. Some (m, [])) 0 1000 0"

definition ex_edit_period :: "key list" where
  "ex_edit_period = [Char ''a'', Return, Arrow_down, Return, Backspace, Backspace, Backspace, Backspace, Char ''0'', Return]"

text \<open>The editor of the Actions tab accepts the sine period 0 that the wizard refuses; the
  action then divides by it.\<close>

theorem edit_accepts_zero_period:
  "holds (\<lambda>s. holds (\<lambda>h. (case ah_actions h of
          [(_, a)] \<Rightarrow> (case ac_kind a of Sin_action sp \<Rightarrow> sp_sin_period sp = 0 | _ \<Rightarrow> False)
        | _ \<Rightarrow> False)) (run_next (\<lambda>x. x) (tu_handler s)))
    (Option.bind (ex_tui_with ex_sine) (press_keys ex_edit_period))"
  by code_simp

section \<open>Search\<close>

lemma ci_contains_prefix: "ci_contains (q @ r) hay \<Longrightarrow> ci_contains q hay"
  by (auto simp: ci_contains_def contains_sub_iff)

text \<open>Searching the trace ignores case, the empty query finds every frame, and typing on never
  finds a frame that was not found before.\<close>

theorem search_narrows:
  "trace_matches cid f [] \<and> trace_matches cid f (to_lower q) = trace_matches cid f q
     \<and> {f. trace_matches cid f (q @ r)} \<subseteq> {f. trace_matches cid f q}"
proof -
  have "tolower (tolower c) = tolower c" for c
    by (auto simp: tolower_def is_upper_def)
  then have "to_lower (to_lower q) = to_lower q" for q by (simp add: to_lower_def)
  moreover have "ci_contains [] hay" for hay
    unfolding ci_contains_def contains_sub_iff to_lower_def by (rule exI [of _ "[]"]) simp
  moreover have "to_lower (q @ r) = to_lower q @ to_lower r" by (simp add: to_lower_def)
  moreover have "to_lower [] = []" by (simp add: to_lower_def)
  ultimately show ?thesis
    by (auto simp: trace_matches_def Let_def list_ex_iff dest: ci_contains_prefix)
qed

end
