(* ===== verification/TuiDraw.thy ===== *)
theory TuiDraw
  imports TuiSafe
begin

text \<open>
  The drawing half of \<open>src/gui/TuiDataFrameSet\<close>: the tree of FTXUI elements each tab builds from
  the state. \<open>fmt\<close> formats a double by the specification between the braces of the source;
  reading outside a vector is None. Widths count bytes, as \<open>std::format\<close> does for ASCII text.
\<close>

section \<open>Elements\<close>

datatype style = Bold | Dim | Inverted | Focus | Center | Framed | Flex | Vscroll | Green | Red | Yellow | Width nat

datatype element =
    Text string | Hbox "element list" | Vbox "element list" | Separator | Filler | Window element element
  | Styled style element

text \<open>\<open>e | a | b\<close>, and the same under a condition.\<close>

definition styled :: "style list \<Rightarrow> element \<Rightarrow> element" where
  "styled ss e = fold Styled ss e"

definition styled_if :: "bool \<Rightarrow> style list \<Rightarrow> element \<Rightarrow> element" where
  "styled_if b ss e = (if b then styled ss e else e)"

text \<open>The characters outside ASCII, in UTF-8.\<close>

definition bar_text :: string where "bar_text = [CHR 0xE2, CHR 0x94, CHR 0x82]"
definition right_mark :: string where "right_mark = [CHR 0xE2, CHR 0x96, CHR 0xB6]"
definition left_mark :: string where "left_mark = [CHR 0xE2, CHR 0x97, CHR 0x80]"
definition dot_mark :: string where "dot_mark = [CHR 0xE2, CHR 0x97, CHR 0x8F]"
definition check_mark :: string where "check_mark = [CHR 0xE2, CHR 0x9C, CHR 0x93]"
definition delta_mark :: string where "delta_mark = [CHR 0xCE, CHR 0x94]"
definition right_arrow :: string where "right_arrow = [CHR 0xE2, CHR 0x86, CHR 0x92]"
definition left_arrow :: string where "left_arrow = [CHR 0xE2, CHR 0x86, CHR 0x90]"
definition o_umlaut :: string where "o_umlaut = [CHR 0xC3, CHR 0xB6]"
definition u_umlaut :: string where "u_umlaut = [CHR 0xC3, CHR 0xBC]"

definition mark :: "bool \<Rightarrow> string" where
  "mark b = (if b then right_mark @ '' '' else ''  '')"

definition hex_id :: "nat \<Rightarrow> string" where
  "hex_id i = ''0x'' @ fmt_03X i"

text \<open>The bytes in hex, separated by blanks.\<close>

definition hex_dump :: "bytes \<Rightarrow> string" where
  "hex_dump bs = butlast (concat (map (\<lambda>b. fmt_02X b @ '' '') bs))"

definition tab_label :: "int \<Rightarrow> bool \<Rightarrow> nat \<Rightarrow> string \<Rightarrow> element" where
  "tab_label selected focused i label =
     styled_if (int i = selected) [Inverted, if focused then Bold else Dim] (Text ('' '' @ label @ '' ''))"

definition make_tab_bar :: "string list \<Rightarrow> int \<Rightarrow> bool \<Rightarrow> element" where
  "make_tab_bar labels selected focused =
     Hbox (concat (map (\<lambda>(i, label). tab_label selected focused i label # (if i + 1 < length labels then [Text bar_text] else []))
       (enumerate 0 labels)))"

section \<open>Trace\<close>

definition frame_elem :: "(string \<Rightarrow> dbl \<Rightarrow> string) \<Rightarrow> data_frame_set \<Rightarrow> u32 \<times> can_frame \<Rightarrow> element" where
  "frame_elem fmt st p =
     (case p of (cid, frame) \<Rightarrow>
       let delta_str = (case dfs_delta st cid of
             None \<Rightarrow> '' | '' @ delta_mark @ '' ---    ''
           | Some d \<Rightarrow> '' | '' @ delta_mark @ '' '' @ fmt ''6.1f'' (millis d) @ ''ms'');
           name = fr_msg_name frame
       in Vbox (Hbox [styled [Bold] (Text (hex_id (unat cid))),
                      if name = [] then Text [] else styled [Bold] (Text (''  '' @ name)),
                      Text ('' | DLC:'' @ dec_of_nat (unat (hdr_dlc (fr_header frame)))),
                      styled [Dim] (Text delta_str),
                      if fr_decoded frame \<noteq> [] then Text [] else styled [Dim] (Text ('' | '' @ hex_dump (fr_payload frame)))]
                # map (\<lambda>sig. Text (''    '' @ ds_name sig @ '': '' @ fmt ''f'' (ds_value sig) @ '' '' @ ds_unit sig)) (fr_decoded frame)))"

text \<open>\<open>row\<close> is the position of the first entry among all rows drawn.\<close>

definition scroll_rows :: "(string \<Rightarrow> dbl \<Rightarrow> string) \<Rightarrow> tui \<Rightarrow> data_frame_set \<Rightarrow> nat \<Rightarrow> (u32 \<times> can_frame) list \<Rightarrow> element list" where
  "scroll_rows fmt s st row entries =
     map (\<lambda>(i, e). styled_if (int i = tu_trace s \<and> 1 \<le> tu_nav s) [Inverted, Focus] (frame_elem fmt st e)) (enumerate row entries)"

definition search_bar :: "tui \<Rightarrow> element" where
  "search_bar s = Hbox [styled [Dim] (Text ''Suche: [''), Text (tu_search_buf s), styled [Inverted] (Text ''_''), styled [Dim] (Text '']'')]"

definition or_text :: "string \<Rightarrow> element list \<Rightarrow> element list" where
  "or_text t rows = (if rows = [] then [styled [Dim] (Text t)] else rows)"

definition trace_plain :: "(string \<Rightarrow> dbl \<Rightarrow> string) \<Rightarrow> tui \<Rightarrow> data_frame_set \<Rightarrow> element \<Rightarrow> element" where
  "trace_plain fmt s st sub_tabs =
     (let content = styled [Vscroll, Framed] (Vbox (or_text ''(no frames)'' (scroll_rows fmt s st 0 (dfs_frames st))))
      in if tu_searching s then Vbox [sub_tabs, Separator, search_bar s, Separator, content] else Vbox [sub_tabs, Separator, content])"

definition matched :: "tui \<Rightarrow> data_frame_set \<Rightarrow> (u32 \<times> can_frame) list" where
  "matched s st = filter (\<lambda>(cid, frame). trace_matches cid frame (tu_search_buf s)) (dfs_frames st)"

definition unmatched :: "tui \<Rightarrow> data_frame_set \<Rightarrow> (u32 \<times> can_frame) list" where
  "unmatched s st = filter (\<lambda>(cid, frame). \<not> trace_matches cid frame (tu_search_buf s)) (dfs_frames st)"

definition trace_split :: "(string \<Rightarrow> dbl \<Rightarrow> string) \<Rightarrow> tui \<Rightarrow> data_frame_set \<Rightarrow> element \<Rightarrow> element" where
  "trace_split fmt s st sub_tabs =
     Vbox [sub_tabs, Separator, search_bar s, Separator,
           styled [Vscroll, Framed, Flex] (Vbox (or_text ''(keine Treffer)'' (scroll_rows fmt s st 0 (matched s st)))),
           Separator,
           styled [Vscroll, Framed] (Vbox (or_text ''(keine weiteren Frames)''
             (scroll_rows fmt s st (length (matched s st)) (unmatched s st))))]"

definition render_trace :: "(string \<Rightarrow> dbl \<Rightarrow> string) \<Rightarrow> tui \<Rightarrow> element option" where
  "render_trace fmt s =
     (let sub_tabs = make_tab_bar (map fst (tu_sets s)) (tu_sub_trace s) (tu_nav s = 1); count = int (length (tu_sets s))
      in if tu_sets s = [] then Some (Vbox [sub_tabs, Separator, styled [Dim, Center] (Text ''Waiting for frames...'')])
         else do { (name, st) \<leftarrow> nth_opt (tu_sets s) (if tu_sub_trace s < count then tu_sub_trace s else count - 1);
                   Some (if \<not> tu_searching s \<or> tu_search_buf s = [] then trace_plain fmt s st sub_tabs
                         else trace_split fmt s st sub_tabs) })"

section \<open>Send\<close>

definition msg_row :: "tui \<Rightarrow> nat \<Rightarrow> send_message \<Rightarrow> element" where
  "msg_row s i msg =
     (let sel = (int i = tu_msg s)
      in styled_if sel (if tu_nav s = 2 then [Bold, Inverted, Focus] else [Bold, Focus])
           (Text (mark sel @ hex_id (unat (sm_id msg)) @ ''  '' @ sm_name msg)))"

definition render_msg_list :: "tui \<Rightarrow> send_model \<Rightarrow> element" where
  "render_msg_list s model =
     styled [Vscroll, Framed] (Vbox (or_text ''(no messages in DBC)'' (map (\<lambda>(i, msg). msg_row s i msg) (enumerate 0 model))))"

text \<open>A row with a label and a value that may be edited.\<close>

definition value_elem :: "bool \<Rightarrow> string \<Rightarrow> string \<Rightarrow> element" where
  "value_elem editing buf shown =
     (if editing then styled [Inverted] (Hbox [Text ''['', Text buf, Text ''_]'']) else Text shown)"

definition value_row :: "bool \<Rightarrow> bool \<Rightarrow> bool \<Rightarrow> string \<Rightarrow> element \<Rightarrow> element list \<Rightarrow> element" where
  "value_row is_cur editing level label val unit_elem =
     styled_if is_cur [Focus] (styled_if (is_cur \<and> \<not> editing \<and> level) [Inverted]
       (Hbox ([Text (mark is_cur), styled_if is_cur [Bold] (Text label), val] @ unit_elem)))"

definition sig_row :: "(string \<Rightarrow> dbl \<Rightarrow> string) \<Rightarrow> int \<Rightarrow> bool \<Rightarrow> string \<Rightarrow> bool \<Rightarrow> nat \<Rightarrow> send_signal \<Rightarrow> element" where
  "sig_row fmt cursor edit buf level i sig =
     (let is_cur = (int i = cursor); editing = (is_cur \<and> edit)
      in value_row is_cur editing level (ss_name sig @ '': '') (value_elem editing buf (fmt ''.6g'' (ss_value sig)))
           [styled [Dim] (Text ('' '' @ ss_unit sig))])"

definition single_row :: "tui \<Rightarrow> bool \<Rightarrow> element" where
  "single_row s cur =
     styled_if cur [Focus] (styled_if (cur \<and> tu_nav s = 3) [Bold, Inverted] (Hbox [Text (mark cur), Text ''[ Single Action ]'']))"

definition periodic_row :: "tui \<Rightarrow> bool \<Rightarrow> element" where
  "periodic_row s cur =
     styled_if cur [Focus]
       (if cur \<and> tu_step s = Step_period
        then styled [Bold, Inverted] (Hbox [Text (right_mark @ '' [ Periodic Action ]   Interval: [''), Text (tu_interval_buf s), Text ''_] ms''])
        else if cur \<and> tu_step s \<noteq> Step_none
        then styled [Bold, Inverted] (Hbox [Text (right_mark @ '' [ Periodic Action ]   Interval: ''), Text (dec_of_int (tu_interval_ms s) @ '' ms'')])
        else styled_if (cur \<and> tu_nav s = 3) [Bold, Inverted] (Hbox [Text (mark cur), Text ''[ Periodic Action ]'']))"

definition type_rows :: "tui \<Rightarrow> bool \<Rightarrow> element list" where
  "type_rows s cur =
     (if cur \<and> tu_step s = Step_type
      then (let on_const = (tu_type s = 0)
            in [Hbox [Text ''    '', Text (mark on_const), styled (if on_const then [Bold, Inverted] else [Dim]) (Text ''[Constant]''),
                      Text ''   '', Text (mark (\<not> on_const)), styled (if on_const then [Dim] else [Bold, Inverted]) (Text ''[Sin]'')]])
      else [])"

definition sin_field :: "tui \<Rightarrow> string \<Rightarrow> string \<Rightarrow> string \<Rightarrow> periodic_step \<Rightarrow> element" where
  "sin_field s label buf unit_text step =
     (let active = (tu_step s = step)
      in styled_if active [Bold, Inverted]
           (Hbox [Text ''    '', styled [Dim] (Text label),
                  if active then Hbox [Text ''['', Text buf, Text ''_]''] else Text (if buf = [] then ''-'' else buf),
                  styled [Dim] (Text ('' '' @ unit_text))]))"

definition sin_rows :: "tui \<Rightarrow> bool \<Rightarrow> element list" where
  "sin_rows s cur =
     (if cur \<and> Step_amplitude \<le> tu_step s
      then [sin_field s ''Amplitude: '' (tu_amplitude_buf s) [] Step_amplitude,
            sin_field s ''Period:    '' (tu_sin_period_buf s) ''ms'' Step_sin_period,
            sin_field s ''Offset:    '' (tu_offset_buf s) [] Step_offset,
            styled (if tu_step s = Step_ready then [Bold, Inverted] else [Dim]) (Hbox [Text ''    '', Text ''[ Start ]''])]
      else [])"

definition raw_row :: "bytes \<Rightarrow> element" where
  "raw_row raw = Hbox [styled [Dim] (Text ''Raw: ''), styled [Bold] (Text (hex_dump raw))]"

definition sig_list_rows :: "(string \<Rightarrow> dbl \<Rightarrow> string) \<Rightarrow> tui \<Rightarrow> send_message \<Rightarrow> element list" where
  "sig_list_rows fmt s msg =
     (let n = int (length (sm_signals msg)); cur_single = (tu_sig s = n); cur_periodic = (tu_sig s = n + 1)
      in or_text ''(no signals)''
           (map (\<lambda>(i, sig). sig_row fmt (tu_sig s) (tu_editing s) (tu_edit_buf s) (tu_nav s = 3) i sig) (enumerate 0 (sm_signals msg)))
         @ [Text [], single_row s cur_single, periodic_row s cur_periodic] @ type_rows s cur_periodic @ sin_rows s cur_periodic)"

definition render_sig_list :: "(string \<Rightarrow> dbl \<Rightarrow> string) \<Rightarrow> tui \<Rightarrow> send_model \<Rightarrow> element option" where
  "render_sig_list fmt s model =
     (let mi = min (tu_msg s) (int (length model) - 1)
      in if mi < 0 then Some (styled [Dim] (Text ''(no message selected)''))
         else do { msg \<leftarrow> nth_opt model mi;
                   raw \<leftarrow> encode model mi;
                   Some (Vbox [styled [Bold] (Text (left_mark @ '' '' @ hex_id (unat (sm_id msg)) @ ''  '' @ sm_name msg)), Separator,
                               styled [Vscroll, Framed] (Vbox (sig_list_rows fmt s msg)), Separator, raw_row raw, Separator,
                               styled [Dim] (Hbox [styled [Bold] (Text ''[1]''), Text '' Single Action   '',
                                                   styled [Bold] (Text ''[2]''), Text '' Periodic Action''])]) })"

definition render_send :: "(string \<Rightarrow> dbl \<Rightarrow> string) \<Rightarrow> tui \<Rightarrow> element option" where
  "render_send fmt s =
     (let count = int (length (tu_interfaces s)); idx = (if 0 < count then min (tu_sub_send s) (count - 1) else 0)
      in do { m \<leftarrow> selected_send_model s;
              content \<leftarrow> (case m of
                  None \<Rightarrow> Some (styled [Dim, Center] (Text ''No DBC configured for this interface.''))
                | Some model \<Rightarrow> if 3 \<le> tu_nav s then render_sig_list fmt s model else Some (render_msg_list s model));
              Some (Vbox [make_tab_bar (tu_interfaces s) idx (tu_nav s = 1), Separator, content]) })"

section \<open>Actions\<close>

text \<open>\<open>duration_cast\<close> to milliseconds, which drops the fraction.\<close>

definition whole_millis :: "int \<Rightarrow> int" where
  "whole_millis ns = (if 0 \<le> ns then ns div 1000000 else - (- ns div 1000000))"

definition action_header :: "action_info \<Rightarrow> send_message \<Rightarrow> element" where
  "action_header info msg =
     styled [Bold] (Text (left_mark @ '' ['' @ ai_interface info @ ''] '' @ hex_id (unat (sm_id msg)) @ ''  '' @ sm_name msg
       @ ''  ('' @ ai_type_name info @ '', '' @ dec_of_int (ai_period info) @ ''ms interval)''))"

definition sin_fields :: "(string \<Rightarrow> dbl \<Rightarrow> string) \<Rightarrow> action_info \<Rightarrow> (string \<times> string) list" where
  "sin_fields fmt info =
     [(''Amplitude: '', fmt ''.6g'' (ai_sin_amplitude info)),
      (''Period:    '', dec_of_int (ai_sin_period_ms info) @ '' ms''),
      (''Offset:    '', fmt ''.6g'' (ai_sin_offset info))]"

definition sin_row :: "tui \<Rightarrow> nat \<Rightarrow> string \<times> string \<Rightarrow> element" where
  "sin_row s i field =
     (let is_cur = (int i = tu_act_sig s); editing = (is_cur \<and> tu_act_editing s)
      in value_row is_cur editing (tu_nav s = 2) (fst field) (value_elem editing (tu_act_buf s) (snd field)) [])"

definition render_action_signals :: "(string \<Rightarrow> dbl \<Rightarrow> string) \<Rightarrow> tui \<Rightarrow> action_info \<Rightarrow> element option" where
  "render_action_signals fmt s info =
     (case map_of (ah_store (tu_handler s)) (ai_interface info) of
        None \<Rightarrow> Some (styled [Dim, Center] (Text (''Kein SendModel f'' @ u_umlaut @ ''r dieses Interface.'')))
      | Some model \<Rightarrow>
          (case find_idx (\<lambda>m. sm_id m = ai_msg_id info) model of
             None \<Rightarrow> Some (styled [Dim, Center] (Text ''Message nicht in DBC gefunden.''))
           | Some mi \<Rightarrow>
               do { msg \<leftarrow> nth_opt model (int mi);
                    if ai_type_name info = ''Sin''
                    then Some (Vbox [action_header info msg, Separator,
                                     styled [Framed] (Vbox (map (\<lambda>(i, f). sin_row s i f) (enumerate 0 (sin_fields fmt info))))])
                    else do { raw \<leftarrow> encode model (int mi);
                              Some (Vbox [action_header info msg, Separator,
                                          styled [Vscroll, Framed] (Vbox (or_text ''(keine Signale)''
                                            (map (\<lambda>(i, sig). sig_row fmt (tu_act_sig s) (tu_act_editing s) (tu_act_buf s) (tu_nav s = 2) i sig)
                                              (enumerate 0 (sm_signals msg))))),
                                          Separator, raw_row raw]) } }))"

definition last_text :: "(string \<Rightarrow> dbl \<Rightarrow> string) \<Rightarrow> int \<Rightarrow> action_info \<Rightarrow> string" where
  "last_text fmt now a =
     (let ago = whole_millis (now - ai_last_sent a)
      in if \<not> ai_ever_sent a then ''never''
         else if ago < 1000 then pad_left 4 (CHR '' '') (dec_of_int ago) @ ''ms ago''
         else fmt ''.1f'' (f64_div (f64_of_int ago) (f64_of_int 1000)) @ ''s ago'')"

definition action_label :: "(string \<Rightarrow> dbl \<Rightarrow> string) \<Rightarrow> int \<Rightarrow> bool \<Rightarrow> action_info \<Rightarrow> string" where
  "action_label fmt now sel a =
     mark sel @ hex_id (unat (ai_msg_id a)) @ ''  '' @ pad_right 20 (CHR '' '') (ai_msg_name a) @ ''  ''
       @ pad_right 8 (CHR '' '') (ai_type_name a) @ ''  ''
       @ (if ai_is_periodic a then pad_left 6 (CHR '' '') (dec_of_int (ai_period a)) @ ''ms'' else ''      -  '') @ ''  ''
       @ ai_interface a @ ''  '' @ last_text fmt now a @ ''  '' @ (if ai_paused a then ''[paused]'' else [])"

definition action_line :: "(string \<Rightarrow> dbl \<Rightarrow> string) \<Rightarrow> int \<Rightarrow> tui \<Rightarrow> nat \<Rightarrow> action_info \<Rightarrow> element" where
  "action_line fmt now s i a =
     (let sel = (int i = tu_act s)
      in styled_if sel (if tu_nav s = 1 then [Bold, Inverted, Focus] else [Bold, Focus]) (Text (action_label fmt now sel a)))"

definition actions_title :: string where
  "actions_title = ''  '' @ pad_right 5 (CHR '' '') ''ID'' @ ''  '' @ pad_right 20 (CHR '' '') ''Name'' @ ''  '' @ pad_right 8 (CHR '' '') ''Typ''
     @ ''  '' @ pad_right 9 (CHR '' '') ''Periode'' @ ''  '' @ pad_right 6 (CHR '' '') ''Iface'' @ ''  '' @ ''Letzter Send''"

definition actions_list :: "(string \<Rightarrow> dbl \<Rightarrow> string) \<Rightarrow> int \<Rightarrow> tui \<Rightarrow> action_info list \<Rightarrow> element" where
  "actions_list fmt now s snap =
     Vbox [styled [Dim] (Text actions_title), Separator,
           styled [Vscroll, Framed] (Vbox (map (\<lambda>(i, a). action_line fmt now s i a) (enumerate 0 snap))), Separator,
           styled [Dim] (Hbox [styled [Bold] (Text (''['' @ right_arrow @ '']'')), Text '' Signale bearbeiten  '',
                               styled [Bold] (Text ''[Space]''), Text '' Pause/Resume  '',
                               styled [Bold] (Text ''[Del]''), Text ('' Action l'' @ o_umlaut @ ''schen'')])]"

definition render_actions :: "(string \<Rightarrow> dbl \<Rightarrow> string) \<Rightarrow> int \<Rightarrow> tui \<Rightarrow> element option" where
  "render_actions fmt now s =
     (let snap = snapshot (tu_handler s)
      in if tu_nav s = 2 \<and> tu_act s < int (length snap)
         then do { info \<leftarrow> nth_opt snap (tu_act s); render_action_signals fmt s info }
         else if snap = []
         then Some (Vbox [styled [Dim, Center] (Text ''Keine Actions definiert.''), Separator,
                          styled [Dim, Center] (Text ''[s] SingleAction  [p] PeriodicAction  im Send-Tab erstellen'')])
         else Some (actions_list fmt now s snap))"

section \<open>Playback\<close>

definition check_text :: "bool \<Rightarrow> string" where
  "check_text on = (if on then ''['' @ check_mark @ '']'' else ''[ ]'')"

text \<open>A row of the message filter, with its cursor and check box.\<close>

definition check_row :: "bool \<Rightarrow> bool \<Rightarrow> element \<Rightarrow> element" where
  "check_row sel on label =
     styled_if sel [Inverted, Focus]
       (Hbox [Text (mark sel), styled [if on then Green else Red] (Text (check_text on @ '' '')), label])"

definition filter_view :: "tui \<Rightarrow> string \<Rightarrow> (string \<times> bool) list \<Rightarrow> element" where
  "filter_view s iface msgs =
     Vbox [Hbox [styled [Dim] (Text (left_mark @ '' '')), styled [Bold] (Text iface)], Separator,
           styled [Vscroll, Framed] (Vbox (check_row (tu_pb_msg s = 0) (list_ex snd msgs) (styled [Bold] (Text ''Alle Messages'')) # Separator
             # map (\<lambda>(i, name, enabled). check_row (tu_pb_msg s = int i + 1) enabled (Text name)) (enumerate 0 msgs))),
           Separator,
           styled [Dim] (Hbox [styled [Bold] (Text ''[Enter]''), Text '' aktivieren / deaktivieren  '',
                               styled [Bold] (Text (''['' @ left_arrow @ '']'')), Text ('' zur'' @ u_umlaut @ ''ck'')])]"

definition playback_row :: "tui \<Rightarrow> nat \<Rightarrow> string \<Rightarrow> bool \<Rightarrow> element" where
  "playback_row s i name running =
     (let sel = (int i = tu_pb_cursor s)
      in styled_if sel (if tu_nav s = 1 then [Inverted, Focus] else [Focus])
           (Hbox [Text (mark sel), styled [Bold] (Text name),
                  if running then styled [Green] (Text ''  Running'') else styled [Yellow] (Text ''  Paused '')]))"

definition playback_list :: "tui \<Rightarrow> (string \<times> bool) list \<Rightarrow> element" where
  "playback_list s snap =
     Vbox [styled [Vscroll, Framed] (Vbox (map (\<lambda>(i, name, running). playback_row s i name running) (enumerate 0 snap))), Separator,
           styled [Dim] (Hbox [styled [Bold] (Text ''[Enter]''), Text '' starten / pausieren  '',
                               styled [Bold] (Text (''['' @ right_arrow @ '']'')), Text '' Messages filtern''])]"

definition render_playback :: "tui \<Rightarrow> element option" where
  "render_playback s =
     (case tu_playback s of
        None \<Rightarrow> Some (styled [Dim, Center] (Text ''No playback active.''))
      | Some pc \<Rightarrow>
          (let snap = pb_states pc
           in if snap = [] then Some (styled [Dim, Center] (Text ''No interfaces.''))
              else if 2 \<le> tu_nav s \<and> tu_pb_cursor s < int (length snap)
              then do { (iface, _) \<leftarrow> nth_opt snap (tu_pb_cursor s); Some (filter_view s iface (message_snapshot pc iface)) }
              else Some (playback_list s snap)))"

section \<open>Model and the whole screen\<close>

definition render_model :: "(string \<Rightarrow> dbl \<Rightarrow> string) \<Rightarrow> tui \<Rightarrow> element" where
  "render_model fmt s =
     (if tu_outputs s = [] then styled [Dim, Center] (Text ''Noch keine Modell-Ausgaben.'')
      else Vbox (Hbox [styled [Bold, Flex] (Text ''Variable''), styled [Bold, Width 24] (Text ''Wert'')] # Separator
             # map (\<lambda>(name, v). Hbox [styled [Flex] (Text name), styled [Width 24] (Text (fmt ''.6g'' v))]) (tu_outputs s)))"

definition tab_labels :: "tui \<Rightarrow> string list" where
  "tab_labels s =
     [''Trace'', ''Send'', ''Actions''] @ (if tu_model_tab s then [''Model''] else []) @ (if tu_playback s \<noteq> None then [''Playback''] else [])"

text \<open>\<open>status\<close>: the label of the indicator and what its function returns, once one is set (by a mode,
  see \<open>status_indicator\<close> in \<open>Modes\<close>).\<close>

definition title_row :: "(string \<times> bool) option \<Rightarrow> element" where
  "title_row status =
     (case status of
        None \<Rightarrow> Text '' caneo ''
      | Some (label, connected) \<Rightarrow>
          Hbox [Text '' caneo '', Filler,
                Hbox [styled [if connected then Green else Red] (Text (dot_mark @ '' '')), Text label,
                      if connected then Text '' '' else styled [Dim] (Text '' (reconnecting...) '')]])"

definition main_content :: "(string \<Rightarrow> dbl \<Rightarrow> string) \<Rightarrow> int \<Rightarrow> tui \<Rightarrow> element option" where
  "main_content fmt now s =
     (if tu_main s = 0 then render_trace fmt s
      else if tu_main s = 1 then render_send fmt s
      else if tu_main s = 2 then render_actions fmt now s
      else if tu_main s = 3 then (if tu_model_tab s then Some (render_model fmt s) else render_playback s)
      else render_playback s)"

definition render :: "(string \<Rightarrow> dbl \<Rightarrow> string) \<Rightarrow> int \<Rightarrow> (string \<times> bool) option \<Rightarrow> tui \<Rightarrow> element option" where
  "render fmt now status s =
     do { content \<leftarrow> main_content fmt now s;
          Some (Window (title_row status)
                  (Vbox [make_tab_bar (tab_labels s) (tu_main s) (tu_nav s = 0), Separator, content])) }"


section \<open>What is drawn\<close>

text \<open>FTXUI scrolls a frame to its focused element; \<open>focus_count\<close> is how many there are.\<close>

fun focus_count :: "element \<Rightarrow> nat" where
  "focus_count (Text _) = 0"
| "focus_count (Hbox es) = sum_list (map focus_count es)"
| "focus_count (Vbox es) = sum_list (map focus_count es)"
| "focus_count Separator = 0"
| "focus_count Filler = 0"
| "focus_count (Window t e) = focus_count t + focus_count e"
| "focus_count (Styled st e) = (if st = Focus then Suc (focus_count e) else focus_count e)"

definition focus_sum :: "element list \<Rightarrow> nat" where
  "focus_sum es = sum_list (map focus_count es)"

lemma focus_sum_simps [simp]:
  "focus_sum [] = 0" "focus_sum (e # es) = focus_count e + focus_sum es" "focus_sum (es @ es') = focus_sum es + focus_sum es'"
  by (simp_all add: focus_sum_def)

lemma focus_box [simp]: "focus_count (Hbox es) = focus_sum es" "focus_count (Vbox es) = focus_sum es"
  by (simp_all add: focus_sum_def)

declare focus_count.simps(2,3) [simp del]

lemma focus_styled [simp]: "focus_count (styled ss e) = count_list ss Focus + focus_count e"
  unfolding styled_def by (induction ss arbitrary: e) simp_all

lemma focus_styled_if [simp]: "focus_count (styled_if b ss e) = (if b then count_list ss Focus else 0) + focus_count e"
  by (simp add: styled_if_def)

lemma focus_or_text [simp]: "focus_sum (or_text t rows) = focus_sum rows"
  by (simp add: or_text_def)

text \<open>Of numbered rows only the one under the cursor may be focused.\<close>

lemma focus_rows:
  assumes "\<And>i x. focus_count (f i x) \<le> (if int i = c then 1 else 0)"
  shows "focus_sum (map (\<lambda>(i, x). f i x) (enumerate n xs)) \<le> (if int n \<le> c \<and> c < int (n + length xs) then 1 else 0)"
proof (induction xs arbitrary: n)
  case (Cons x xs)
  from Cons.IH [of "Suc n"] assms [of n x] show ?case by (auto split: if_splits)
qed simp

lemma focus_rows_one: "(\<And>i x. focus_count (f i x) \<le> (if int i = c then 1 else 0)) \<Longrightarrow> focus_sum (map (\<lambda>(i, x). f i x) (enumerate n xs)) \<le> 1"
  by (rule order_trans [OF focus_rows [where f = f and c = c]]) auto

text \<open>Rows that never focus.\<close>

lemma focus_none: "(\<And>x. focus_count (f x) = 0) \<Longrightarrow> focus_sum (map f xs) = 0"
  by (induction xs) simp_all

lemma focus_concat_none: "(\<And>x. focus_sum (f x) = 0) \<Longrightarrow> focus_sum (concat (map f xs)) = 0"
  by (induction xs) simp_all

lemma focus_tab_bar [simp]: "focus_count (make_tab_bar labels sel foc) = 0"
  by (auto simp: make_tab_bar_def tab_label_def intro!: focus_concat_none)

lemma focus_frame [simp]: "focus_count (frame_elem fmt st p) = 0"
  by (cases p) (simp add: frame_elem_def Let_def focus_none)

lemma focus_value_elem [simp]: "focus_count (value_elem ed buf shown) = 0"
  by (simp add: value_elem_def)

lemma focus_value_row [simp]:
  "focus_count val = 0 \<Longrightarrow> focus_sum us = 0 \<Longrightarrow> focus_count (value_row cur ed level label val us) = (if cur then 1 else 0)"
  by (simp add: value_row_def)

lemma focus_raw_row [simp]: "focus_count (raw_row raw) = 0"
  by (simp add: raw_row_def)

text \<open>The tabs one by one.\<close>

lemma focus_scroll_rows:
  "focus_sum (scroll_rows fmt s st n es) \<le> (if int n \<le> tu_trace s \<and> tu_trace s < int (n + length es) then 1 else 0)"
  unfolding scroll_rows_def by (rule focus_rows) simp

lemma focus_trace: "render_trace fmt s = Some e \<Longrightarrow> focus_count e \<le> 1"
proof -
  have "focus_count (trace_plain fmt s st (make_tab_bar ls i b)) \<le> 1" for st ls i b
    using focus_scroll_rows [of fmt s st 0 "dfs_frames st"]
    by (auto simp: trace_plain_def search_bar_def Let_def split: if_splits)
  moreover have "focus_count (trace_split fmt s st (make_tab_bar ls i b)) \<le> 1" for st ls i b
    using focus_scroll_rows [of fmt s st 0 "matched s st"] focus_scroll_rows [of fmt s st "length (matched s st)" "unmatched s st"]
    by (auto simp: trace_split_def search_bar_def split: if_splits)
  ultimately show "render_trace fmt s = Some e \<Longrightarrow> focus_count e \<le> 1"
    by (auto simp: render_trace_def Let_def bind_eq_Some_conv split: if_splits)
qed

lemma focus_msg_list: "focus_count (render_msg_list s model) \<le> 1"
proof -
  have "focus_sum (map (\<lambda>(i, msg). msg_row s i msg) (enumerate 0 model))
      \<le> (if int 0 \<le> tu_msg s \<and> tu_msg s < int (0 + length model) then 1 else 0)"
    by (rule focus_rows) (simp add: msg_row_def Let_def)
  then show ?thesis by (auto simp: render_msg_list_def split: if_splits)
qed

lemma focus_sig_rows:
  "focus_sum (map (\<lambda>(i, sig). sig_row fmt c ed buf level i sig) (enumerate 0 sigs)) \<le> (if 0 \<le> c \<and> c < int (length sigs) then 1 else 0)"
  using focus_rows [where f = "sig_row fmt c ed buf level" and c = c and n = 0 and xs = sigs]
  by (simp add: sig_row_def Let_def)

lemma focus_sig_list: "focus_sum (sig_list_rows fmt s msg) \<le> 1"
proof -
  have "focus_count (single_row s cur) = (if cur then 1 else 0)" "focus_count (periodic_row s cur) = (if cur then 1 else 0)"
    "focus_sum (type_rows s cur) = 0" "focus_sum (sin_rows s cur) = 0" for cur
    by (simp_all add: single_row_def periodic_row_def type_rows_def sin_rows_def sin_field_def Let_def)
  then show ?thesis
    using focus_sig_rows [of fmt "tu_sig s" "tu_editing s" "tu_edit_buf s" "tu_nav s = 3" "sm_signals msg"]
    by (auto simp: sig_list_rows_def Let_def split: if_splits)
qed

lemma focus_send: "render_send fmt s = Some e \<Longrightarrow> focus_count e \<le> 1"
proof -
  have "focus_count e \<le> 1" if "render_sig_list fmt s model = Some e" for model e
    using that focus_sig_list [of fmt s] by (auto simp: render_sig_list_def Let_def bind_eq_Some_conv split: if_splits)
  then show "render_send fmt s = Some e \<Longrightarrow> focus_count e \<le> 1"
    using focus_msg_list by (auto simp: render_send_def Let_def bind_eq_Some_conv split: option.splits if_splits)
qed

lemma focus_sin_rows: "focus_sum (map (\<lambda>(i, f). sin_row s i f) (enumerate 0 fs)) \<le> 1"
  using focus_rows [where f = "sin_row s" and c = "tu_act_sig s" and n = 0 and xs = fs]
  by (auto simp: sin_row_def Let_def split: if_splits)

lemma focus_action_signals: "render_action_signals fmt s info = Some e \<Longrightarrow> focus_count e \<le> 1"
proof -
  have "focus_sum (map (\<lambda>(i, sig). sig_row fmt c ed buf level i sig) (enumerate 0 sigs)) \<le> Suc 0" for c ed buf level sigs
    using focus_sig_rows [of fmt c ed buf level sigs] by (auto split: if_splits)
  then show "render_action_signals fmt s info = Some e \<Longrightarrow> focus_count e \<le> 1"
    using focus_sin_rows [of s "sin_fields fmt info"]
    by (auto simp: render_action_signals_def action_header_def bind_eq_Some_conv split: option.splits if_splits)
qed

lemma focus_actions: "render_actions fmt now s = Some e \<Longrightarrow> focus_count e \<le> 1"
proof -
  have "focus_sum (map (\<lambda>(i, a). action_line fmt now s i a) (enumerate 0 snap)) \<le> 1" for snap
    by (rule focus_rows_one [where c = "tu_act s"]) (simp add: action_line_def Let_def)
  then have "focus_count (actions_list fmt now s snap) \<le> 1" for snap
    by (simp add: actions_list_def)
  then show "render_actions fmt now s = Some e \<Longrightarrow> focus_count e \<le> 1"
    using focus_action_signals by (auto simp: render_actions_def Let_def bind_eq_Some_conv split: if_splits)
qed

lemma focus_check_row [simp]: "focus_count (check_row sel on label) = (if sel then 1 else 0) + focus_count label"
  by (simp add: check_row_def)

lemma focus_playback: "render_playback s = Some e \<Longrightarrow> focus_count e \<le> 1"
proof -
  have "focus_sum (map (\<lambda>(i, x). (\<lambda>(n, r). playback_row s i n r) x) (enumerate 0 snap)) \<le> 1" for snap
    by (rule focus_rows_one [where c = "tu_pb_cursor s"]) (simp add: playback_row_def Let_def split: prod.split)
  then have "focus_count (playback_list s snap) \<le> 1" for snap
    by (simp add: playback_list_def)
  moreover
  have "focus_sum (map (\<lambda>(i, name, enabled). check_row (tu_pb_msg s = int i + 1) enabled (Text name)) (enumerate 0 msgs))
      \<le> (if int 0 \<le> tu_pb_msg s - 1 \<and> tu_pb_msg s - 1 < int (0 + length msgs) then 1 else 0)" for msgs
    by (rule focus_rows) auto
  then have "focus_sum (map (\<lambda>(i, name, enabled). check_row (tu_pb_msg s = int i + 1) enabled (Text name)) (enumerate 0 msgs))
      \<le> (if tu_pb_msg s = 0 then 0 else 1)" for msgs
    by (rule order_trans) auto
  then have "focus_count (filter_view s iface msgs) \<le> 1" for iface msgs
    by (cases "tu_pb_msg s = 0") (simp_all add: filter_view_def)
  ultimately show "render_playback s = Some e \<Longrightarrow> focus_count e \<le> 1"
    by (auto simp: render_playback_def Let_def bind_eq_Some_conv split: option.splits if_splits)
qed

lemma focus_model: "focus_count (render_model fmt s) = 0"
  by (auto simp: render_model_def intro!: focus_none)

lemma focus_render:
  assumes "render fmt now status s = Some e"
  shows "focus_count e \<le> 1"
proof -
  have "focus_count (title_row status) = 0" by (simp add: title_row_def split: option.split)
  moreover have "focus_count c \<le> 1" if "main_content fmt now s = Some c" for c
    using that focus_trace focus_send focus_actions focus_playback focus_model [of fmt s]
    by (auto simp: main_content_def split: if_splits)
  ultimately show ?thesis using assms by (auto simp: render_def bind_eq_Some_conv)
qed


section \<open>Every screen is drawn\<close>

lemma trace_drawn: "tui_ok s \<Longrightarrow> render_trace fmt s \<noteq> None"
  using tui_okD(3) [of s] by (auto simp: render_trace_def Let_def nth_opt_def split: prod.split)

lemma send_drawn: "tui_ok s \<Longrightarrow> render_send fmt s \<noteq> None"
proof -
  assume ok: "tui_ok s"
  obtain m where m: "selected_send_model s = Some m" using selected_model_defined [OF ok] by auto
  have "\<exists>e. render_sig_list fmt s model = Some e" for model
    using tui_okD(5) [OF ok] by (simp add: render_sig_list_def encode_def min_def Let_def nth_opt_def)
  then obtain f where "\<And>model. render_sig_list fmt s model = Some (f model)" by metis
  with m show ?thesis by (simp add: render_send_def Let_def split: option.split)
qed

lemma actions_drawn: "tui_ok s \<Longrightarrow> render_actions fmt now s \<noteq> None"
proof -
  assume ok: "tui_ok s"
  have "render_action_signals fmt s info \<noteq> None" for info
    by (auto simp: render_action_signals_def encode_def dest!: find_idx_Some split: option.split)
  then show ?thesis using tui_okD(7) [OF ok] by (auto simp: render_actions_def Let_def nth_opt_def)
qed

lemma playback_drawn: "tui_ok s \<Longrightarrow> render_playback s \<noteq> None"
  using tui_okD(1) [of s] by (auto simp: render_playback_def Let_def nth_opt_def split: option.split prod.split)

lemma render_drawn: "tui_ok s \<Longrightarrow> \<exists>c. main_content fmt now s = Some c"
  using trace_drawn [of s] send_drawn [of s] actions_drawn [of s] playback_drawn [of s]
  by (auto simp: main_content_def)

text \<open>C17: Every state the terminal interface reaches can be drawn: no row, label or model is
  read outside its vector, the tab bar has a label for the selected tab, and the screen has at
  most one focused element, so the frame scrolls to one cursor.\<close>

theorem every_screen_drawn:
  assumes "tui_start s0" "(tui_step fmt0 sine)\<^sup>*\<^sup>* s0 s"
  shows "\<exists>c. render fmt now status s = Some (Window (title_row status)
           (Vbox [make_tab_bar (tab_labels s) (tu_main s) (tu_nav s = 0), Separator, c]))
     \<and> focus_count c \<le> 1 \<and> 0 \<le> tu_main s \<and> tu_main s < int (length (tab_labels s))"
proof -
  have ok: "tui_ok s" using tui_sys.inv_reachable assms .
  then obtain c where c: "main_content fmt now s = Some c" using render_drawn by blast
  then have drawn: "render fmt now status s = Some (Window (title_row status)
      (Vbox [make_tab_bar (tab_labels s) (tu_main s) (tu_nav s = 0), Separator, c]))"
    by (simp add: render_def)
  from focus_render [OF this] have "focus_count c \<le> 1" by simp
  moreover from ok have "0 \<le> tu_main s" "tu_main s < tab_count s" by (simp_all add: tui_ok_def)
  then have "0 \<le> tu_main s \<and> tu_main s < int (length (tab_labels s))"
    by (cases "tu_playback s") (simp_all add: tab_count_def tab_labels_def split: if_splits)
  ultimately show ?thesis using drawn by (intro exI [of _ c]) simp
qed

lemma every_screen_drawn_witness:
  "\<exists>s c. tu_nav s = 3 \<and> render (\<lambda>_ _. ''0'') 0 None s =
       Some (Window (Text '' caneo '') (Vbox [make_tab_bar (tab_labels s) (tu_main s) False, Separator, c]))
     \<and> focus_count c \<le> 1"
proof -
  have "holds (\<lambda>s. tu_nav s = 3) (press_keys ex_sig_list ex_tui)" by code_simp
  from press_keys_reach [OF this] obtain s
    where s: "(tui_step (\<lambda>_. ''0'') (\<lambda>x. x))\<^sup>*\<^sup>* ex_tui s" "tu_nav s = 3" by blast
  from every_screen_drawn [OF ex_tui_start s(1), where fmt = "\<lambda>_ _. ''0''" and now = 0 and status = None] s(2)
  show ?thesis by (auto simp: title_row_def)
qed


end
