(* ===== verification/Graph.thy ===== *)
theory Graph
  imports Config Decoder
begin

text \<open>
  \<open>src/gui/GraphWindow\<close>, \<open>src/gui/GraphPreset\<close> and the values of \<open>src/gui/ModelWindow\<close>: the
  time series behind the plots. ImGui and ImPlot are parameters: a rendered frame takes what the
  widgets report (which buttons and menu items were activated, what the mouse hovers) and yields
  the plot commands, in order. The methods hold the window's mutex, so each is one step.
\<close>

section \<open>State\<close>

record series =
  se_interface :: string
  se_msg_id :: u32
  se_signal :: string
  se_label :: string
  se_y_min :: dbl
  se_y_max :: dbl
  se_y_axis :: int
  se_xs :: "dbl list"
  se_ys :: "dbl list"

record graph_tab =
  gt_name :: string
  gt_series :: "series list"
  gt_follow :: bool
  gt_x_range :: dbl

record pending_ctx =
  px_tab :: nat
  px_series :: nat
  px_signal :: string
  px_axis :: int

record graph_window =
  gw_graphs :: "graph_tab list"
  gw_start :: int
  gw_pending :: "pending_ctx option"
  gw_open_ctx :: bool

definition max_points :: nat where "max_points = 10000"

definition mk_graph_window :: "int \<Rightarrow> graph_window" where
  "mk_graph_window now = \<lparr>gw_graphs = [], gw_start = now, gw_pending = None, gw_open_ctx = False\<rparr>"

section \<open>Data\<close>

definition push :: "dbl \<Rightarrow> dbl \<Rightarrow> series \<Rightarrow> series" where
  "push t v s =
     (let xs = se_xs s @ [t]; ys = se_ys s @ [v]
      in if max_points < length xs then s\<lparr>se_xs := tl xs, se_ys := tl ys\<rparr> else s\<lparr>se_xs := xs, se_ys := ys\<rparr>)"

definition map_series :: "(series \<Rightarrow> series) \<Rightarrow> graph_window \<Rightarrow> graph_window" where
  "map_series f g = g\<lparr>gw_graphs := map (\<lambda>tab. tab\<lparr>gt_series := map f (gt_series tab)\<rparr>) (gw_graphs g)\<rparr>"

definition update_series :: "dbl \<Rightarrow> can_frame \<Rightarrow> series \<Rightarrow> series" where
  "update_series t frame s =
     (if se_interface s \<noteq> hdr_interface (fr_header frame) \<or> se_msg_id s \<noteq> hdr_id (fr_header frame) then s
      else case List.find (\<lambda>sig. ds_name sig = se_signal s) (fr_decoded frame) of
             None \<Rightarrow> s | Some sig \<Rightarrow> push t (ds_value sig) s)"

definition gw_update :: "can_frame \<Rightarrow> graph_window \<Rightarrow> graph_window" where
  "gw_update frame g = map_series (update_series (seconds (fr_timestamp frame - gw_start g)) frame) g"

text \<open>\<open>push_value\<close> stops at the first series of a tab that matches.\<close>

fun push_first :: "string \<Rightarrow> string \<Rightarrow> dbl \<Rightarrow> dbl \<Rightarrow> series list \<Rightarrow> series list" where
  "push_first iface name t v [] = []"
| "push_first iface name t v (s # ss) =
     (if se_interface s = iface \<and> se_msg_id s = 0 \<and> se_signal s = name then push t v s # ss
      else s # push_first iface name t v ss)"

definition push_value :: "int \<Rightarrow> string \<Rightarrow> string \<Rightarrow> dbl \<Rightarrow> graph_window \<Rightarrow> graph_window" where
  "push_value now iface name v g =
     g\<lparr>gw_graphs := map (\<lambda>tab. tab\<lparr>gt_series :=
         push_first iface name (seconds (now - gw_start g)) v (gt_series tab)\<rparr>) (gw_graphs g)\<rparr>"

definition new_tab :: "string \<Rightarrow> graph_tab" where
  "new_tab name = \<lparr>gt_name = name, gt_series = [], gt_follow = True, gt_x_range = f64_of_int 30\<rparr>"

definition add_graph :: "string \<Rightarrow> graph_window \<Rightarrow> graph_window \<times> nat" where
  "add_graph name g =
     (let name = (if name = [] then ''graph'' @ dec_of_nat (length (gw_graphs g) + 1) else name);
          g' = g\<lparr>gw_graphs := gw_graphs g @ [new_tab name]\<rparr>
      in (g', length (gw_graphs g') - 1))"

definition same_series :: "string \<Rightarrow> u32 \<Rightarrow> string \<Rightarrow> series \<Rightarrow> bool" where
  "same_series iface mid name s \<longleftrightarrow> se_interface s = iface \<and> se_msg_id s = mid \<and> se_signal s = name"

definition add_signal :: "nat \<Rightarrow> string \<Rightarrow> u32 \<Rightarrow> string \<Rightarrow> dbl \<Rightarrow> dbl \<Rightarrow> int \<Rightarrow> string \<Rightarrow> graph_window \<Rightarrow> graph_window" where
  "add_signal i iface mid name y_min y_max y_axis label g =
     (if length (gw_graphs g) \<le> i then g
      else (let tab = gw_graphs g ! i
            in if list_ex (same_series iface mid name) (gt_series tab) then g
               else g\<lparr>gw_graphs := (gw_graphs g)[i := tab\<lparr>gt_series := gt_series tab @
                 [\<lparr>se_interface = iface, se_msg_id = mid, se_signal = name,
                   se_label = (if label = [] then name else label),
                   se_y_min = y_min, se_y_max = y_max, se_y_axis = y_axis, se_xs = [], se_ys = []\<rparr>]\<rparr>]\<rparr>))"

definition graph_names :: "graph_window \<Rightarrow> string list" where
  "graph_names g = map gt_name (gw_graphs g)"

section \<open>Rendering\<close>

text \<open>
  What ImGui and ImPlot report during one frame, by tab and series; \<open>gu_zoom\<close> is
  \<open>std::pow(0.85, wheel)\<close>, whose value the library leaves open.
\<close>

record graph_ui =
  gu_add :: bool
  gu_tab_bar :: bool
  gu_tab :: "nat \<Rightarrow> bool"
  gu_reset :: "nat \<Rightarrow> bool"
  gu_plot :: "nat \<Rightarrow> bool"
  gu_wheel :: bool
  gu_zoom :: dbl
  gu_axis_hovered :: "nat \<Rightarrow> bool"
  gu_plot_hovered :: "nat \<Rightarrow> bool"
  gu_dragging :: bool
  gu_legend :: "nat \<Rightarrow> nat \<Rightarrow> bool"
  gu_popup :: bool
  gu_axis_item :: "nat \<Rightarrow> bool"
  gu_remove :: bool

datatype plot_cmd =
    Setup_axis nat
  | X_limits dbl dbl
  | Y_limits nat dbl dbl
  | Plot_line nat string "dbl list" "dbl list"

definition uses_axis :: "int \<Rightarrow> graph_tab \<Rightarrow> bool" where
  "uses_axis a tab \<longleftrightarrow> list_ex (\<lambda>s. se_y_axis s = a) (gt_series tab)"

definition setup_axes :: "graph_tab \<Rightarrow> plot_cmd list" where
  "setup_axes tab = (if uses_axis 1 tab then [Setup_axis 1] else []) @ (if uses_axis 2 tab then [Setup_axis 2] else [])"

definition minus_one :: dbl where "minus_one = f64_of_int (- 1)"

definition latest :: "graph_tab \<Rightarrow> dbl" where
  "latest tab =
     fold (\<lambda>s t_max. if se_xs s \<noteq> [] \<and> f64_lt t_max (last (se_xs s)) then last (se_xs s) else t_max)
       (gt_series tab) minus_one"

definition x_limits :: "graph_tab \<Rightarrow> plot_cmd list" where
  "x_limits tab =
     (let t_max = latest tab
      in if gt_follow tab \<and> f64_le 0 t_max then [X_limits (f64_sub t_max (gt_x_range tab)) t_max] else [])"

definition f64_max :: dbl where "f64_max = 0x7FEFFFFFFFFFFFFF"
definition f64_lowest :: dbl where "f64_lowest = 0xFFEFFFFFFFFFFFFF"

text \<open>\<open>std::min(a, b)\<close> and \<open>std::max(a, b)\<close> return \<open>a\<close> unless \<open>b\<close> is smaller or larger.\<close>

definition std_min :: "dbl \<Rightarrow> dbl \<Rightarrow> dbl" where "std_min a b = (if f64_lt b a then b else a)"
definition std_max :: "dbl \<Rightarrow> dbl \<Rightarrow> dbl" where "std_max a b = (if f64_lt a b then b else a)"

definition y_limits :: "graph_tab \<Rightarrow> nat \<Rightarrow> plot_cmd list" where
  "y_limits tab a =
     (let (lo, hi) = fold (\<lambda>s (lo, hi).
            if se_y_axis s \<noteq> int a \<or> f64_eq (se_y_min s) 0 \<and> f64_eq (se_y_max s) 0 then (lo, hi)
            else (std_min lo (se_y_min s), std_max hi (se_y_max s))) (gt_series tab) (f64_max, f64_lowest)
      in if 0 < a \<and> \<not> uses_axis (int a) tab then []
         else if f64_lt lo hi then [Y_limits a lo hi] else [])"

definition follow :: "graph_ui \<Rightarrow> nat \<Rightarrow> graph_tab \<Rightarrow> graph_tab" where
  "follow ui i tab =
     (if \<not> gt_follow tab then tab
      else (let tab1 = (if gu_axis_hovered ui i \<and> gu_wheel ui
                        then tab\<lparr>gt_x_range := f64_clamp (f64_mul (gt_x_range tab) (gu_zoom ui)) (f64_div (f64_of_int 1) (f64_of_int 2)) (f64_of_int 7200)\<rparr>
                        else tab)
            in if (gu_plot_hovered ui i \<or> gu_axis_hovered ui i) \<and> gu_dragging ui then tab1\<lparr>gt_follow := False\<rparr> else tab1))"

definition axis_of :: "series \<Rightarrow> nat" where
  "axis_of s = nat (max 0 (min 2 (se_y_axis s)))"

definition plot_series :: "graph_tab \<Rightarrow> plot_cmd list" where
  "plot_series tab = map (\<lambda>s. Plot_line (axis_of s) (se_label s) (se_xs s) (se_ys s)) (filter (\<lambda>s. se_xs s \<noteq> []) (gt_series tab))"

text \<open>The series of a tab whose legend entry was right-clicked; a later one replaces an earlier.\<close>

definition legend_clicked :: "graph_ui \<Rightarrow> nat \<Rightarrow> graph_tab \<Rightarrow> pending_ctx option" where
  "legend_clicked ui i tab =
     fold (\<lambda>(k, s) p. if se_xs s \<noteq> [] \<and> gu_legend ui i k
                      then Some \<lparr>px_tab = i, px_series = k, px_signal = se_signal s, px_axis = se_y_axis s\<rparr> else p)
       (enumerate 0 (gt_series tab)) None"

definition render_plot :: "graph_ui \<Rightarrow> nat \<Rightarrow> graph_tab \<Rightarrow> graph_tab \<times> plot_cmd list \<times> pending_ctx option" where
  "render_plot ui i tab =
     (follow ui i tab,
      setup_axes tab @ x_limits tab @ concat (map (y_limits tab) [0, 1, 2]) @ plot_series tab,
      legend_clicked ui i tab)"

definition render_tab :: "graph_ui \<Rightarrow> nat \<Rightarrow> graph_tab \<Rightarrow> graph_tab \<times> plot_cmd list \<times> pending_ctx option" where
  "render_tab ui i tab =
     (if \<not> gu_tab ui i then (tab, [], None)
      else (let tab1 = (if gu_reset ui i then tab\<lparr>gt_follow := True\<rparr> else tab)
            in if gu_plot ui i then render_plot ui i tab1 else (tab1, [], None)))"

fun render_tabs :: "graph_ui \<Rightarrow> nat \<Rightarrow> graph_tab list \<Rightarrow> graph_tab list \<times> plot_cmd list \<times> pending_ctx option" where
  "render_tabs ui i [] = ([], [], None)"
| "render_tabs ui i (tab # tabs) =
     (let (tab', cmds, p) = render_tab ui i tab; (tabs', cmds', p') = render_tabs ui (Suc i) tabs
      in (tab' # tabs', cmds @ cmds', if p' = None then p else p'))"

text \<open>The menu of a series. Of several axes activated in one frame the last one counts.\<close>

definition new_axis :: "graph_ui \<Rightarrow> pending_ctx \<Rightarrow> int option" where
  "new_axis ui p =
     fold (\<lambda>a r. if gu_axis_item ui a \<and> px_axis p \<noteq> int a then Some (int a) else r) [0, 1, 2] None"

definition apply_menu :: "graph_ui \<Rightarrow> pending_ctx \<Rightarrow> graph_window \<Rightarrow> graph_window" where
  "apply_menu ui p g =
     (if new_axis ui p = None \<and> \<not> gu_remove ui then g
      else (let i = px_tab p; k = px_series p;
                g1 = (if i < length (gw_graphs g) \<and> k < length (gt_series (gw_graphs g ! i))
                      then (let tab = gw_graphs g ! i;
                                ss = (if gu_remove ui then erase_idx k (gt_series tab)
                                      else (gt_series tab)[k := (gt_series tab ! k)\<lparr>se_y_axis := the (new_axis ui p)\<rparr>])
                            in g\<lparr>gw_graphs := (gw_graphs g)[i := tab\<lparr>gt_series := ss\<rparr>]\<rparr>)
                      else g)
            in g1\<lparr>gw_pending := None\<rparr>))"

definition gw_render :: "graph_ui \<Rightarrow> graph_window \<Rightarrow> graph_window \<times> plot_cmd list" where
  "gw_render ui g =
     (let g1 = (if gu_add ui then fst (add_graph [] g) else g)
      in if gw_graphs g1 = [] then (g1, [])
         else (let (tabs, cmds, p) = (if gu_tab_bar ui then render_tabs ui 0 (gw_graphs g1) else (gw_graphs g1, [], None));
                   g2 = g1\<lparr>gw_graphs := tabs, gw_pending := (if p = None then gw_pending g1 else p), gw_open_ctx := False\<rparr>
               in (case (if gu_popup ui then gw_pending g2 else None) of
                     None \<Rightarrow> g2 | Some q \<Rightarrow> apply_menu ui q g2, cmds)))"

section \<open>The values of the model window\<close>

record model_window =
  mw_values :: "(string \<times> dbl) list"

definition model_iface :: string where "model_iface = ''__model__''"

fun set_named :: "string \<Rightarrow> dbl \<Rightarrow> (string \<times> dbl) list \<Rightarrow> (string \<times> dbl) list" where
  "set_named name v [] = [(name, v)]"
| "set_named name v ((n, w) # kvs) = (if n = name then (n, v) # kvs else (n, w) # set_named name v kvs)"

definition mw_push :: "int \<Rightarrow> string \<Rightarrow> dbl \<Rightarrow> model_window \<times> graph_window \<Rightarrow> model_window \<times> graph_window" where
  "mw_push now name v mg =
     (case mg of (m, g) \<Rightarrow> (m\<lparr>mw_values := set_named name v (mw_values m)\<rparr>, push_value now model_iface name v g))"

section \<open>Graph presets\<close>

record msg_info =
  mi_id :: u32
  mi_signals :: "string \<rightharpoonup> dbl \<times> dbl"

type_synonym dbc_index = "string \<rightharpoonup> msg_info"

definition msg_info_of :: "imessage \<Rightarrow> msg_info" where
  "msg_info_of msg =
     \<lparr>mi_id = ucast (ms_id msg),
      mi_signals = fold (\<lambda>s m. m(sg_name s \<mapsto> (sg_minimum s, sg_maximum s))) (ms_signals msg) Map.empty\<rparr>"

definition build_dbc_index :: "(string \<Rightarrow> dbc_file) \<Rightarrow> string \<Rightarrow> dbc_index result" where
  "build_dbc_index load path =
     (case load path of
        Dbc_unopenable \<Rightarrow> Inl (Exn (''GraphPreset: cannot open DBC: '' @ path))
      | Dbc_unparsable \<Rightarrow> Inl (Exn (''GraphPreset: cannot parse DBC: '' @ path))
      | Dbc_network net \<Rightarrow> Inr (fold (\<lambda>msg m. m(ms_name msg \<mapsto> msg_info_of msg)) net Map.empty))"

fun build_indices :: "(string \<Rightarrow> dbc_file) \<Rightarrow> interface_config list \<Rightarrow> (string \<rightharpoonup> dbc_index) \<Rightarrow> (string \<rightharpoonup> dbc_index) result" where
  "build_indices load [] m = Inr m"
| "build_indices load (cfg # cfgs) m =
     (if ic_dbc cfg = [] then build_indices load cfgs m
      else bind_result (build_dbc_index load (ic_dbc cfg)) (\<lambda>idx. build_indices load cfgs (m(ic_name cfg \<mapsto> idx))))"

definition try_iface :: "(string \<rightharpoonup> dbc_index) \<Rightarrow> string \<Rightarrow> string \<Rightarrow> (string \<times> msg_info) option" where
  "try_iface idx msg_name iface =
     (case idx iface of None \<Rightarrow> None | Some d \<Rightarrow> map_option (\<lambda>mi. (iface, mi)) (d msg_name))"

fun first_iface :: "(string \<rightharpoonup> dbc_index) \<Rightarrow> string \<Rightarrow> interface_config list \<Rightarrow> (string \<times> msg_info) option" where
  "first_iface idx msg_name [] = None"
| "first_iface idx msg_name (cfg # cfgs) =
     (case try_iface idx msg_name (ic_name cfg) of Some r \<Rightarrow> Some r | None \<Rightarrow> first_iface idx msg_name cfgs)"

definition resolve_iface :: "(string \<rightharpoonup> dbc_index) \<Rightarrow> interface_config list \<Rightarrow> string \<Rightarrow> string \<Rightarrow> (string \<times> msg_info) option" where
  "resolve_iface idx cfgs hint msg_name =
     (if hint \<noteq> [] then try_iface idx msg_name hint else first_iface idx msg_name cfgs)"

definition add_preset_signal :: "'n yaml_api \<Rightarrow> nat \<Rightarrow> 'n \<Rightarrow> string \<Rightarrow> string \<Rightarrow> string \<Rightarrow> msg_info \<Rightarrow> graph_window \<Rightarrow> graph_window result" where
  "add_preset_signal Y i node msg_name sig_name iface mi g =
     (let (lo, hi) = (case mi_signals mi sig_name of Some r \<Rightarrow> r | None \<Rightarrow> (0, 0))
      in bind_result (y_opt Y (y_dbl Y) node ''y_min'' lo) (\<lambda>y_min.
         bind_result (y_opt Y (y_dbl Y) node ''y_max'' hi) (\<lambda>y_max.
         bind_result (y_opt Y (y_int Y) node ''y_axis'' 0) (\<lambda>y_axis.
           Inr (add_signal i iface (mi_id mi) sig_name y_min y_max y_axis (msg_name @ ''/'' @ sig_name) g)))))"

definition preset_signal :: "'n yaml_api \<Rightarrow> config \<Rightarrow> (string \<rightharpoonup> dbc_index) \<Rightarrow> nat \<Rightarrow> 'n \<Rightarrow> graph_window \<Rightarrow> graph_window result" where
  "preset_signal Y config idx i node g =
     bind_result (y_opt Y (y_string Y) node ''msg'' []) (\<lambda>msg_name.
     bind_result (y_opt Y (y_string Y) node ''signal'' []) (\<lambda>sig_name.
       if msg_name = [] \<or> sig_name = [] then Inr g
       else bind_result (y_opt Y (y_string Y) node ''interface'' []) (\<lambda>hint.
         case resolve_iface idx (cf_interfaces config) hint msg_name of
           None \<Rightarrow> Inr g
         | Some (iface, mi) \<Rightarrow> add_preset_signal Y i node msg_name sig_name iface mi g)))"

definition or_keep :: "'g \<Rightarrow> 'g result \<Rightarrow> 'g \<times> exn option" where
  "or_keep g r = (case r of Inl e \<Rightarrow> (g, Some e) | Inr g' \<Rightarrow> (g', None))"

definition preset_graph :: "'n yaml_api \<Rightarrow> config \<Rightarrow> (string \<rightharpoonup> dbc_index) \<Rightarrow> 'n \<Rightarrow> graph_window \<Rightarrow> graph_window \<times> exn option" where
  "preset_graph Y config idx node g =
     (case y_opt Y (y_string Y) node ''name'' [] of
        Inl e \<Rightarrow> (g, Some e)
      | Inr name \<Rightarrow>
          (let (g1, i) = add_graph name g
           in case y_get Y node ''signals'' of
                Inl e \<Rightarrow> (g1, Some e)
              | Inr sigs \<Rightarrow>
                  if \<not> y_defined Y sigs \<or> \<not> y_is_seq Y sigs then (g1, None)
                  else each (\<lambda>n h. or_keep h (preset_signal Y config idx i n h)) (y_elems Y sigs) g1))"

definition load_graph_preset :: "'n yaml_api \<Rightarrow> (string \<Rightarrow> dbc_file) \<Rightarrow> config \<Rightarrow> graph_window \<Rightarrow> graph_window \<times> exn option" where
  "load_graph_preset Y load config g =
     (if cf_graphs_file config = [] then (g, None)
      else case build_indices load (cf_interfaces config) Map.empty of
        Inl e \<Rightarrow> (g, Some e)
      | Inr idx \<Rightarrow>
          (case y_load Y (cf_graphs_file config) of
             Inl e \<Rightarrow> (g, Some (Exn (''Failed to load graphs preset '' @ [CHR 0x27] @ cf_graphs_file config @ [CHR 0x27] @ '': '' @ what e)))
           | Inr root \<Rightarrow>
               if \<not> y_is_seq Y root then (g, Some (Exn ''Graphs preset must be a YAML sequence''))
               else each (preset_graph Y config idx) (y_elems Y root) g))"

section \<open>What a window of series keeps\<close>

definition series_key :: "series \<Rightarrow> string \<times> u32 \<times> string" where
  "series_key s = (se_interface s, se_msg_id s, se_signal s)"

definition series_ok :: "series \<Rightarrow> bool" where
  "series_ok s \<longleftrightarrow> length (se_xs s) = length (se_ys s) \<and> length (se_xs s) \<le> max_points"

definition tab_ok :: "graph_tab \<Rightarrow> bool" where
  "tab_ok tab \<longleftrightarrow> distinct (map series_key (gt_series tab)) \<and> list_all series_ok (gt_series tab)"

definition graph_ok :: "graph_window \<Rightarrow> bool" where
  "graph_ok g \<longleftrightarrow> list_all tab_ok (gw_graphs g)"

lemmas graph_ok_defs = graph_ok_def tab_ok_def list_all_iff

lemma push_ok: "series_ok s \<Longrightarrow> series_ok (push t v s)"
  by (auto simp: series_ok_def push_def Let_def)

lemma push_key [simp]: "series_key (push t v s) = series_key s"
  by (simp add: series_key_def push_def Let_def)

lemma update_series_key [simp]: "series_key (update_series t f s) = series_key s"
  by (simp add: update_series_def split: option.split)

lemma update_series_ok: "series_ok s \<Longrightarrow> series_ok (update_series t f s)"
  by (simp add: update_series_def push_ok split: option.split)

lemma gw_update_ok [inv_intros]: "graph_ok g \<Longrightarrow> graph_ok (gw_update f g)"
  by (auto simp: graph_ok_defs gw_update_def map_series_def comp_def update_series_ok)

lemma push_first_keys: "map series_key (push_first iface name t v ss) = map series_key ss"
  by (induction ss) simp_all

lemma push_first_ok: "list_all series_ok ss \<Longrightarrow> list_all series_ok (push_first iface name t v ss)"
  by (induction ss) (simp_all add: push_ok)

lemma push_value_ok [inv_intros]: "graph_ok g \<Longrightarrow> graph_ok (push_value now iface name v g)"
  using push_first_ok by (auto simp: graph_ok_def tab_ok_def list_all_iff push_value_def push_first_keys)

lemma add_graph_ok [inv_intros]: "graph_ok g \<Longrightarrow> graph_ok (fst (add_graph name g))"
  by (simp add: graph_ok_def tab_ok_def add_graph_def Let_def new_tab_def)

lemma tabs_update_ok [inv_intros]:
  "graph_ok g \<Longrightarrow> tab_ok tab \<Longrightarrow> graph_ok (g\<lparr>gw_graphs := (gw_graphs g)[i := tab]\<rparr>)"
  by (auto simp: graph_ok_def list_all_iff dest: set_update_subset_insert [THEN subsetD])

lemma nth_tab_ok: "graph_ok g \<Longrightarrow> i < length (gw_graphs g) \<Longrightarrow> tab_ok (gw_graphs g ! i)"
  by (simp add: graph_ok_def list_all_iff)

lemma add_series_ok:
  "tab_ok tab \<Longrightarrow> series_ok s \<Longrightarrow> series_key s \<notin> series_key ` set (gt_series tab)
    \<Longrightarrow> tab_ok (tab\<lparr>gt_series := gt_series tab @ [s]\<rparr>)"
  by (simp add: tab_ok_def)

lemma add_signal_ok [inv_intros]:
  assumes "graph_ok g"
  shows "graph_ok (add_signal i iface mid name lo hi axis label g)"
proof (cases "i < length (gw_graphs g)")
  case True
  then show ?thesis using assms nth_tab_ok [OF assms True]
    by (auto simp: add_signal_def Let_def list_ex_iff same_series_def series_key_def series_ok_def
        intro!: tabs_update_ok add_series_ok)
qed (simp add: add_signal_def assms)

lemma follow_series [simp]: "gt_series (follow ui i tab) = gt_series tab"
  by (simp add: follow_def Let_def)

lemma render_tab_series [simp]: "gt_series (fst (render_tab ui i tab)) = gt_series tab"
  by (simp add: render_tab_def render_plot_def Let_def)

lemma render_tabs_series: "map gt_series (fst (render_tabs ui i tabs)) = map gt_series tabs"
proof (induction tabs arbitrary: i)
  case (Cons tab tabs)
  obtain tab' cmds p where 1: "render_tab ui i tab = (tab', cmds, p)" by (cases "render_tab ui i tab")
  obtain tabs' cmds' p' where 2: "render_tabs ui (Suc i) tabs = (tabs', cmds', p')" by (cases "render_tabs ui (Suc i) tabs")
  from 1 render_tab_series [of ui i tab] have "gt_series tab' = gt_series tab" by simp
  with 1 2 Cons.IH [of "Suc i"] show ?case by simp
qed simp

lemma tabs_ok_series: "map gt_series tabs = map gt_series tabs' \<Longrightarrow> list_all tab_ok tabs \<Longrightarrow> list_all tab_ok tabs'"
proof (induction tabs arbitrary: tabs')
  case (Cons tab tabs)
  then show ?case by (cases tabs') (auto simp: tab_ok_def)
qed simp

lemma apply_menu_ok: "graph_ok g \<Longrightarrow> graph_ok (apply_menu ui p g)"
proof -
  assume ok: "graph_ok g"
  let ?tab = "gw_graphs g ! px_tab p"
  have tab: "tab_ok (?tab\<lparr>gt_series := erase_idx (px_series p) (gt_series ?tab)\<rparr>)"
    "tab_ok (?tab\<lparr>gt_series := (gt_series ?tab)[px_series p := (gt_series ?tab ! px_series p)\<lparr>se_y_axis := a\<rparr>]\<rparr>)"
    if "px_tab p < length (gw_graphs g)" "px_series p < length (gt_series ?tab)" for a
  proof -
    note t = nth_tab_ok [OF ok that(1)]
    from t show "tab_ok (?tab\<lparr>gt_series := erase_idx (px_series p) (gt_series ?tab)\<rparr>)"
      by (auto simp: tab_ok_def map_erase_idx distinct_erase_idx list_all_iff dest: set_erase_idx [THEN subsetD])
    from t that(2) show "tab_ok (?tab\<lparr>gt_series := (gt_series ?tab)[px_series p := (gt_series ?tab ! px_series p)\<lparr>se_y_axis := a\<rparr>]\<rparr>)"
      by (subst tab_ok_def)
        (auto simp: map_update_same series_key_def tab_ok_def list_all_iff series_ok_def dest!: set_update_subset_insert [THEN subsetD])
  qed
  have pend: "graph_ok (h\<lparr>gw_pending := q\<rparr>) = graph_ok h" for h q by (simp add: graph_ok_def)
  show ?thesis using ok tab
    by (simp add: apply_menu_def Let_def pend tabs_update_ok)
qed

lemma gw_render_ok [inv_intros]: "graph_ok g \<Longrightarrow> graph_ok (fst (gw_render ui g))"
proof -
  assume ok: "graph_ok g"
  define g1 where "g1 = (if gu_add ui then fst (add_graph [] g) else g)"
  have g1: "graph_ok g1" using ok add_graph_ok by (simp add: g1_def)
  obtain tabs cmds p where r: "(if gu_tab_bar ui then render_tabs ui 0 (gw_graphs g1) else (gw_graphs g1, [], None)) = (tabs, cmds, p)"
    by (rule prod_cases3)
  then have "map gt_series tabs = map gt_series (gw_graphs g1)"
    using render_tabs_series [of ui 0 "gw_graphs g1"] by (auto split: if_splits)
  with g1 have "graph_ok (g1\<lparr>gw_graphs := tabs, gw_pending := q, gw_open_ctx := b\<rparr>)" for q b
    using tabs_ok_series [of "gw_graphs g1" tabs] by (simp add: graph_ok_def)
  with g1 apply_menu_ok show ?thesis
    by (auto simp: gw_render_def g1_def [symmetric] r Let_def split: option.split)
qed

definition holds_res :: "('a \<Rightarrow> bool) \<Rightarrow> 'a result \<Rightarrow> bool" where
  "holds_res P r = (case r of Inl _ \<Rightarrow> True | Inr a \<Rightarrow> P a)"

lemma holds_res_simps [simp]:
  "holds_res P (Inl e)" "holds_res P (Inr a) = P a"
  "holds_res P (bind_result r f) = holds_res (\<lambda>a. holds_res P (f a)) r"
  by (simp_all add: holds_res_def split: sum.split)

lemma holds_res_all: "(\<And>a. P a) \<Longrightarrow> holds_res P r"
  by (simp add: holds_res_def split: sum.split)

lemma or_keep_keeps: "I h \<Longrightarrow> holds_res I r \<Longrightarrow> I (fst (or_keep h r))"
  by (cases r) (simp_all add: or_keep_def)

lemma try_iface_name: "try_iface idx msg n = Some (iface, mi) \<Longrightarrow> n = iface"
  by (auto simp: try_iface_def split: option.splits)

lemma first_iface_try:
  "first_iface idx msg cfgs = Some (iface, mi) \<Longrightarrow> try_iface idx msg iface = Some (iface, mi)"
  by (induction cfgs) (auto split: option.splits dest: try_iface_name)

lemma resolve_iface_try:
  "resolve_iface idx cfgs hint msg = Some (iface, mi) \<Longrightarrow> try_iface idx msg iface = Some (iface, mi)"
  by (auto simp: resolve_iface_def split: if_splits dest: first_iface_try try_iface_name)

lemma add_preset_signal_keeps:
  assumes "\<And>lo hi axis label. I (add_signal i iface (mi_id mi) name lo hi axis label g)"
  shows "holds_res I (add_preset_signal Y i node msg name iface mi g)"
proof -
  have "holds_res (\<lambda>y_min. holds_res (\<lambda>y_max. holds_res (\<lambda>y_axis.
      I (add_signal i iface (mi_id mi) name y_min y_max y_axis (msg @ ''/'' @ name) g)) r3) (r2 y_min)) r1" for r1 r2 r3
    by (rule holds_res_all, rule holds_res_all, rule holds_res_all, rule assms)
  then show ?thesis by (simp add: add_preset_signal_def split_beta Let_def)
qed

lemma preset_signal_keeps:
  assumes g: "I g" and add: "\<And>msg iface mi name lo hi axis label. try_iface idx msg iface = Some (iface, mi)
      \<Longrightarrow> I (add_signal i iface (mi_id mi) name lo hi axis label g)"
  shows "holds_res I (preset_signal Y config idx i node g)"
proof -
  have "holds_res I (case resolve_iface idx (cf_interfaces config) hint msg of None \<Rightarrow> Inr g
      | Some (iface, mi) \<Rightarrow> add_preset_signal Y i node msg name iface mi g)" for hint msg name
  proof (cases "resolve_iface idx (cf_interfaces config) hint msg")
    case (Some p)
    obtain iface mi where p: "p = (iface, mi)" by (cases p)
    have "try_iface idx msg iface = Some (iface, mi)" by (rule resolve_iface_try [OF Some [unfolded p]])
    with add Some p show ?thesis by (simp add: add_preset_signal_keeps [where I = I])
  qed (simp add: g)
  then have "holds_res (\<lambda>hint. holds_res I (case resolve_iface idx (cf_interfaces config) hint msg of None \<Rightarrow> Inr g
      | Some (iface, mi) \<Rightarrow> add_preset_signal Y i node msg name iface mi g)) r" for msg name r
    by (rule holds_res_all)
  then have "holds_res I (if msg = [] \<or> name = [] then Inr g
     else bind_result r (\<lambda>hint. case resolve_iface idx (cf_interfaces config) hint msg of None \<Rightarrow> Inr g
      | Some (iface, mi) \<Rightarrow> add_preset_signal Y i node msg name iface mi g))" for msg name r
    by (simp add: g)
  then have "holds_res (\<lambda>msg. holds_res (\<lambda>name. holds_res I (if msg = [] \<or> name = [] then Inr g
     else bind_result r (\<lambda>hint. case resolve_iface idx (cf_interfaces config) hint msg of None \<Rightarrow> Inr g
      | Some (iface, mi) \<Rightarrow> add_preset_signal Y i node msg name iface mi g))) r2) r1" for r r1 r2
    by (rule holds_res_all [OF holds_res_all])
  then show ?thesis unfolding preset_signal_def holds_res_simps(3) .
qed

lemma preset_graph_keeps:
  assumes g: "I g" and add: "\<And>name g. I g \<Longrightarrow> I (fst (add_graph name g))"
    and sig: "\<And>i node g. I g \<Longrightarrow> holds_res I (preset_signal Y config idx i node g)"
  shows "I (fst (preset_graph Y config idx node g))"
proof -
  have e: "I (fst (each (\<lambda>n h. or_keep h (preset_signal Y config idx i n h)) ns h))" if "I h" for i ns h
    by (rule each_keeps [where I = I, OF _ that], rule or_keep_keeps [where I = I], assumption, rule sig)
  show ?thesis
  proof (cases "y_opt Y (y_string Y) node ''name'' []")
    case (Inr name)
    obtain g1 i where g1: "add_graph name g = (g1, i)" by fastforce
    with add [OF g, of name] have "I g1" by simp
    with e [OF this] Inr g1 show ?thesis by (simp add: preset_graph_def split: sum.split)
  qed (simp add: preset_graph_def g)
qed

lemma load_graph_preset_keeps:
  assumes g: "I g" and add: "\<And>name g. I g \<Longrightarrow> I (fst (add_graph name g))"
    and sig: "\<And>idx i node g. build_indices load (cf_interfaces config) Map.empty = Inr idx \<Longrightarrow> I g
      \<Longrightarrow> holds_res I (preset_signal Y config idx i node g)"
  shows "I (fst (load_graph_preset Y load config g))"
proof (cases "build_indices load (cf_interfaces config) Map.empty")
  case (Inr idx)
  have "I (fst (preset_graph Y config idx node h))" if "I h" for node h
    by (rule preset_graph_keeps [where I = I, OF that add sig [OF Inr]])
  then have "I (fst (each (preset_graph Y config idx) nodes g))" for nodes
    by (rule each_keeps [where I = I, OF _ g])
  with Inr g show ?thesis by (simp add: load_graph_preset_def split: sum.split)
qed (simp add: load_graph_preset_def g)

lemma load_graph_preset_ok [inv_intros]: "graph_ok g \<Longrightarrow> graph_ok (fst (load_graph_preset Y load config g))"
  by (rule load_graph_preset_keeps [where I = graph_ok, OF _ add_graph_ok preset_signal_keeps [where I = graph_ok, OF _ add_signal_ok]])

text \<open>The window's life: frames and model values arrive, the preset is loaded, menus add graphs
  and signals, frames are drawn.\<close>

inductive graph_step :: "'n yaml_api \<Rightarrow> (string \<Rightarrow> dbc_file) \<Rightarrow> graph_window \<Rightarrow> graph_window \<Rightarrow> bool"
  for Y :: "'n yaml_api" and load :: "string \<Rightarrow> dbc_file" where
  frame: "graph_step Y load g (gw_update f g)"
| model_value: "graph_step Y load g (push_value now iface name v g)"
| preset: "graph_step Y load g (fst (load_graph_preset Y load config g))"
| new_graph: "graph_step Y load g (fst (add_graph name g))"
| menu: "graph_step Y load g (add_signal i iface mid name lo hi axis label g)"
| render: "graph_step Y load g (fst (gw_render ui g))"

lemma graph_step_ok: "graph_step Y load g g' \<Longrightarrow> graph_ok g \<Longrightarrow> graph_ok g'"
  by (induction rule: graph_step.induct) (auto intro: inv_intros)

interpretation graph_sys: safe_system "\<lambda>g. \<exists>now. g = mk_graph_window now" "graph_step Y load" graph_ok
proof unfold_locales
  show "graph_ok g" if "\<exists>now. g = mk_graph_window now" for g
    using that by (auto simp: mk_graph_window_def graph_ok_def)
qed (rule graph_step_ok)

section \<open>What a series holds\<close>

definition last_n :: "nat \<Rightarrow> 'a list \<Rightarrow> 'a list" where
  "last_n n xs = drop (length xs - n) xs"

lemma last_n_short: "length xs \<le> n \<Longrightarrow> last_n n xs = xs"
  by (simp add: last_n_def)

lemma last_n_append: "last_n n (last_n n xs @ ys) = last_n n (xs @ ys)"
proof (cases "length xs \<le> n")
  case False
  then have "last_n n xs @ ys = drop (length xs - n) (xs @ ys)" "length (last_n n xs @ ys) - n = length ys"
    by (simp_all add: last_n_def)
  moreover from False have "length ys + (length xs - n) = length (xs @ ys) - n" by simp
  ultimately show ?thesis by (simp add: last_n_def)
qed (simp add: last_n_short)

lemma last_n_tl: "length xs \<le> Suc n \<Longrightarrow> last_n n xs = (if n < length xs then tl xs else xs)"
  by (cases "length xs = Suc n") (simp_all add: last_n_def drop_Suc)

definition points :: "series \<Rightarrow> (dbl \<times> dbl) list" where
  "points s = zip (se_xs s) (se_ys s)"

definition set_points :: "(dbl \<times> dbl) list \<Rightarrow> series \<Rightarrow> series" where
  "set_points ps s = s\<lparr>se_xs := map fst ps, se_ys := map snd ps\<rparr>"

text \<open>The point a frame contributes to a series: the frame's time since the window was opened
  and the value of its first signal of that name.\<close>

definition reading :: "int \<Rightarrow> series \<Rightarrow> can_frame \<Rightarrow> (dbl \<times> dbl) list" where
  "reading start s f =
     (if se_interface s = hdr_interface (fr_header f) \<and> se_msg_id s = hdr_id (fr_header f)
      then map (\<lambda>v. (seconds (fr_timestamp f - start), v)) (take 1 (map ds_value (filter (\<lambda>sig. ds_name sig = se_signal s) (fr_decoded f))))
      else [])"

lemma points_set_points [simp]: "points (set_points ps s) = ps"
  by (simp add: points_def set_points_def zip_map_fst_snd)

lemma set_points_points: "series_ok s \<Longrightarrow> set_points (points s) s = s"
  by (simp add: points_def set_points_def series_ok_def)

lemma set_points_twice [simp]: "set_points ps (set_points qs s) = set_points ps s"
  by (simp add: set_points_def)

lemma reading_set_points [simp]: "reading start (set_points ps s) = reading start s"
  by (rule ext) (simp add: reading_def set_points_def)

lemma push_points:
  assumes "series_ok s"
  shows "push t v s = set_points (last_n max_points (points s @ [(t, v)])) s"
proof -
  from assms have l: "length (se_xs s) = length (se_ys s)" "length (points s @ [(t, v)]) \<le> Suc max_points"
    by (simp_all add: series_ok_def points_def)
  then have m: "map fst (points s @ [(t, v)]) = se_xs s @ [t]" "map snd (points s @ [(t, v)]) = se_ys s @ [v]"
    by (simp_all add: points_def)
  have len: "length (points s @ [(t, v)]) = length (se_xs s @ [t])" using l(1) by (simp add: points_def)
  show ?thesis
    unfolding last_n_tl [OF l(2)] len
    by (cases "max_points < length (se_xs s @ [t])") (simp_all only: if_True if_False push_def Let_def set_points_def map_tl m)
qed

lemma find_take1: "take 1 (filter P xs) = (case List.find P xs of None \<Rightarrow> [] | Some x \<Rightarrow> [x])"
  by (induction xs) (auto split: option.split)

lemma update_series_points:
  "series_ok s \<Longrightarrow> update_series (seconds (fr_timestamp f - start)) f s = set_points (last_n max_points (points s @ reading start s f)) s"
proof -
  assume ok: "series_ok s"
  then have "last_n max_points (points s) = points s" by (simp add: last_n_short points_def series_ok_def)
  then have same: "set_points (last_n max_points (points s @ [])) s = s" using set_points_points [OF ok] by simp
  show ?thesis
    using same push_points [OF ok] find_take1 [of "\<lambda>sig. ds_name sig = se_signal s" "fr_decoded f"]
    by (auto simp: update_series_def reading_def take_map split: option.split)
qed

definition history :: "int \<Rightarrow> can_frame list \<Rightarrow> series \<Rightarrow> series" where
  "history start fs s = set_points (last_n max_points (points s @ concat (map (reading start s) fs))) s"

lemma history_Nil: "series_ok s \<Longrightarrow> history start [] s = s"
  by (simp add: history_def last_n_short points_def series_ok_def set_points_points [unfolded points_def])

lemma history_Cons: "series_ok s \<Longrightarrow> history start fs (update_series (seconds (fr_timestamp f - start)) f s) = history start (f # fs) s"
  by (simp add: history_def update_series_points last_n_append)

lemma map_series_cong:
  "(\<And>tab s. tab \<in> set (gw_graphs g) \<Longrightarrow> s \<in> set (gt_series tab) \<Longrightarrow> f s = h s) \<Longrightarrow> map_series f g = map_series h g"
  by (auto simp: map_series_def)

lemma map_series_id: "(\<And>tab s. tab \<in> set (gw_graphs g) \<Longrightarrow> s \<in> set (gt_series tab) \<Longrightarrow> f s = s) \<Longrightarrow> map_series f g = g"
  by (simp add: map_series_def map_idI)

lemma graph_ok_series: "graph_ok g \<Longrightarrow> tab \<in> set (gw_graphs g) \<Longrightarrow> s \<in> set (gt_series tab) \<Longrightarrow> series_ok s"
  by (auto simp: graph_ok_defs)

lemma map_series_twice: "map_series f (map_series h g) = map_series (f \<circ> h) g"
  by (simp add: map_series_def comp_def)

lemma gw_start_map [simp]: "gw_start (map_series f g) = gw_start g" "gw_start (gw_update fr g) = gw_start g"
  by (simp_all add: map_series_def gw_update_def)

lemma updates_history: "graph_ok g \<Longrightarrow> fold gw_update fs g = map_series (history (gw_start g) fs) g"
proof (induction fs arbitrary: g)
  case Nil
  then show ?case by (simp add: map_series_id history_Nil graph_ok_series)
next
  case (Cons f fs)
  have "fold gw_update fs (gw_update f g) = map_series (history (gw_start g) fs) (gw_update f g)"
    using Cons.IH [OF gw_update_ok [OF Cons.prems]] by simp
  also have "\<dots> = map_series (history (gw_start g) (f # fs)) g"
    unfolding gw_update_def map_series_twice
    by (rule map_series_cong) (simp add: history_Cons graph_ok_series [OF Cons.prems])
  finally show ?case by simp
qed

lemma fold_upd_Some:
  "fold (\<lambda>x m. m(k x \<mapsto> v x)) xs m key = Some y \<Longrightarrow> m key = Some y \<or> (\<exists>x\<in>set xs. k x = key \<and> v x = y)"
proof (induction xs arbitrary: m)
  case (Cons x xs)
  from Cons.IH [of "m(k x \<mapsto> v x)"] Cons.prems show ?case by (cases "k x = key") auto
qed simp

lemma build_dbc_index_from:
  "build_dbc_index load path = Inr d \<Longrightarrow> d name = Some mi
    \<Longrightarrow> \<exists>net msg. load path = Dbc_network net \<and> msg \<in> set net \<and> mi = msg_info_of msg"
  by (auto simp: build_dbc_index_def split: dbc_file.splits dest!: fold_upd_Some)

lemma build_indices_from:
  "build_indices load cfgs m = Inr idx \<Longrightarrow> idx iface = Some d
    \<Longrightarrow> m iface = Some d \<or> (\<exists>cfg\<in>set cfgs. ic_name cfg = iface \<and> build_dbc_index load (ic_dbc cfg) = Inr d)"
proof (induction cfgs arbitrary: m)
  case (Cons cfg cfgs)
  show ?case
  proof (cases "ic_dbc cfg = []")
    case False
    with Cons.prems(1) obtain i where i: "build_dbc_index load (ic_dbc cfg) = Inr i"
      "build_indices load cfgs (m(ic_name cfg \<mapsto> i)) = Inr idx"
      by (auto simp: bind_result_Inr_iff)
    from Cons.IH [OF i(2) Cons.prems(2)] i(1) show ?thesis by (auto split: if_splits)
  qed (use Cons in auto)
qed simp

definition resolved :: "(string \<Rightarrow> dbc_file) \<Rightarrow> config \<Rightarrow> series \<Rightarrow> bool" where
  "resolved load config s \<longleftrightarrow>
     (\<exists>cfg\<in>set (cf_interfaces config). \<exists>net msg. ic_name cfg = se_interface s \<and> load (ic_dbc cfg) = Dbc_network net
        \<and> msg \<in> set net \<and> se_msg_id s = ucast (ms_id msg))"

definition all_resolved :: "(string \<Rightarrow> dbc_file) \<Rightarrow> config \<Rightarrow> graph_window \<Rightarrow> bool" where
  "all_resolved load config g \<longleftrightarrow> list_all (\<lambda>tab. list_all (resolved load config) (gt_series tab)) (gw_graphs g)"

lemma add_signal_resolved:
  assumes "build_indices load (cf_interfaces config) Map.empty = Inr idx" "try_iface idx msg iface = Some (iface, mi)"
    and "all_resolved load config g"
  shows "all_resolved load config (add_signal i iface (mi_id mi) name lo hi axis label g)"
proof -
  from assms(2) obtain d where "idx iface = Some d" "d msg = Some mi" by (auto simp: try_iface_def split: option.splits)
  with build_indices_from [OF assms(1)] build_dbc_index_from
  have "\<exists>cfg\<in>set (cf_interfaces config). \<exists>net m. ic_name cfg = iface \<and> load (ic_dbc cfg) = Dbc_network net \<and> m \<in> set net \<and> mi_id mi = ucast (ms_id m)"
    by (fastforce simp: msg_info_of_def)
  then have new: "resolved load config s" if "se_interface s = iface" "se_msg_id s = mi_id mi" for s
    using that by (auto simp: resolved_def)
  have old: "list_all (resolved load config) (gt_series (gw_graphs g ! i))" if "i < length (gw_graphs g)"
    using assms(3) that unfolding all_resolved_def list_all_length by blast
  show ?thesis
    using assms(3) new old [unfolded list_all_iff]
    by (auto simp: add_signal_def Let_def all_resolved_def list_all_iff dest!: set_update_subset_insert [THEN subsetD])
qed

section \<open>Properties\<close>

text \<open>C36: Every plotted signal shows its last 10000 readings in the order the frames arrived, each at
  its frame's time; frames of other messages, and frames in which the signal is missing, leave
  it alone. No graph has a signal twice, and no series grows beyond 10000 points.\<close>

theorem series_hold_latest:
  assumes "(graph_step Y load)\<^sup>*\<^sup>* (mk_graph_window now) g"
  shows "fold gw_update fs g = map_series (history (gw_start g) fs) g
    \<and> list_all (\<lambda>tab. distinct (map series_key (gt_series tab))
        \<and> list_all (\<lambda>s. length (se_xs s) = length (se_ys s) \<and> length (se_xs s) \<le> 10000) (gt_series tab))
        (gw_graphs (fold gw_update fs g))"
proof -
  have ok: "graph_ok g" using graph_sys.inv_reachable assms by blast
  have "graph_ok (fold gw_update fs g)" using ok by (induction fs arbitrary: g) (auto intro: gw_update_ok)
  then show ?thesis
    using updates_history [OF ok] by (simp add: graph_ok_def tab_ok_def [abs_def] series_ok_def [abs_def] max_points_def)
qed

definition ex_graph :: graph_window where
  "ex_graph = add_signal 0 ''vcan0'' 291 ''A'' 0 0 0 [] (fst (add_graph [] (mk_graph_window 0)))"

definition ex_point :: "dbl \<Rightarrow> can_frame" where
  "ex_point v = add_decoded \<lparr>ds_name = ''A'', ds_value = v, ds_unit = [], ds_min_val = 0, ds_max_val = 0\<rparr>
     (mk_can_frame 0 \<lparr>hdr_id = 291, hdr_interface = ''vcan0'', hdr_dlc = 1\<rparr> [7])"

lemma ex_graph_reachable: "(graph_step Y load)\<^sup>*\<^sup>* (mk_graph_window 0) ex_graph"
  unfolding ex_graph_def by (meson graph_step.new_graph graph_step.menu r_into_rtranclp rtranclp_trans)

theorem series_hold_latest_witness:
  "map (\<lambda>tab. map se_ys (gt_series tab)) (gw_graphs (fold gw_update [ex_point 5, ex_point 7] ex_graph)) = [[[5, 7]]]"
proof -
  have "fold gw_update [ex_point 5, ex_point 7] ex_graph
      = map_series (history (gw_start ex_graph) [ex_point 5, ex_point 7]) ex_graph"
    using series_hold_latest [OF ex_graph_reachable] by blast
  then show ?thesis
    by (simp add: ex_graph_def ex_point_def add_graph_def add_signal_def new_tab_def mk_graph_window_def map_series_def
        history_def set_points_def points_def reading_def last_n_def max_points_def add_decoded_def mk_can_frame_def)
qed


text \<open>A line is drawn on the first axis or on one that was set up in the same frame, if no series
  asks for an axis beyond the third.\<close>

theorem plotted_axes_set_up:
  assumes "list_all (\<lambda>s. se_y_axis s \<le> 2) (gt_series tab)"
    and "Plot_line a label xs ys \<in> set (fst (snd (render_plot ui i tab)))"
  shows "a = 0 \<or> Setup_axis a \<in> set (fst (snd (render_plot ui i tab)))"
proof -
  from assms(2) obtain s where s: "s \<in> set (gt_series tab)" "a = axis_of s"
    by (auto simp: render_plot_def setup_axes_def x_limits_def y_limits_def plot_series_def Let_def split: if_splits prod.splits)
  with assms(1) have "se_y_axis s \<le> 0 \<and> a = 0 \<or> se_y_axis s = 1 \<and> a = 1 \<or> se_y_axis s = 2 \<and> a = 2"
    by (auto simp: axis_of_def list_all_iff)
  with s(1) show ?thesis
    by (auto simp: render_plot_def setup_axes_def uses_axis_def list_ex_iff)
qed

text \<open>A preset may ask for a fourth axis: the series is then drawn on the third, which nothing
  has set up.\<close>

theorem preset_axis_not_set_up:
  assumes "gt_series tab = [s]" "2 < se_y_axis s" "se_xs s \<noteq> []"
  shows "Plot_line 2 (se_label s) (se_xs s) (se_ys s) \<in> set (fst (snd (render_plot ui i tab)))
    \<and> Setup_axis 2 \<notin> set (fst (snd (render_plot ui i tab)))"
  using assms
  by (auto simp: render_plot_def setup_axes_def uses_axis_def plot_series_def axis_of_def x_limits_def y_limits_def Let_def split: if_splits prod.splits)

end
