(* ===== verification/Windows.thy ===== *)
theory Windows
  imports Graph Tui
begin

text \<open>
  \<open>src/gui/TraceWindow\<close>, \<open>src/gui/TraceContainerWindow\<close> and the menus of \<open>src/gui/ModelWindow\<close>.
  A rendered frame takes what ImGui reports of its widgets and yields the rows it draws; reading
  an empty optional is the value None.
\<close>

section \<open>The menu that adds a signal to a graph\<close>

text \<open>Both windows end with the same menu: for every graph, and for a new one, an item for each of
  the three axes. \<open>picked\<close> are the items activated in this frame, in the order they are drawn;
  None stands for the new graph. Adding a signal empties the pending signal.\<close>

definition picked :: "(nat \<Rightarrow> nat \<Rightarrow> bool) \<Rightarrow> (nat \<Rightarrow> bool) \<Rightarrow> nat \<Rightarrow> (nat option \<times> nat) list" where
  "picked item new_item n =
     concat (map (\<lambda>i. map (Pair (Some i)) (filter (item i) [0, 1, 2])) [0..<n]) @ map (Pair None) (filter new_item [0, 1, 2])"

fun run_menu :: "('c \<Rightarrow> nat \<Rightarrow> int \<Rightarrow> graph_window \<Rightarrow> graph_window) \<Rightarrow> (nat option \<times> nat) list \<Rightarrow> 'c option \<times> graph_window
    \<Rightarrow> ('c option \<times> graph_window) option" where
  "run_menu add [] (ctx, g) = Some (ctx, g)"
| "run_menu add ((target, a) # xs) (None, g) = None"
| "run_menu add ((Some i, a) # xs) (Some c, g) = run_menu add xs (None, add c i (int a) g)"
| "run_menu add ((None, a) # xs) (Some c, g) =
     (let (g1, i) = add_graph [] g in run_menu add xs (None, add c i (int a) g1))"

section \<open>TraceWindow\<close>

record pending_signal =
  pg_msg_id :: u32
  pg_name :: string
  pg_y_min :: dbl
  pg_y_max :: dbl

record trace_window =
  tw_set :: data_frame_set
  tw_search :: string
  tw_ctx :: "pending_signal option"
  tw_open_ctx :: bool

definition mk_trace_window :: "string \<Rightarrow> trace_window" where
  "mk_trace_window iface = \<lparr>tw_set = mk_data_frame_set iface, tw_search = [], tw_ctx = None, tw_open_ctx = False\<rparr>"

definition matches :: "u32 \<Rightarrow> can_frame \<Rightarrow> string \<Rightarrow> bool" where
  "matches cid frame q =
     (if q = [] then True
      else let lq = map tolower q; ci = (\<lambda>s. contains_sub (map tolower s) lq)
           in ci (''0x'' @ fmt_03X (unat cid)) \<or> ci (fr_msg_name frame)
              \<or> list_ex (\<lambda>sig. ci (ds_name sig) \<or> ci (ds_unit sig)) (fr_decoded frame))"

text \<open>\<open>render\<close>: a window of its own around the content.\<close>

definition trace_title :: "string \<Rightarrow> string" where
  "trace_title iface = ''Trace '' @ [CHR 0xE2, CHR 0x80, CHR 0x94] @ '' '' @ iface"

definition tw_update :: "can_frame \<Rightarrow> trace_window \<Rightarrow> trace_window" where
  "tw_update frame w =
     (if hdr_interface (fr_header frame) \<noteq> dfs_interface (tw_set w) then w
      else w\<lparr>tw_set := dfs_update frame (tw_set w)\<rparr>)"

record trace_ui =
  ti_search :: "string \<Rightarrow> string"
  ti_table :: bool
  ti_right_click :: "u32 \<Rightarrow> nat \<Rightarrow> bool"
  ti_popup :: bool
  ti_item :: "nat \<Rightarrow> nat \<Rightarrow> bool"
  ti_new :: "nat \<Rightarrow> bool"

record trace_row =
  row_id :: string
  row_name :: string
  row_dlc :: string
  row_delta :: "dbl option"
  row_cells :: "string list"

text \<open>\<open>num\<close> is the \<open>{:.2f}\<close> rendering of a value.\<close>

definition signal_label :: "(dbl \<Rightarrow> string) \<Rightarrow> u32 \<Rightarrow> nat \<Rightarrow> decoded_signal \<Rightarrow> string" where
  "signal_label num cid i s =
     ds_name s @ '': '' @ num (ds_value s) @ '' '' @ ds_unit s @ ''##'' @ dec_of_nat (unat cid) @ ''_'' @ dec_of_nat i"

definition hex_bytes :: "bytes \<Rightarrow> string" where
  "hex_bytes bs = concat (map (\<lambda>b. fmt_02X b @ '' '') bs)"

definition trace_row_of :: "(dbl \<Rightarrow> string) \<Rightarrow> data_frame_set \<Rightarrow> u32 \<times> can_frame \<Rightarrow> trace_row" where
  "trace_row_of num frames p =
     (case p of (cid, frame) \<Rightarrow>
       \<lparr>row_id = ''0x'' @ fmt_03X (unat cid), row_name = fr_msg_name frame,
        row_dlc = dec_of_nat (unat (hdr_dlc (fr_header frame))),
        row_delta = map_option millis (dfs_delta frames cid),
        row_cells = (if fr_decoded frame = [] then [hex_bytes (fr_payload frame)]
                     else map (\<lambda>(i, s). signal_label num cid i s) (enumerate 0 (fr_decoded frame)))\<rparr>)"

definition visible :: "string \<Rightarrow> data_frame_set \<Rightarrow> (u32 \<times> can_frame) list" where
  "visible query frames = filter (\<lambda>(cid, frame). matches cid frame query) (dfs_frames frames)"

text \<open>The signal that was right-clicked, the last one drawn if there are several.\<close>

definition clicked_signal :: "trace_ui \<Rightarrow> (u32 \<times> can_frame) list \<Rightarrow> pending_signal option" where
  "clicked_signal ui frames =
     fold (\<lambda>(cid, i, s) p. if ti_right_click ui cid i
             then Some \<lparr>pg_msg_id = cid, pg_name = ds_name s, pg_y_min = ds_min_val s, pg_y_max = ds_max_val s\<rparr> else p)
       (concat (map (\<lambda>(cid, frame). map (\<lambda>(i, s). (cid, i, s)) (enumerate 0 (fr_decoded frame))) frames)) None"

definition add_pending :: "string \<Rightarrow> pending_signal \<Rightarrow> nat \<Rightarrow> int \<Rightarrow> graph_window \<Rightarrow> graph_window" where
  "add_pending iface c i a g = add_signal i iface (pg_msg_id c) (pg_name c) (pg_y_min c) (pg_y_max c) a [] g"

definition render_content :: "(dbl \<Rightarrow> string) \<Rightarrow> trace_ui \<Rightarrow> trace_window \<times> graph_window
    \<Rightarrow> ((trace_window \<times> graph_window) \<times> trace_row list) option" where
  "render_content num ui wg =
     (case wg of (w, g) \<Rightarrow>
       (let query = ti_search ui (tw_search w);
            shown = (if ti_table ui then visible query (tw_set w) else []);
            clicked = clicked_signal ui shown;
            w1 = w\<lparr>tw_search := query, tw_ctx := (if clicked = None then tw_ctx w else clicked), tw_open_ctx := False\<rparr>
        in do { (ctx, g') \<leftarrow> (if ti_popup ui \<and> tw_ctx w1 \<noteq> None
                             then run_menu (add_pending (dfs_interface (tw_set w)))
                                    (picked (ti_item ui) (ti_new ui) (length (graph_names g))) (tw_ctx w1, g)
                             else Some (tw_ctx w1, g));
                Some ((w1\<lparr>tw_ctx := ctx\<rparr>, g'), map (trace_row_of num (tw_set w)) shown) }))"

section \<open>TraceContainerWindow\<close>

definition tc_update :: "can_frame \<Rightarrow> trace_window list \<Rightarrow> trace_window list" where
  "tc_update frame ws = map (tw_update frame) ws"

text \<open>One trace is drawn without tabs; with several, those whose tab is open.\<close>

fun render_open :: "(dbl \<Rightarrow> string) \<Rightarrow> (nat \<Rightarrow> bool) \<Rightarrow> (nat \<Rightarrow> trace_ui) \<Rightarrow> nat \<Rightarrow> trace_window list \<Rightarrow> graph_window
    \<Rightarrow> ((trace_window list \<times> graph_window) \<times> trace_row list) option" where
  "render_open num tab ui i [] g = Some (([], g), [])"
| "render_open num tab ui i (w # ws) g =
     do { ((w', g1), rows) \<leftarrow> (if tab i then render_content num (ui i) (w, g) else Some ((w, g), []));
          ((ws', g2), rows') \<leftarrow> render_open num tab ui (Suc i) ws g1;
          Some ((w' # ws', g2), rows @ rows') }"

definition tc_render :: "(dbl \<Rightarrow> string) \<Rightarrow> bool \<Rightarrow> (nat \<Rightarrow> bool) \<Rightarrow> (nat \<Rightarrow> trace_ui) \<Rightarrow> trace_window list \<Rightarrow> graph_window
    \<Rightarrow> ((trace_window list \<times> graph_window) \<times> trace_row list) option" where
  "tc_render num tab_bar tab ui ws g =
     render_open num (if length ws = 1 then (\<lambda>_. True) else if tab_bar then tab else (\<lambda>_. False)) ui 0 ws g"

section \<open>ModelWindow\<close>

record model_menu =
  mm_ctx :: "string option"
  mm_open_ctx :: bool

record model_ui =
  mu_table :: bool
  mu_right_click :: "nat \<Rightarrow> bool"
  mu_popup :: bool
  mu_item :: "nat \<Rightarrow> nat \<Rightarrow> bool"
  mu_new :: "nat \<Rightarrow> bool"

definition add_model_signal :: "string \<Rightarrow> nat \<Rightarrow> int \<Rightarrow> graph_window \<Rightarrow> graph_window" where
  "add_model_signal name i a g = add_signal i model_iface 0 name 0 0 a [] g"

definition mw_render :: "model_ui \<Rightarrow> model_window \<Rightarrow> model_menu \<Rightarrow> graph_window
    \<Rightarrow> ((model_menu \<times> graph_window) \<times> (string \<times> dbl) list) option" where
  "mw_render ui m c g =
     (if mw_values m = [] then Some ((c, g), [])
      else (let rows = (if mu_table ui then mw_values m else []);
                clicked = fold (\<lambda>(i, n, v) p. if mu_right_click ui i then Some n else p) (enumerate 0 rows) None;
                ctx = (if clicked = None then mm_ctx c else clicked)
            in do { (ctx', g') \<leftarrow> (if mu_popup ui \<and> ctx \<noteq> None
                                  then run_menu add_model_signal (picked (mu_item ui) (mu_new ui) (length (graph_names g))) (ctx, g)
                                  else Some (ctx, g));
                    Some ((\<lparr>mm_ctx = ctx', mm_open_ctx = False\<rparr>, g'), rows) }))"

section \<open>Facts\<close>

lemma matches_eq: "matches cid f q = trace_matches cid f q"
proof (cases "q = []")
  case True
  have "ci_contains [] hay" for hay
    unfolding ci_contains_def contains_sub_iff to_lower_def by (rule exI [of _ "[]"]) simp
  then show ?thesis using True by (simp add: matches_def trace_matches_def to_lower_def)
next
  case False
  then show ?thesis by (simp add: matches_def trace_matches_def ci_contains_def to_lower_def)
qed

lemma run_menu_defined: "length xs \<le> 1 \<Longrightarrow> ctx \<noteq> None \<Longrightarrow> run_menu add xs (ctx, g) \<noteq> None"
proof -
  assume "length xs \<le> 1" "ctx \<noteq> None"
  then consider "xs = []" | t a c where "xs = [(t, a)]" "ctx = Some c" by (cases xs) auto
  then show ?thesis
  proof cases
    case 2
    then show ?thesis by (cases t) (simp_all split: prod.split)
  qed simp
qed

lemma tw_updates: "fold tw_update fs w = w\<lparr>tw_set :=
    fold dfs_update (filter (\<lambda>f. hdr_interface (fr_header f) = dfs_interface (tw_set w)) fs) (tw_set w)\<rparr>"
proof (induction fs arbitrary: w)
  case (Cons f fs)
  have "dfs_interface (dfs_update f s) = dfs_interface s" for s by (simp add: dfs_update_def Let_def split: option.split)
  then show ?case using Cons.IH [of "tw_update f w"] by (simp add: tw_update_def)
qed simp

end
