(* ===== verification/SendEdit.thy ===== *)
theory SendEdit
  imports Preset
begin

text \<open>
  \<open>src/gui/SendWindow\<close>: choosing a message, editing its values and starting actions. A rendered
  frame takes what the widgets do to the values they show (\<open>DragScalar\<close>, \<open>InputText\<close> and the
  like are functions on the shown value) and which buttons were pressed; what is drawn besides is
  not modelled. Reading outside a vector is the value None.
\<close>

section \<open>State\<close>

record send_window =
  sw_ifaces :: "(string \<times> send_model) list"
  sw_open :: bool
  sw_iface :: int
  sw_msg :: int
  sw_values :: "dbl list"
  sw_period_buf :: string
  sw_sin_idx :: int
  sw_amplitude :: dbl
  sw_offset :: dbl
  sw_sin_period :: int
  sw_interval :: int

text \<open>Interfaces without a DBC are left out; a DBC that cannot be read throws.\<close>

fun load_ifaces :: "(string \<Rightarrow> dbc_file) \<Rightarrow> interface_config list \<Rightarrow> (string \<times> send_model) list result" where
  "load_ifaces load [] = Inr []"
| "load_ifaces load (cfg # cfgs) =
     (if ic_dbc cfg = [] then load_ifaces load cfgs
      else bind_result (mk_send_model load (ic_dbc cfg)) (\<lambda>model.
           bind_result (load_ifaces load cfgs) (\<lambda>rest. Inr ((ic_name cfg, model) # rest))))"

definition mk_send_window :: "(string \<Rightarrow> dbc_file) \<Rightarrow> interface_config list \<Rightarrow> send_window result" where
  "mk_send_window load cfgs =
     bind_result (load_ifaces load cfgs) (\<lambda>ifaces. Inr
       \<lparr>sw_ifaces = ifaces, sw_open = False, sw_iface = - 1, sw_msg = - 1, sw_values = [], sw_period_buf = ''100'',
        sw_sin_idx = 0, sw_amplitude = f64_one, sw_offset = 0, sw_sin_period = 1000, sw_interval = 10\<rparr>)"

definition message_at :: "send_window \<Rightarrow> int \<Rightarrow> int \<Rightarrow> (string \<times> send_model \<times> send_message) option" where
  "message_at w i j =
     do { (name, model) \<leftarrow> nth_opt (sw_ifaces w) i; msg \<leftarrow> nth_opt model j; Some (name, model, msg) }"

definition open_popup :: "int \<Rightarrow> int \<Rightarrow> send_window \<Rightarrow> send_window option" where
  "open_popup i j w =
     map_option (\<lambda>(_, _, msg). w\<lparr>sw_iface := i, sw_msg := j, sw_open := True, sw_values := map ss_value (sm_signals msg)\<rparr>)
       (message_at w i j)"

section \<open>One frame\<close>

record send_ui =
  su_tab_bar :: bool
  su_tab :: "nat \<Rightarrow> bool"
  su_table :: "nat \<Rightarrow> bool"
  su_select :: "nat \<Rightarrow> nat \<Rightarrow> bool"
  su_closed :: bool
  su_visible :: bool
  su_values :: bool
  su_value :: "nat \<Rightarrow> dbl \<Rightarrow> dbl"
  su_once :: bool
  su_periodic :: bool
  su_period_text :: "string \<Rightarrow> string"
  su_sin_open :: bool
  su_combo :: bool
  su_combo_item :: "nat \<Rightarrow> bool"
  su_amplitude :: "dbl \<Rightarrow> dbl"
  su_offset :: "dbl \<Rightarrow> dbl"
  su_sin_period :: "int \<Rightarrow> int"
  su_interval :: "int \<Rightarrow> int"
  su_start_sin :: bool

text \<open>The rows clicked in the tables, in the order they are drawn.\<close>

definition selected_rows :: "send_ui \<Rightarrow> send_window \<Rightarrow> (nat \<times> nat) list" where
  "selected_rows ui w =
     (if \<not> su_tab_bar ui then []
      else concat (map (\<lambda>(i, name, model). map (Pair i) (filter (su_select ui i) [0..<length model]))
        (filter (\<lambda>(i, _). su_tab ui i \<and> su_table ui i) (enumerate 0 (sw_ifaces w)))))"

fun open_rows :: "(nat \<times> nat) list \<Rightarrow> send_window \<Rightarrow> send_window option" where
  "open_rows [] w = Some w"
| "open_rows ((i, j) # rows) w = do { w1 \<leftarrow> open_popup (int i) (int j) w; open_rows rows w1 }"

definition edit_values :: "(nat \<Rightarrow> dbl \<Rightarrow> dbl) \<Rightarrow> nat \<Rightarrow> dbl list \<Rightarrow> dbl list option" where
  "edit_values f n vs =
     (if n \<le> length vs then Some (map (\<lambda>k. if k < n then f k (vs ! k) else vs ! k) [0..<length vs]) else None)"

text \<open>The loop of \<open>set_value\<close> calls before an action is created.\<close>

fun set_values :: "int \<Rightarrow> int \<Rightarrow> dbl list \<Rightarrow> nat \<Rightarrow> send_model \<Rightarrow> send_model option" where
  "set_values mi k vs 0 model = Some model"
| "set_values mi k vs (Suc n) model =
     do { v \<leftarrow> nth_opt vs k; model' \<leftarrow> set_value model mi k v; set_values mi (k + 1) vs n model' }"

definition apply_values :: "int \<Rightarrow> dbl list \<Rightarrow> send_model \<Rightarrow> send_model option" where
  "apply_values mi vs model =
     do { msg \<leftarrow> nth_opt model mi; set_values mi 0 vs (length (sm_signals msg)) model }"

text \<open>\<open>std::atoi\<close>: 0 if there is no number, undefined if it does not fit.\<close>

definition atoi :: "string \<Rightarrow> int option" where
  "atoi s =
     (let (neg, t) = read_sign (dropWhile is_space s); (v, k, _) = read_digits 10 0 t;
          i = (if neg then - int v else int v)
      in if i < - (2 ^ 31) \<or> 2 ^ 31 \<le> i then None else Some i)"

type_synonym 'm sending = "send_window \<times> 'm action_handler"

definition put_model :: "send_model \<Rightarrow> send_window \<Rightarrow> send_window" where
  "put_model model w =
     w\<lparr>sw_ifaces := (sw_ifaces w)[nat (sw_iface w) := (fst (sw_ifaces w ! nat (sw_iface w)), model)]\<rparr>"

text \<open>\<open>mk\<close> makes the action of a button from the payload encoded with the edited values.\<close>

definition start_with :: "(string \<Rightarrow> send_message \<Rightarrow> bytes \<Rightarrow> 'm action) \<Rightarrow> 'm sending \<Rightarrow> 'm sending option" where
  "start_with mk wh =
     (case wh of (w, h) \<Rightarrow>
       do { (name, model, msg) \<leftarrow> message_at w (sw_iface w) (sw_msg w);
            model' \<leftarrow> apply_values (sw_msg w) (sw_values w) model;
            payload \<leftarrow> encode model' (sw_msg w);
            Some (put_model model' w, add_action (mk name msg payload) h) })"

definition send_once :: "'m sending \<Rightarrow> 'm sending option" where
  "send_once = start_with (\<lambda>name msg payload. mk_action name (sm_id msg) (sm_name msg) payload Single_action)"

definition send_periodic :: "'m sending \<Rightarrow> 'm sending option" where
  "send_periodic wh =
     do { ms \<leftarrow> atoi (sw_period_buf (fst wh));
          start_with (\<lambda>name msg payload. mk_action name (sm_id msg) (sm_name msg) payload (Periodic_action (max 1 ms))) wh }"

text \<open>The closure of a sine action keeps the base payload and the signal; it is the same code as
  the one of a preset.\<close>

definition start_sine :: "send_signal \<Rightarrow> 'm sending \<Rightarrow> 'm sending option" where
  "start_sine ssig wh =
     (case wh of (w, h) \<Rightarrow>
       start_with (\<lambda>name msg payload. mk_sin_action (ah_now h) name (sm_id msg) (sm_name msg) (sw_interval w)
         (\<lambda>m v. Some (m, preset_encode payload (ss_sig ssig) (ss_min_val ssig) (ss_max_val ssig) v))
         (sw_amplitude w) (sw_sin_period w) (sw_offset w)) wh)"

definition combo_idx :: "send_ui \<Rightarrow> nat \<Rightarrow> int \<Rightarrow> int" where
  "combo_idx ui n i = (if su_combo ui then fold (\<lambda>k i. if su_combo_item ui k then int k else i) [0..<n] i else i)"

definition sin_section :: "send_ui \<Rightarrow> send_message \<Rightarrow> 'm sending \<Rightarrow> 'm sending option" where
  "sin_section ui msg wh =
     (case wh of (w, h) \<Rightarrow>
       let n = int (length (sm_signals msg))
       in do { _ \<leftarrow> (if sm_signals msg = [] then Some [] else map_option ss_name (nth_opt (sm_signals msg) (sw_sin_idx w)));
               let w1 = w\<lparr>sw_sin_idx := combo_idx ui (length (sm_signals msg)) (sw_sin_idx w)\<rparr>;
               ssig \<leftarrow> nth_opt (sm_signals msg) (min (sw_sin_idx w1) (n - 1));
               let w2 = w1\<lparr>sw_amplitude := su_amplitude ui (sw_amplitude w1), sw_offset := su_offset ui (sw_offset w1),
                     sw_sin_period := max 1 (su_sin_period ui (sw_sin_period w1)),
                     sw_interval := max 1 (su_interval ui (sw_interval w1))\<rparr>;
               if sm_signals msg \<noteq> [] \<and> su_start_sin ui then start_sine ssig (w2, h) else Some (w2, h) })"

definition render_edit :: "send_ui \<Rightarrow> 'm sending \<Rightarrow> 'm sending option" where
  "render_edit ui wh =
     (case wh of (w, h) \<Rightarrow>
       (case (if sw_open w then message_at w (sw_iface w) (sw_msg w) else None) of
          None \<Rightarrow> Some (w, h)
        | Some (name, model, msg) \<Rightarrow>
            (let w1 = w\<lparr>sw_open := \<not> su_closed ui\<rparr>
             in if \<not> su_visible ui then Some (w1, h)
                else do { vs \<leftarrow> (if su_values ui then edit_values (su_value ui) (length (sm_signals msg)) (sw_values w1)
                                 else Some (sw_values w1));
                          wh2 \<leftarrow> (if su_once ui then send_once (w1\<lparr>sw_values := vs\<rparr>, h) else Some (w1\<lparr>sw_values := vs\<rparr>, h));
                          wh3 \<leftarrow> (if su_periodic ui then send_periodic wh2 else Some wh2);
                          let wh4 = (fst wh3\<lparr>sw_period_buf := su_period_text ui (sw_period_buf (fst wh3))\<rparr>, snd wh3);
                          if su_sin_open ui then sin_section ui msg wh4 else Some wh4 })))"

definition sw_render :: "send_ui \<Rightarrow> 'm sending \<Rightarrow> 'm sending option" where
  "sw_render ui wh =
     do { w \<leftarrow> open_rows (selected_rows ui (fst wh)) (fst wh); render_edit ui (w, snd wh) }"

text \<open>What a row of the table shows, and the rows of the edit window: the name, whether the value is
  a slider between the signal's limits, and the unit.\<close>

record send_row =
  sn_label :: string
  sn_selected :: bool
  sn_name :: string
  sn_dlc :: string

definition send_row_of :: "send_window \<Rightarrow> nat \<Rightarrow> nat \<Rightarrow> send_message \<Rightarrow> send_row" where
  "send_row_of w i j msg =
     \<lparr>sn_label = ''0x'' @ fmt_03X (unat (sm_id msg)) @ ''##'' @ dec_of_nat i @ ''_'' @ dec_of_nat j,
      sn_selected = (sw_open w \<and> sw_iface w = int i \<and> sw_msg w = int j),
      sn_name = sm_name msg, sn_dlc = dec_of_nat (sm_dlc msg)\<rparr>"

definition edit_title :: "send_message \<Rightarrow> string" where
  "edit_title msg = ''Edit: '' @ sm_name msg @ '' (0x'' @ fmt_03X (unat (sm_id msg)) @ '')''"

definition edit_row_of :: "send_signal \<Rightarrow> string \<times> bool \<times> string" where
  "edit_row_of s = (ss_name s, f64_lt (ss_min_val s) (ss_max_val s), ss_unit s)"


section \<open>What the buttons send\<close>

definition with_edited :: "dbl list \<Rightarrow> send_message \<Rightarrow> send_message" where
  "with_edited vs msg = msg\<lparr>sm_signals := map (\<lambda>(ss, v). ss\<lparr>ss_value := v\<rparr>) (zip (sm_signals msg) vs)\<rparr>"

definition edited_upto :: "nat \<Rightarrow> dbl list \<Rightarrow> send_signal list \<Rightarrow> send_signal list" where
  "edited_upto k vs sigs = map (\<lambda>(ss, v). ss\<lparr>ss_value := v\<rparr>) (zip (take k sigs) (take k vs)) @ drop k sigs"

lemma edited_upto_Suc:
  assumes "k < length sigs" "length vs = length sigs"
  shows "(edited_upto k vs sigs)[k := (edited_upto k vs sigs ! k)\<lparr>ss_value := vs ! k\<rparr>] = edited_upto (Suc k) vs sigs"
proof -
  have l: "length (map (\<lambda>(ss, v). ss\<lparr>ss_value := v\<rparr>) (zip (take k sigs) (take k vs))) = k" using assms by simp
  have "drop k sigs = sigs ! k # drop (Suc k) sigs" using assms(1) by (simp add: Cons_nth_drop_Suc)
  moreover have "zip (take (Suc k) sigs) (take (Suc k) vs) = zip (take k sigs) (take k vs) @ [(sigs ! k, vs ! k)]"
    using assms by (simp add: take_Suc_conv_app_nth)
  ultimately show ?thesis by (simp add: edited_upto_def list_update_append nth_append l assms)
qed

lemma length_edited_upto [simp]: "length vs = length sigs \<Longrightarrow> k \<le> length sigs \<Longrightarrow> length (edited_upto k vs sigs) = length sigs"
  by (simp add: edited_upto_def)

lemma set_values_edited:
  assumes "0 \<le> mi" "mi < int (length model)" "length vs = length sigs" "k + n = length sigs"
    and "model ! nat mi = msg\<lparr>sm_signals := edited_upto k vs sigs\<rparr>"
  shows "set_values mi (int k) vs n model = Some (model[nat mi := msg\<lparr>sm_signals := edited_upto (k + n) vs sigs\<rparr>])"
  using assms
proof (induction n arbitrary: k model)
  case 0
  then have "model[nat mi := msg\<lparr>sm_signals := edited_upto (k + 0) vs sigs\<rparr>] = model" by (metis add_0_right list_update_id)
  then show ?case by simp
next
  case (Suc n)
  then have k: "k < length sigs" by simp
  let ?model = "model[nat mi := msg\<lparr>sm_signals := edited_upto (Suc k) vs sigs\<rparr>]"
  have "set_value model mi (int k) (vs ! k) = Some ?model"
    using Suc.prems k by (simp add: set_value_inside edited_upto_Suc)
  moreover have "set_values mi (int (Suc k)) vs n ?model = Some (?model[nat mi := msg\<lparr>sm_signals := edited_upto (Suc k + n) vs sigs\<rparr>])"
    by (rule Suc.IH) (use Suc.prems in simp_all)
  ultimately show ?case using Suc.prems k by (simp add: add.commute)
qed

lemma apply_values_edited:
  assumes "nth_opt model mi = Some msg" "length vs = length (sm_signals msg)"
  shows "apply_values mi vs model = Some (model[nat mi := with_edited vs msg])"
proof -
  from assms(1) have m: "0 \<le> mi" "mi < int (length model)" "model ! nat mi = msg" by (auto simp: nth_opt_Some_iff)
  have "set_values mi (int 0) vs (length (sm_signals msg)) model
      = Some (model[nat mi := msg\<lparr>sm_signals := edited_upto (0 + length (sm_signals msg)) vs (sm_signals msg)\<rparr>])"
    by (rule set_values_edited) (use m assms in \<open>simp_all add: edited_upto_def\<close>)
  then show ?thesis using assms m by (simp add: apply_values_def edited_upto_def with_edited_def)
qed

lemma message_atD:
  assumes "message_at w i j = Some (name, model, msg)"
  shows "0 \<le> i" "nat i < length (sw_ifaces w)" "sw_ifaces w ! nat i = (name, model)"
    "0 \<le> j" "nat j < length model" "model ! nat j = msg" "nth_opt model j = Some msg"
  using assms by (auto simp: message_at_def bind_eq_Some_conv nth_opt_Some_iff split: prod.splits)

lemma message_at_inside: "0 \<le> i \<Longrightarrow> nat i < length (sw_ifaces w) \<Longrightarrow> sw_ifaces w ! nat i = (name, model)
    \<Longrightarrow> 0 \<le> j \<Longrightarrow> nat j < length model \<Longrightarrow> message_at w i j = Some (name, model, model ! nat j)"
  by (simp add: message_at_def nat_less_iff)

lemma start_with_edited:
  assumes "message_at w (sw_iface w) (sw_msg w) = Some (name, model, msg)" "length (sw_values w) = length (sm_signals msg)"
  shows "start_with mk (w, h) =
     Some (put_model (model[nat (sw_msg w) := with_edited (sw_values w) msg]) w,
           add_action (mk name msg (encode_message (with_edited (sw_values w) msg))) h)"
proof -
  note m = message_atD [OF assms(1)]
  from m have "encode (model[nat (sw_msg w) := with_edited (sw_values w) msg]) (sw_msg w)
      = Some (encode_message (with_edited (sw_values w) msg))"
    by (simp add: encode_def nat_less_iff)
  then show ?thesis using assms apply_values_edited [OF m(7) assms(2)] by (simp add: start_with_def)
qed

section \<open>The window's invariant\<close>

definition send_ok :: "send_window \<Rightarrow> bool" where
  "send_ok w \<longleftrightarrow> 0 \<le> sw_sin_idx w \<and> (sw_open w \<longrightarrow> (\<exists>name model msg.
     message_at w (sw_iface w) (sw_msg w) = Some (name, model, msg) \<and> length (sw_values w) = length (sm_signals msg)))"

lemma with_edited_simps [simp]:
  "sm_id (with_edited vs msg) = sm_id msg" "sm_name (with_edited vs msg) = sm_name msg" "sm_dlc (with_edited vs msg) = sm_dlc msg"
  "length vs = length (sm_signals msg) \<Longrightarrow> length (sm_signals (with_edited vs msg)) = length (sm_signals msg)"
  by (simp_all add: with_edited_def)

lemma put_edited:
  assumes "message_at w (sw_iface w) (sw_msg w) = Some (name, model, msg)" "length (sw_values w) = length (sm_signals msg)"
  defines "w' \<equiv> put_model (model[nat (sw_msg w) := with_edited (sw_values w) msg]) w"
  shows "message_at w' (sw_iface w') (sw_msg w') = Some (name, model[nat (sw_msg w) := with_edited (sw_values w) msg], with_edited (sw_values w) msg)"
    and "sw_values w' = sw_values w" "sw_open w' = sw_open w" "sw_sin_idx w' = sw_sin_idx w" "sw_period_buf w' = sw_period_buf w"
proof -
  note m = message_atD [OF assms(1)]
  let ?model = "model[nat (sw_msg w) := with_edited (sw_values w) msg]"
  from m have "sw_ifaces w' ! nat (sw_iface w') = (name, ?model)" "nat (sw_iface w') < length (sw_ifaces w')"
    "sw_iface w' = sw_iface w" "sw_msg w' = sw_msg w"
    by (simp_all add: w'_def put_model_def)
  with m show "message_at w' (sw_iface w') (sw_msg w') = Some (name, ?model, with_edited (sw_values w) msg)"
    using message_at_inside [of "sw_iface w'" w' name ?model "sw_msg w'"] by simp
qed (simp_all add: w'_def put_model_def)

lemma start_with_ok:
  assumes "send_ok w" "message_at w (sw_iface w) (sw_msg w) = Some (name, model, msg)" "length (sw_values w) = length (sm_signals msg)"
  shows "holds (\<lambda>(w', h'). send_ok w' \<and> sw_sin_idx w' = sw_sin_idx w \<and> sw_open w' = sw_open w \<and> sw_period_buf w' = sw_period_buf w
      \<and> length (sw_values w') = length (sw_values w)
      \<and> (\<exists>model' msg'. message_at w' (sw_iface w') (sw_msg w') = Some (name, model', msg') \<and> length (sm_signals msg') = length (sm_signals msg)))
    (start_with mk (w, h))"
proof -
  note e = put_edited [OF assms(2,3)]
  from assms(1,3) e have "send_ok (put_model (model[nat (sw_msg w) := with_edited (sw_values w) msg]) w)"
    by (simp add: send_ok_def)
  with e assms(3) show ?thesis by (simp add: start_with_edited [OF assms(2,3)])
qed

lemma open_popup_ok:
  assumes "send_ok w" "0 \<le> i" "i < int (length (sw_ifaces w))" "0 \<le> j" "j < int (length (snd (sw_ifaces w ! nat i)))"
  shows "holds (\<lambda>w'. send_ok w' \<and> sw_ifaces w' = sw_ifaces w \<and> sw_period_buf w' = sw_period_buf w) (open_popup i j w)"
  using assms by (cases "sw_ifaces w ! nat i") (auto simp: open_popup_def message_at_def send_ok_def)

lemma open_rows_ok:
  assumes "send_ok w" "\<forall>(i, j)\<in>set rows. i < length (sw_ifaces w) \<and> j < length (snd (sw_ifaces w ! i))"
  shows "holds (\<lambda>w'. send_ok w' \<and> sw_ifaces w' = sw_ifaces w \<and> sw_period_buf w' = sw_period_buf w) (open_rows rows w)"
  using assms
proof (induction rows arbitrary: w)
  case (Cons r rows)
  obtain i j where r: "r = (i, j)" by (cases r)
  with Cons.prems have "0 \<le> int i" "int i < int (length (sw_ifaces w))" "0 \<le> int j" "int j < int (length (snd (sw_ifaces w ! nat (int i))))"
    by auto
  from open_popup_ok [OF Cons.prems(1) this] obtain w1 where
    w1: "open_popup (int i) (int j) w = Some w1" "send_ok w1" "sw_ifaces w1 = sw_ifaces w" "sw_period_buf w1 = sw_period_buf w"
    by (auto simp: holds_iff)
  from Cons.IH [OF w1(2)] Cons.prems(2) w1 show ?case by (simp add: r)
qed simp

lemma selected_rows_inside: "(i, j) \<in> set (selected_rows ui w) \<Longrightarrow> i < length (sw_ifaces w) \<and> j < length (snd (sw_ifaces w ! i))"
  by (auto simp: selected_rows_def in_set_enumerate_eq split: if_splits) (metis snd_conv)

lemma edit_values_some: "n \<le> length vs \<Longrightarrow> \<exists>vs'. edit_values f n vs = Some vs' \<and> length vs' = length vs"
  by (simp add: edit_values_def)

definition sin_defined :: "send_window \<Rightarrow> send_message \<Rightarrow> bool" where
  "sin_defined w msg \<longleftrightarrow> sw_sin_idx w < int (length (sm_signals msg))"

lemma combo_idx_nonneg: "0 \<le> i \<Longrightarrow> 0 \<le> combo_idx ui n i"
proof -
  have "0 \<le> i \<Longrightarrow> 0 \<le> fold (\<lambda>k i. if P k then int k else i) ks i" for P ks and i :: int
    by (induction ks arbitrary: i) auto
  then show "0 \<le> i \<Longrightarrow> 0 \<le> combo_idx ui n i" by (simp add: combo_idx_def)
qed

lemma sin_section_defined:
  assumes ok: "send_ok w" and m: "message_at w (sw_iface w) (sw_msg w) = Some (name, model, msg')"
    and l: "length (sw_values w) = length (sm_signals msg')" "length (sm_signals msg') = length (sm_signals msg)"
    and d: "sin_defined w msg"
  shows "holds (\<lambda>(w', h'). send_ok w') (sin_section ui msg (w, h))"
proof -
  define k where "k = combo_idx ui (length (sm_signals msg)) (sw_sin_idx w)"
  from ok have idx: "0 \<le> sw_sin_idx w" by (simp add: send_ok_def)
  then have k: "0 \<le> k" by (simp add: k_def combo_idx_nonneg)
  from d idx have n: "sm_signals msg \<noteq> []" by (auto simp: sin_defined_def)
  then have kn: "0 \<le> min k (int (length (sm_signals msg)) - 1)" "min k (int (length (sm_signals msg)) - 1) < int (length (sm_signals msg))"
    using k by (simp_all add: Suc_leI)
  let ?w = "w\<lparr>sw_sin_idx := k, sw_amplitude := su_amplitude ui (sw_amplitude w), sw_offset := su_offset ui (sw_offset w),
    sw_sin_period := max 1 (su_sin_period ui (sw_sin_period w)), sw_interval := max 1 (su_interval ui (sw_interval w))\<rparr>"
  have w: "send_ok ?w" using ok k by (simp add: send_ok_def message_at_def)
  have m': "message_at ?w (sw_iface ?w) (sw_msg ?w) = Some (name, model, msg')" using m by (simp add: message_at_def)
  have start: "holds (\<lambda>(w', h'). send_ok w') (start_sine ssig (?w, h))" for ssig
    unfolding start_sine_def prod.case
    by (rule holds_mono [OF start_with_ok [OF w m']]) (use l in auto)
  have "sin_section ui msg (w, h) = (if su_start_sin ui
      then start_sine (sm_signals msg ! nat (min k (int (length (sm_signals msg)) - 1))) (?w, h) else Some (?w, h))"
    using n idx d kn by (simp add: sin_section_def sin_defined_def k_def [symmetric] Let_def)
  with start w show ?thesis by simp
qed

lemma sin_section_undefined: "send_ok w \<Longrightarrow> \<not> sin_defined w msg \<Longrightarrow> sin_section ui msg (w, h) = None"
  by (cases "sm_signals msg = []") (auto simp: sin_section_def sin_defined_def send_ok_def nth_opt_def Let_def)

text \<open>What the buttons of the edit window keep; \<open>msg\<close> is the message when the frame began.\<close>

definition editing :: "send_window \<Rightarrow> send_message \<Rightarrow> send_window \<Rightarrow> bool" where
  "editing w msg w' \<longleftrightarrow> send_ok w' \<and> sw_sin_idx w' = sw_sin_idx w \<and> sw_period_buf w' = sw_period_buf w
     \<and> (\<exists>name model msg'. message_at w' (sw_iface w') (sw_msg w') = Some (name, model, msg')
          \<and> length (sw_values w') = length (sm_signals msg') \<and> length (sm_signals msg') = length (sm_signals msg))"

lemma start_with_editing:
  assumes "editing w msg w'"
  shows "holds (\<lambda>(w', h'). editing w msg w') (start_with mk (w', h))"
proof -
  from assms obtain name model msg' where a: "send_ok w'" "sw_sin_idx w' = sw_sin_idx w" "sw_period_buf w' = sw_period_buf w"
    "message_at w' (sw_iface w') (sw_msg w') = Some (name, model, msg')" "length (sw_values w') = length (sm_signals msg')"
    "length (sm_signals msg') = length (sm_signals msg)" by (auto simp: editing_def)
  show ?thesis by (rule holds_mono [OF start_with_ok [OF a(1,4,5)]]) (use a in \<open>auto simp: editing_def\<close>)
qed

lemma send_periodic_editing:
  "editing w msg w' \<Longrightarrow> atoi (sw_period_buf w) \<noteq> None \<Longrightarrow> holds (\<lambda>(w', h'). editing w msg w') (send_periodic (w', h))"
  by (auto simp: send_periodic_def editing_def [of w msg w'] intro!: start_with_editing)

lemma send_periodic_undefined: "editing w msg w' \<Longrightarrow> atoi (sw_period_buf w) = None \<Longrightarrow> send_periodic (w', h) = None"
  by (simp add: send_periodic_def editing_def)

definition shown :: "send_window \<Rightarrow> (string \<times> send_model \<times> send_message) option" where
  "shown w = (if sw_open w then message_at w (sw_iface w) (sw_msg w) else None)"

definition edit_defined :: "send_ui \<Rightarrow> send_window \<Rightarrow> bool" where
  "edit_defined ui w \<longleftrightarrow>
     (case shown w of None \<Rightarrow> True
      | Some (name, model, msg) \<Rightarrow> \<not> su_visible ui
          \<or> (su_periodic ui \<longrightarrow> atoi (sw_period_buf w) \<noteq> None) \<and> (su_sin_open ui \<longrightarrow> sin_defined w msg))"

lemma render_edit_cases:
  assumes ok: "send_ok w"
  shows "if edit_defined ui w then holds (\<lambda>(w', h'). send_ok w') (render_edit ui (w, h)) else render_edit ui (w, h) = None"
proof (cases "shown w")
  case None
  with ok show ?thesis by (simp add: edit_defined_def render_edit_def shown_def)
next
  case (Some p)
  obtain name model msg where p: "p = (name, model, msg)" by (rule prod_cases3)
  from Some p have op: "sw_open w" and m: "message_at w (sw_iface w) (sw_msg w) = Some (name, model, msg)"
    by (auto simp: shown_def split: if_splits)
  from ok op m have l: "length (sw_values w) = length (sm_signals msg)" by (auto simp: send_ok_def)
  let ?w1 = "w\<lparr>sw_open := \<not> su_closed ui\<rparr>"
  have at: "message_at (w\<lparr>sw_open := b, sw_values := vs\<rparr>) i j = message_at w i j" "message_at (w\<lparr>sw_open := b\<rparr>) i j = message_at w i j" for vs b i j
    by (simp_all add: message_at_def)
  show ?thesis
  proof (cases "su_visible ui")
    case False
    with ok op m Some p l show ?thesis by (auto simp: edit_defined_def render_edit_def shown_def send_ok_def at)
  next
    case True
    obtain vs where vs: "(if su_values ui then edit_values (su_value ui) (length (sm_signals msg)) (sw_values ?w1) else Some (sw_values ?w1)) = Some vs"
      "length vs = length (sm_signals msg)"
      using edit_values_some [of "length (sm_signals msg)" "sw_values w" "su_value ui"] l
      by (cases "su_values ui") auto
    let ?w2 = "?w1\<lparr>sw_values := vs\<rparr>"
    have e2: "editing w msg ?w2" using ok m vs(2) by (auto simp: editing_def send_ok_def at)
    then have "holds (\<lambda>(w', h'). editing w msg w') (if su_once ui then send_once (?w2, h) else Some (?w2, h))"
      using e2 by (simp add: send_once_def start_with_editing [OF e2])
    then obtain w3 h3 where e3: "(if su_once ui then send_once (?w2, h) else Some (?w2, h)) = Some (w3, h3)" "editing w msg w3"
      by (auto simp: holds_iff)
    have r: "render_edit ui (w, h) = do { wh3 \<leftarrow> (if su_periodic ui then send_periodic (w3, h3) else Some (w3, h3));
        let wh4 = (fst wh3\<lparr>sw_period_buf := su_period_text ui (sw_period_buf (fst wh3))\<rparr>, snd wh3);
        if su_sin_open ui then sin_section ui msg wh4 else Some wh4 }"
      using op m True vs(1) e3(1) by (simp add: render_edit_def at)
    show ?thesis
    proof (cases "su_periodic ui \<and> atoi (sw_period_buf w) = None")
      case True
      then show ?thesis using Some p \<open>su_visible ui\<close> by (simp add: r edit_defined_def send_periodic_undefined [OF e3(2)])
    next
      case False
      then have "holds (\<lambda>(w', h'). editing w msg w') (if su_periodic ui then send_periodic (w3, h3) else Some (w3, h3))"
        using e3(2) by (simp add: send_periodic_editing [OF e3(2)])
      then obtain w4 h4 where e4: "(if su_periodic ui then send_periodic (w3, h3) else Some (w3, h3)) = Some (w4, h4)" "editing w msg w4"
        by (auto simp: holds_iff)
      let ?w5 = "w4\<lparr>sw_period_buf := su_period_text ui (sw_period_buf w4)\<rparr>"
      have at5: "message_at ?w5 i j = message_at w4 i j" for i j by (simp add: message_at_def)
      from e4(2) obtain n4 m4 g4 where f5: "send_ok ?w5" "message_at ?w5 (sw_iface ?w5) (sw_msg ?w5) = Some (n4, m4, g4)"
        "length (sw_values ?w5) = length (sm_signals g4)" "length (sm_signals g4) = length (sm_signals msg)"
        "sin_defined ?w5 msg = sin_defined w msg"
        by (auto simp: editing_def at5 send_ok_def sin_defined_def)
      have r5: "render_edit ui (w, h) = (if su_sin_open ui then sin_section ui msg (?w5, h4) else Some (?w5, h4))"
        by (simp add: r e4(1))
      show ?thesis
        using False Some p \<open>su_visible ui\<close> f5
        by (auto simp: r5 edit_defined_def sin_section_defined [OF f5(1-4)] sin_section_undefined [OF f5(1)])
    qed
  qed
qed

fun sw_frames :: "send_ui list \<Rightarrow> 'm sending \<Rightarrow> 'm sending option" where
  "sw_frames [] wh = Some wh"
| "sw_frames (ui # uis) wh = Option.bind (sw_render ui wh) (sw_frames uis)"

lemma render_ok: "send_ok w \<Longrightarrow> sw_render ui (w, h) = Some (w', h') \<Longrightarrow> send_ok w'"
proof -
  assume ok: "send_ok w" and r: "sw_render ui (w, h) = Some (w', h')"
  have "holds (\<lambda>w'. send_ok w' \<and> sw_ifaces w' = sw_ifaces w \<and> sw_period_buf w' = sw_period_buf w) (open_rows (selected_rows ui w) w)"
    using ok selected_rows_inside by (intro open_rows_ok) auto
  then obtain w1 where w1: "open_rows (selected_rows ui w) w = Some w1" "send_ok w1" by (auto simp: holds_iff)
  from r w1(1) have "render_edit ui (w1, h) = Some (w', h')" by (simp add: sw_render_def)
  with render_edit_cases [OF w1(2), of ui h] show ?thesis by (auto split: if_splits)
qed

lemma frames_ok: "send_ok w \<Longrightarrow> sw_frames uis (w, h) = Some (w', h') \<Longrightarrow> send_ok w'"
proof (induction uis arbitrary: w h)
  case (Cons ui uis)
  then obtain w1 h1 where "sw_render ui (w, h) = Some (w1, h1)" "sw_frames uis (w1, h1) = Some (w', h')"
    by (auto simp: bind_eq_Some_conv)
  with Cons.IH render_ok [OF Cons.prems(1)] show ?case by blast
qed simp

lemma mk_send_window_ok: "mk_send_window load cfgs = Inr w \<Longrightarrow> send_ok w"
  by (auto simp: mk_send_window_def bind_result_Inr_iff send_ok_def)

section \<open>Properties\<close>


definition ex_idle_ui :: send_ui where
  "ex_idle_ui = \<lparr>su_tab_bar = True, su_tab = (\<lambda>_. True), su_table = (\<lambda>_. True), su_select = (\<lambda>_ _. False), su_closed = False,
     su_visible = True, su_values = True, su_value = (\<lambda>_ v. v), su_once = False, su_periodic = False,
     su_period_text = (\<lambda>t. t), su_sin_open = False, su_combo = False, su_combo_item = (\<lambda>_. False),
     su_amplitude = (\<lambda>v. v), su_offset = (\<lambda>v. v), su_sin_period = (\<lambda>v. v), su_interval = (\<lambda>v. v), su_start_sin = False\<rparr>"

definition ex_short_message :: imessage where
  "ex_short_message = \<lparr>ms_id = 292, ms_name = ''N'', ms_size = 1, ms_signals = [ex_byte_signal ''C'' 0], ms_mux_signal = None\<rparr>"

definition ex_ifaces :: "(string \<times> send_model) list" where
  "ex_ifaces = [(''vcan0'', map mk_send_message [ex_message, ex_short_message])]"

definition ex_send_window :: send_window where
  "ex_send_window = \<lparr>sw_ifaces = ex_ifaces, sw_open = False, sw_iface = - 1, sw_msg = - 1, sw_values = [], sw_period_buf = ''100'',
        sw_sin_idx = 0, sw_amplitude = f64_one, sw_offset = 0, sw_sin_period = 1000, sw_interval = 10\<rparr>"

text \<open>The first message has two signals and the user picks the second for a sine; then the second
  message is chosen, which has one.\<close>

definition ex_pick :: send_ui where
  "ex_pick = ex_idle_ui\<lparr>su_select := (\<lambda>i j. j = 0), su_sin_open := True, su_combo := True, su_combo_item := (\<lambda>k. k = 1)\<rparr>"

definition ex_switch :: send_ui where
  "ex_switch = ex_idle_ui\<lparr>su_select := (\<lambda>i j. j = 1), su_sin_open := True\<rparr>"

lemma mk_ex_send_window:
  "mk_send_window (\<lambda>_. Dbc_network [ex_message, ex_short_message])
     [\<lparr>ic_name = ''vcan0'', ic_dbc = ''a.dbc'', ic_actions_file = [], ic_baudrate = 0\<rparr>] = Inr ex_send_window"
  by (simp add: mk_send_window_def mk_send_model_def ex_send_window_def ex_ifaces_def mk_send_message_def ex_message_def ex_short_message_def)

definition ex_handler :: "unit action_handler" where
  "ex_handler = mk_action_handler 0 ()"

text \<open>Choosing another message with the sine section open reads outside its signals.\<close>

theorem stale_sin_index_undefined:
  "holds (\<lambda>wh. \<not> holds (\<lambda>_. True) (sw_render ex_switch wh)) (sw_frames [ex_pick] (ex_send_window, ex_handler))"
  by code_simp


text \<open>Pressing \<open>Send Once\<close> stores the edited values in the model and queues one single action of the
  selected interface and message, whose payload is the encoding of the message with exactly the
  values shown.\<close>

theorem send_once_sends_edited:
  assumes "message_at w (sw_iface w) (sw_msg w) = Some (name, model, msg)" and "length (sw_values w) = length (sm_signals msg)"
  shows "\<exists>w'. send_once (w, h) = Some (w', add_action (mk_action name (sm_id msg) (sm_name msg)
        (encode_message (with_edited (sw_values w) msg)) Single_action) h)
    \<and> map ss_value (sm_signals (with_edited (sw_values w) msg)) = sw_values w
    \<and> message_at w' (sw_iface w') (sw_msg w')
        = Some (name, model[nat (sw_msg w) := with_edited (sw_values w) msg], with_edited (sw_values w) msg)"
proof -
  have "map (\<lambda>(ss, v). ss_value (ss\<lparr>ss_value := v\<rparr>)) (zip sigs vs) = vs" if "length vs = length sigs" for sigs :: "send_signal list" and vs
    using that by (simp add: split_def)
  then have "map ss_value (sm_signals (with_edited (sw_values w) msg)) = sw_values w"
    using assms(2) by (simp add: with_edited_def comp_def split_def)
  with put_edited [OF assms] show ?thesis by (simp add: send_once_def start_with_edited [OF assms])
qed

lemma send_once_sends_edited_witness:
  "\<exists>w'. send_once (ex_send_window\<lparr>sw_iface := 0, sw_msg := 1, sw_values := [7]\<rparr>, ex_handler)
     = Some (w', add_action (mk_action ''vcan0'' 292 ''N'' [7] Single_action) ex_handler)"
proof -
  let ?w = "ex_send_window\<lparr>sw_iface := 0, sw_msg := 1, sw_values := [7]\<rparr>"
  have m: "message_at ?w (sw_iface ?w) (sw_msg ?w) = Some (''vcan0'', map mk_send_message [ex_message, ex_short_message], mk_send_message ex_short_message)"
    by (simp add: message_at_def ex_send_window_def ex_ifaces_def)
  have l: "length (sw_values ?w) = length (sm_signals (mk_send_message ex_short_message))"
    by (simp add: mk_send_message_def ex_short_message_def)
  have "encode_message (with_edited [7] (mk_send_message ex_short_message)) = [7]"
    by code_simp
  with send_once_sends_edited [OF m l, of ex_handler] show ?thesis
    by (auto simp: ex_send_window_def mk_send_message_def ex_short_message_def)
qed

end
