(* ===== verification/ActionsEdit.thy ===== *)
theory ActionsEdit
  imports SendEdit
begin

text \<open>
  \<open>src/gui/ActionsWindow\<close>: the table of running actions and the window that edits one. As in the
  send window, a frame takes what the widgets do to their values and which were activated.
\<close>

record actions_window =
  aw_open :: bool
  aw_idx :: nat
  aw_values :: "dbl list"
  aw_amplitude :: dbl
  aw_offset :: dbl
  aw_sin_period :: int

definition mk_actions_window :: actions_window where
  "mk_actions_window = \<lparr>aw_open = False, aw_idx = 0, aw_values = [], aw_amplitude = 0, aw_offset = 0, aw_sin_period = 1000\<rparr>"

definition find_model :: "send_window \<Rightarrow> string \<Rightarrow> (nat \<times> send_model) option" where
  "find_model w iface =
     map_option (\<lambda>i. (i, snd (sw_ifaces w ! i))) (find_idx (\<lambda>(name, _). name = iface) (sw_ifaces w))"

definition find_msg :: "send_model \<Rightarrow> u64 \<Rightarrow> int" where
  "find_msg model mid = (case find_idx (\<lambda>m. sm_id m = mid) model of Some i \<Rightarrow> int i | None \<Rightarrow> - 1)"

text \<open>The message of an action in its interface's model: the model's place, the message's, both.\<close>

definition action_message :: "send_window \<Rightarrow> action_info \<Rightarrow> (nat \<times> int \<times> send_model \<times> send_message) option" where
  "action_message w info =
     (case find_model w (ai_interface info) of
        None \<Rightarrow> None
      | Some (i, model) \<Rightarrow>
          (let mi = find_msg model (ai_msg_id info)
           in if mi < 0 then None else map_option (\<lambda>msg. (i, mi, model, msg)) (nth_opt model mi)))"

text \<open>\<open>(int)\<close> of a \<open>long\<close> keeps the low 32 bits.\<close>

definition to_int32 :: "int \<Rightarrow> int" where
  "to_int32 i = sint (word_of_int i :: 32 word)"

definition open_edit :: "send_window \<Rightarrow> action_info \<Rightarrow> actions_window \<Rightarrow> actions_window" where
  "open_edit w info a =
     (let a1 = a\<lparr>aw_idx := ai_idx info, aw_open := True\<rparr>
      in if ai_type_name info = ''Sin''
         then a1\<lparr>aw_amplitude := ai_sin_amplitude info, aw_offset := ai_sin_offset info,
                 aw_sin_period := to_int32 (ai_sin_period_ms info)\<rparr>
         else a1\<lparr>aw_values := (case action_message w info of None \<Rightarrow> [] | Some (_, _, _, msg) \<Rightarrow> map ss_value (sm_signals msg))\<rparr>)"

record actions_ui =
  au_table :: bool
  au_select :: "nat \<Rightarrow> bool"
  au_pause :: "nat \<Rightarrow> bool"
  au_delete :: "nat \<Rightarrow> bool"
  au_closed :: bool
  au_visible :: bool
  au_amplitude :: "dbl \<Rightarrow> dbl"
  au_offset :: "dbl \<Rightarrow> dbl"
  au_sin_period :: "int \<Rightarrow> int"
  au_values :: bool
  au_value :: "nat \<Rightarrow> dbl \<Rightarrow> dbl"
  au_apply :: bool

record 'm actions_state =
  as_window :: actions_window
  as_send :: send_window
  as_handler :: "'m action_handler"

section \<open>The edit window\<close>

definition edit_sine :: "actions_ui \<Rightarrow> action_info \<Rightarrow> 'm actions_state \<Rightarrow> 'm actions_state option" where
  "edit_sine ui info s =
     do { _ \<leftarrow> (case action_message (as_send s) info of
                 None \<Rightarrow> Some ()
               | Some (_, _, _, msg) \<Rightarrow> map_option (\<lambda>_. ()) (nth_opt (sm_signals msg) 0));
          let a = as_window s;
          let a1 = a\<lparr>aw_amplitude := au_amplitude ui (aw_amplitude a), aw_offset := au_offset ui (aw_offset a),
                aw_sin_period := max 1 (au_sin_period ui (aw_sin_period a))\<rparr>;
          let h = as_handler s;
          let i = aw_idx a1;
          Some (s\<lparr>as_window := a1, as_handler :=
            (if au_apply ui
             then update_sin_param i 1 (f64_of_int (aw_sin_period a1))
                    (update_sin_param i 2 (aw_offset a1) (update_sin_param i 0 (aw_amplitude a1) h))
             else h)\<rparr>) }"

definition put_iface_model :: "nat \<Rightarrow> send_model \<Rightarrow> send_window \<Rightarrow> send_window" where
  "put_iface_model i model w = w\<lparr>sw_ifaces := (sw_ifaces w)[i := (fst (sw_ifaces w ! i), model)]\<rparr>"

definition sized_values :: "send_message \<Rightarrow> dbl list \<Rightarrow> dbl list" where
  "sized_values msg vs = (if length vs \<noteq> length (sm_signals msg) then map ss_value (sm_signals msg) else vs)"

definition edit_constant :: "actions_ui \<Rightarrow> action_info \<Rightarrow> 'm actions_state \<Rightarrow> 'm actions_state option" where
  "edit_constant ui info s =
     (case action_message (as_send s) info of
        None \<Rightarrow> Some s
      | Some (i, mi, model, msg) \<Rightarrow>
          (let a = as_window s; n = length (sm_signals msg);
               vs = sized_values msg (aw_values a)
           in do { vs' \<leftarrow> (if au_values ui then edit_values (au_value ui) n vs else Some vs);
                   let s1 = s\<lparr>as_window := a\<lparr>aw_values := vs'\<rparr>\<rparr>;
                   if au_apply ui
                   then do { model' \<leftarrow> apply_values mi vs' model;
                             payload \<leftarrow> encode model' mi;
                             Some (s1\<lparr>as_send := put_iface_model i model' (as_send s),
                                      as_handler := update_payload (aw_idx a) payload (as_handler s)\<rparr>) }
                   else Some s1 }))"

definition render_action_edit :: "actions_ui \<Rightarrow> action_info list \<Rightarrow> 'm actions_state \<Rightarrow> 'm actions_state option" where
  "render_action_edit ui infos s =
     (let a = as_window s
      in if \<not> aw_open a then Some s
         else (case List.find (\<lambda>info. ai_idx info = aw_idx a) infos of
                 None \<Rightarrow> Some (s\<lparr>as_window := a\<lparr>aw_open := False\<rparr>\<rparr>)
               | Some info \<Rightarrow>
                   (let s1 = s\<lparr>as_window := a\<lparr>aw_open := \<not> au_closed ui\<rparr>\<rparr>
                    in if \<not> au_visible ui then Some s1
                       else if ai_type_name info = ''Sin'' then edit_sine ui info s1
                       else edit_constant ui info s1)))"

section \<open>The table\<close>

text \<open>The last row whose button was pressed.\<close>

definition last_pressed :: "(action_info \<Rightarrow> bool) \<Rightarrow> action_info list \<Rightarrow> nat option" where
  "last_pressed p infos = fold (\<lambda>info r. if p info then Some (ai_idx info) else r) infos None"

definition run_table :: "actions_ui \<Rightarrow> action_info list \<Rightarrow> 'm actions_state \<Rightarrow> 'm actions_state" where
  "run_table ui infos s =
     (let a1 = fold (\<lambda>info a. if au_select ui (ai_idx info) then open_edit (as_send s) info a else a) infos (as_window s);
          h1 = (case last_pressed (\<lambda>info. ai_is_periodic info \<and> au_pause ui (ai_idx info)) infos of
                  None \<Rightarrow> as_handler s | Some i \<Rightarrow> toggle_pause i (as_handler s))
      in case last_pressed (\<lambda>info. au_delete ui (ai_idx info)) infos of
           None \<Rightarrow> s\<lparr>as_window := a1, as_handler := h1\<rparr>
         | Some i \<Rightarrow> s\<lparr>as_window := (if aw_open a1 \<and> aw_idx a1 = i then a1\<lparr>aw_open := False\<rparr> else a1),
                       as_handler := remove_action i h1\<rparr>)"

text \<open>What a row shows; \<open>ac_ago\<close> are the milliseconds since the last send, if there was one.\<close>

record action_row =
  ac_label :: string
  ac_marked :: bool
  ac_iface :: string
  ac_hex_id :: string
  ac_title :: string
  ac_period_text :: string
  ac_ago :: "dbl option"
  ac_button :: "string option"

definition action_row_of :: "int \<Rightarrow> actions_window \<Rightarrow> action_info \<Rightarrow> action_row" where
  "action_row_of now a info =
     \<lparr>ac_label = ai_type_name info @ ''##sel_'' @ dec_of_nat (ai_idx info),
      ac_marked = (aw_open a \<and> aw_idx a = ai_idx info),
      ac_iface = ai_interface info, ac_hex_id = ''0x'' @ fmt_03X (unat (ai_msg_id info)), ac_title = ai_msg_name info,
      ac_period_text = (if ai_is_periodic info then dec_of_int (ai_period info) @ ''ms'' else ''once''),
      ac_ago = (if ai_ever_sent info then Some (millis (now - ai_last_sent info)) else None),
      ac_button = (if ai_is_periodic info then Some (if ai_paused info then ''Resume'' else ''Pause'') else None)\<rparr>"

definition edit_action_title :: "action_info \<Rightarrow> string" where
  "edit_action_title info =
     ''Edit Action: '' @ ai_type_name info @ '' '' @ [CHR 0xE2, CHR 0x80, CHR 0x94] @ '' '' @ ai_msg_name info
     @ '' (0x'' @ fmt_03X (unat (ai_msg_id info)) @ '')''"


definition aw_render :: "actions_ui \<Rightarrow> 'm actions_state \<Rightarrow> 'm actions_state option" where
  "aw_render ui s =
     (let infos = snapshot (as_handler s)
      in render_action_edit ui infos (if infos = [] \<or> \<not> au_table ui then s else run_table ui infos s))"

section \<open>Facts\<close>

lemma action_messageD:
  assumes "action_message w info = Some (i, mi, model, msg)"
  shows "i < length (sw_ifaces w)" "fst (sw_ifaces w ! i) = ai_interface info" "snd (sw_ifaces w ! i) = model"
    "nth_opt model mi = Some msg" "sm_id msg = ai_msg_id info"
proof -
  from assms obtain m where f: "find_idx (\<lambda>(name, _). name = ai_interface info) (sw_ifaces w) = Some i" "m = snd (sw_ifaces w ! i)"
    "m = model" "nth_opt model mi = Some msg" "mi = find_msg model (ai_msg_id info)" "0 \<le> mi"
    by (auto simp: action_message_def find_model_def Let_def split: option.splits if_splits)
  then show "i < length (sw_ifaces w)" "fst (sw_ifaces w ! i) = ai_interface info" "snd (sw_ifaces w ! i) = model" "nth_opt model mi = Some msg"
    using find_idx_Some [OF f(1)] by (auto simp: split_def)
  from f(5,6) obtain k where "find_idx (\<lambda>m. sm_id m = ai_msg_id info) model = Some k" "mi = int k"
    by (auto simp: find_msg_def split: option.splits)
  with find_idx_Some [of _ model k] f(4) show "sm_id msg = ai_msg_id info" by (auto simp: nth_opt_Some_iff)
qed

lemma length_sized_values [simp]: "length (sized_values msg vs) = length (sm_signals msg)"
  by (simp add: sized_values_def)

lemma edited_values:
  "\<exists>vs'. (if b then edit_values f (length (sm_signals msg)) (sized_values msg vs) else Some (sized_values msg vs)) = Some vs'
    \<and> length vs' = length (sm_signals msg) \<and> (\<not> b \<longrightarrow> vs' = sized_values msg vs)"
  using edit_values_some [of "length (sm_signals msg)" "sized_values msg vs" f] by (cases b) auto

lemma edit_constant_edited:
  assumes "action_message (as_send s) info = Some (i, mi, model, msg)" "au_apply ui"
  shows "\<exists>vs w'. length vs = length (sm_signals msg)
    \<and> (\<not> au_values ui \<and> length (aw_values (as_window s)) = length (sm_signals msg) \<longrightarrow> vs = aw_values (as_window s))
    \<and> edit_constant ui info s = Some (s\<lparr>as_window := (as_window s)\<lparr>aw_values := vs\<rparr>, as_send := w',
        as_handler := update_payload (aw_idx (as_window s)) (encode_message (with_edited vs msg)) (as_handler s)\<rparr>)"
proof -
  note d = action_messageD [OF assms(1)]
  obtain vs where vs: "(if au_values ui then edit_values (au_value ui) (length (sm_signals msg)) (sized_values msg (aw_values (as_window s)))
      else Some (sized_values msg (aw_values (as_window s)))) = Some vs" "length vs = length (sm_signals msg)"
    "\<not> au_values ui \<Longrightarrow> vs = sized_values msg (aw_values (as_window s))"
    using edited_values by blast
  from d(4) have "encode (model[nat mi := with_edited vs msg]) mi = Some (encode_message (with_edited vs msg))"
    by (auto simp: encode_def nth_opt_Some_iff)
  with vs assms d(4) apply_values_edited [OF d(4) vs(2)] show ?thesis
    by (intro exI [of _ vs] exI [of _ "put_iface_model i (model[nat mi := with_edited vs msg]) (as_send s)"])
      (auto simp: edit_constant_def Let_def sized_values_def)
qed

lemma edit_constant_defined: "edit_constant ui info s \<noteq> None"
proof (cases "action_message (as_send s) info")
  case (Some q)
  obtain i mi model msg where q: "q = (i, mi, model, msg)" by (rule prod_cases4)
  note d = action_messageD [OF Some [unfolded q]]
  obtain vs where vs: "(if au_values ui then edit_values (au_value ui) (length (sm_signals msg)) (sized_values msg (aw_values (as_window s)))
      else Some (sized_values msg (aw_values (as_window s)))) = Some vs" "length vs = length (sm_signals msg)"
    "\<not> au_values ui \<Longrightarrow> vs = sized_values msg (aw_values (as_window s))"
    using edited_values by blast
  from d(4) have "encode (model[nat mi := with_edited vs msg]) mi \<noteq> None"
    by (auto simp: encode_def nth_opt_Some_iff)
  with Some vs apply_values_edited [OF d(4) vs(2)] show ?thesis
    unfolding edit_constant_def q by (auto simp: Let_def)
qed (simp add: edit_constant_def)

lemma edit_sine_undefined:
  "edit_sine ui info s = None \<Longrightarrow> \<exists>i mi model msg. action_message (as_send s) info = Some (i, mi, model, msg) \<and> sm_signals msg = []"
proof (cases "action_message (as_send s) info")
  case (Some q)
  assume n: "edit_sine ui info s = None"
  obtain i mi model msg where q: "q = (i, mi, model, msg)" by (rule prod_cases4)
  have "nth_opt (sm_signals msg) 0 = None"
    using n Some q by (cases "nth_opt (sm_signals msg) 0") (simp_all add: edit_sine_def Let_def)
  with Some q show ?thesis by (auto simp: nth_opt_None_iff)
qed (simp add: edit_sine_def Let_def)

lemma render_action_edit_undefined:
  assumes "render_action_edit ui infos s = None"
  shows "\<exists>info\<in>set infos. ai_type_name info = ''Sin''
    \<and> (\<exists>i mi model msg. action_message (as_send s) info = Some (i, mi, model, msg) \<and> sm_signals msg = [])"
proof (cases "List.find (\<lambda>info. ai_idx info = aw_idx (as_window s)) infos")
  case (Some info)
  let ?s = "s\<lparr>as_window := (as_window s)\<lparr>aw_open := \<not> au_closed ui\<rparr>\<rparr>"
  from Some assms edit_constant_defined [of ui info ?s] have "ai_type_name info = ''Sin''" "edit_sine ui info ?s = None"
    by (auto simp: render_action_edit_def Let_def split: if_splits)
  moreover from Some have "info \<in> set infos" by (auto simp: find_Some_iff)
  ultimately show ?thesis using edit_sine_undefined [of ui info ?s] by auto
qed (use assms in \<open>simp add: render_action_edit_def Let_def split: if_splits\<close>)

lemma run_table_send [simp]: "as_send (run_table ui infos s) = as_send s"
  by (simp add: run_table_def Let_def split: option.split)

section \<open>Properties\<close>

text \<open>A frame of the actions window is undefined only if a running sine action belongs to a message
  without signals.\<close>

theorem actions_window_defined:
  assumes "aw_render ui s = None"
  shows "\<exists>info\<in>set (snapshot (as_handler s)). ai_type_name info = ''Sin''
    \<and> (\<exists>i mi model msg. action_message (as_send s) info = Some (i, mi, model, msg) \<and> sm_signals msg = [])"
proof -
  let ?infos = "snapshot (as_handler s)"
  from assms have "render_action_edit ui ?infos (if ?infos = [] \<or> \<not> au_table ui then s else run_table ui ?infos s) = None"
    unfolding aw_render_def Let_def .
  from render_action_edit_undefined [OF this] show ?thesis by (simp split: if_splits)
qed

text \<open>\<open>Update Payload\<close> replaces the payload of the action under the edited index by the encoding of
  its message with the values shown: those of the edit window if it holds one per signal, the
  model's otherwise.\<close>

theorem update_payload_shown:
  assumes "action_message (as_send s) info = Some (i, mi, model, msg)" and "au_apply ui" and "\<not> au_values ui"
    and "length (aw_values (as_window s)) = length (sm_signals msg)"
  shows "map_option as_handler (edit_constant ui info s)
     = Some (update_payload (aw_idx (as_window s)) (encode_message (with_edited (aw_values (as_window s)) msg)) (as_handler s))"
  using edit_constant_edited [OF assms(1,2)] assms(3,4) by auto

text \<open>The edit window remembers an index. When an action before it is removed, it goes on with the
  action that followed.\<close>

theorem removal_shifts_edited:
  assumes "i < k" "Suc k < length as"
  shows "List.find (\<lambda>info. ai_idx info = k) (infos_of (erase_idx i as)) = Some (action_info_of k (snd (as ! Suc k)))"
proof -
  have len: "length (erase_idx i as) = length as - 1" using assms by (simp add: length_erase_idx)
  have nth: "ai_idx (infos_of (erase_idx i as) ! j) = j" if "j < length as - 1" for j
    using that len by (simp add: nth_infos_of action_info_of_def)
  have "erase_idx i as ! k = as ! Suc k"
    using assms by (simp add: erase_idx_def nth_append)
  then have k: "infos_of (erase_idx i as) ! k = action_info_of k (snd (as ! Suc k))"
    using assms len by (simp add: nth_infos_of)
  have "k < length as - 1" "ai_idx (action_info_of k a) = k" for a using assms by (simp_all add: action_info_of_def)
  with k nth len show ?thesis unfolding find_Some_iff by (intro exI [of _ k]) auto
qed

end
