(* ===== verification/Gui.thy ===== *)
theory Gui
  imports Windows ActionsEdit
begin

text \<open>
  \<open>src/gui/Gui\<close>: the windows of the graphical interface, how a frame reaches them, how they are
  drawn, and the clock the overlay shows. The overlay itself and the loop are in theory GuiLoop.
\<close>

record gui =
  g_traces :: "trace_window list"
  g_graph :: graph_window
  g_send :: send_window
  g_actions :: actions_window
  g_model :: "(model_window \<times> model_menu) option"
  g_stop :: bool

definition mk_gui :: "(string \<Rightarrow> dbc_file) \<Rightarrow> interface_config list \<Rightarrow> int \<Rightarrow> gui result" where
  "mk_gui load cfgs now =
     bind_result (mk_send_window load cfgs) (\<lambda>send. Inr
       \<lparr>g_traces = map (\<lambda>cfg. mk_trace_window (ic_name cfg)) cfgs, g_graph = mk_graph_window now, g_send = send,
        g_actions = mk_actions_window, g_model = None, g_stop = False\<rparr>)"

definition gui_stop :: "gui \<Rightarrow> gui" where
  "gui_stop g = g\<lparr>g_stop := True\<rparr>"

definition add_model_window :: "gui \<Rightarrow> gui" where
  "add_model_window g = g\<lparr>g_model := Some (\<lparr>mw_values = []\<rparr>, \<lparr>mm_ctx = None, mm_open_ctx = False\<rparr>)\<rparr>"

text \<open>Only the traces and the graphs use the frames; the other windows inherit an empty \<open>update\<close>.\<close>

definition gui_update :: "can_frame \<Rightarrow> gui \<Rightarrow> gui" where
  "gui_update frame g = g\<lparr>g_traces := tc_update frame (g_traces g), g_graph := gw_update frame (g_graph g)\<rparr>"

definition gui_push :: "int \<Rightarrow> string \<Rightarrow> dbl \<Rightarrow> gui \<Rightarrow> gui" where
  "gui_push now name v g =
     (case g_model g of
        None \<Rightarrow> g
      | Some (m, menu) \<Rightarrow>
          (let (m', graph) = mw_push now name v (m, g_graph g) in g\<lparr>g_model := Some (m', menu), g_graph := graph\<rparr>))"

record gui_ui =
  gi_tab_bar :: bool
  gi_tab :: "nat \<Rightarrow> bool"
  gi_trace :: "nat \<Rightarrow> trace_ui"
  gi_graph :: graph_ui
  gi_send :: send_ui
  gi_actions :: actions_ui
  gi_model :: model_ui

record drawn =
  dr_rows :: "trace_row list"
  dr_plots :: "plot_cmd list"
  dr_model :: "(string \<times> dbl) list"

text \<open>One turn of the render loop over the windows, in the order they were created.\<close>

definition draw_windows :: "(dbl \<Rightarrow> string) \<Rightarrow> gui_ui \<Rightarrow> gui \<times> 'm action_handler \<Rightarrow> ((gui \<times> 'm action_handler) \<times> drawn) option" where
  "draw_windows num ui gh =
     (case gh of (g, h) \<Rightarrow>
       do { ((traces, graph1), rows) \<leftarrow> tc_render num (gi_tab_bar ui) (gi_tab ui) (gi_trace ui) (g_traces g) (g_graph g);
            let (graph2, cmds) = gw_render (gi_graph ui) graph1;
            (send, h1) \<leftarrow> sw_render (gi_send ui) (g_send g, h);
            s \<leftarrow> aw_render (gi_actions ui) \<lparr>as_window = g_actions g, as_send = send, as_handler = h1\<rparr>;
            (model, graph3, vals) \<leftarrow> (case g_model g of
                None \<Rightarrow> Some (None, graph2, [])
              | Some (m, menu) \<Rightarrow> map_option (\<lambda>((menu', graph'), vals). (Some (m, menu'), graph', vals)) (mw_render (gi_model ui) m menu graph2));
            Some ((g\<lparr>g_traces := traces, g_graph := graph3, g_send := as_send s, g_actions := as_window s, g_model := model\<rparr>,
                   as_handler s), \<lparr>dr_rows = rows, dr_plots = cmds, dr_model = vals\<rparr>) })"

section \<open>The clock of a running log\<close>

text \<open>Division and remainder of C++ truncate towards zero.\<close>

definition c_div :: "int \<Rightarrow> int \<Rightarrow> int" where
  "c_div a b = (if a < 0 then - ((- a) div b) else a div b)"

definition c_mod :: "int \<Rightarrow> int \<Rightarrow> int" where
  "c_mod a b = a - b * c_div a b"

definition two_wide :: "int \<Rightarrow> string" where
  "two_wide i = pad_left 2 (CHR ''0'') (dec_of_int i)"

definition clock_fields :: "dbl \<Rightarrow> (int \<times> int \<times> int) option" where
  "clock_fields secs = map_option (\<lambda>t. (c_div t 3600, c_div (c_mod t 3600) 60, c_mod t 60)) (f64_to_int secs)"

definition clock_text :: "dbl \<Rightarrow> string option" where
  "clock_text secs =
     map_option (\<lambda>(h, m, s). (if 0 < h then two_wide h @ '':'' else []) @ two_wide m @ '':'' @ two_wide s) (clock_fields secs)"

section \<open>Properties\<close>

lemma c_div_mod_nonneg: "0 \<le> a \<Longrightarrow> c_div a b = a div b" "0 \<le> a \<Longrightarrow> c_mod a b = a mod b"
  by (simp_all add: c_mod_def c_div_def minus_mult_div_eq_mod)

text \<open>The elapsed time is shown as hours, minutes and seconds that add up to its whole seconds, with
  minutes and seconds below 60.\<close>

theorem clock_adds_up:
  assumes "clock_fields secs = Some (h, m, s)" and "f64_to_int secs = Some t" and "0 \<le> t"
  shows "3600 * h + 60 * m + s = t \<and> 0 \<le> h \<and> 0 \<le> m \<and> m < 60 \<and> 0 \<le> s \<and> s < 60"
proof -
  from assms have e: "h = t div 3600" "m = t mod 3600 div 60" "s = t mod 60"
    by (auto simp: clock_fields_def c_div_mod_nonneg)
  have "t mod 3600 mod 60 = t mod 60" by (rule mod_mod_cancel) simp
  then have "60 * m + s = t mod 3600" using e mult_div_mod_eq [of 60 "t mod 3600"] by simp
  moreover have "t mod 3600 div 60 < 60" using pos_mod_bound [of 3600 t] by linarith
  moreover have "3600 * h + t mod 3600 = t" using e mult_div_mod_eq [of 3600 t] by simp
  ultimately have "3600 * h + 60 * m + s = t" by linarith
  with e assms(3) \<open>t mod 3600 div 60 < 60\<close> show ?thesis by (simp add: pos_imp_zdiv_nonneg_iff)
qed

lemma clock_adds_up_witness: "clock_fields (f64_of_int 3725) = Some (1, 2, 5) \<and> (3600 * 1 + 60 * 2 + 5 :: int) = 3725"
proof -
  have f: "clock_fields (f64_of_int 3725) = Some (1, 2, 5)" "f64_to_int (f64_of_int 3725) = Some 3725"
    by code_simp+
  from clock_adds_up [OF f] f show ?thesis by simp
qed

text \<open>However the frames of several interfaces interleave, the trace of each interface holds what a
  set fed with its own frames alone would hold, and the graphs have seen all of them.\<close>

theorem gui_windows_follow:
  "fold gui_update fs g =
     g\<lparr>g_traces := map (\<lambda>w. w\<lparr>tw_set := dfs_run (filter (\<lambda>f. hdr_interface (fr_header f) = dfs_interface (tw_set w)) fs) (tw_set w)\<rparr>) (g_traces g),
       g_graph := fold gw_update fs (g_graph g)\<rparr>"
proof -
  have "fold gui_update fs g = g\<lparr>g_traces := map (fold tw_update fs) (g_traces g), g_graph := fold gw_update fs (g_graph g)\<rparr>"
  proof (induction fs arbitrary: g)
    case (Cons f fs)
    then show ?case by (simp add: gui_update_def tc_update_def)
  qed simp
  then show ?thesis by (simp add: tw_updates dfs_run_def)
qed

end
