(* ===== verification/Modes.thy ===== *)
theory Modes
  imports Gui CanStream Reader Setup Model TuiSafe
begin

text \<open>
  \<open>src/modes\<close>: how the components are wired in each mode. A mode opens the sockets, and each
  received frame runs through one callback on the asio thread; the callbacks are state
  transformers over the mode's objects. The log controller of the live mode is shared with the
  gRPC service, so the state holds it once and the service sees it through \<open>live_server\<close>.
  Exceptions while a mode starts end the program; the parameters are those of the components.
\<close>

section \<open>Sockets and sending\<close>

record socket_maps =
  so_can :: "string list"
  so_grpc :: "string list"

definition no_sockets :: socket_maps where
  "no_sockets = \<lparr>so_can = [], so_grpc = []\<rparr>"

datatype sent = Via_can string wire_frame | Via_grpc raw_can_frame

text \<open>The \<open>send_fn\<close> of the modes: the gRPC sockets first, then the CAN sockets; other interfaces
  are ignored.\<close>

definition route_send :: "socket_maps \<Rightarrow> string \<Rightarrow> u64 \<Rightarrow> bytes \<Rightarrow> sent option" where
  "route_send so iface cid data =
     (if List.member (so_grpc so) iface then Some (Via_grpc (grpc_send iface cid data))
      else if List.member (so_can so) iface then Some (Via_can iface (sock_send cid data))
      else None)"

text \<open>Opening the socket of an interface; \<open>sys\<close> are the results of the system calls.\<close>

definition open_socket :: "(string \<Rightarrow> sys_results) \<Rightarrow> string \<Rightarrow> string \<Rightarrow> socket_maps \<Rightarrow> socket_maps result" where
  "open_socket sys client n so =
     (if client = [] then bind_result (mk_socket_can (sys n) n) (\<lambda>_. Inr (so\<lparr>so_can := n # so_can so\<rparr>))
      else Inr (so\<lparr>so_grpc := n # so_grpc so\<rparr>))"

fun open_sockets :: "(string \<Rightarrow> sys_results) \<Rightarrow> string \<Rightarrow> string list \<Rightarrow> socket_maps \<Rightarrow> socket_maps result" where
  "open_sockets sys client [] so = Inr so"
| "open_sockets sys client (n # ns) so = bind_result (open_socket sys client n so) (open_sockets sys client ns)"

text \<open>In a playback an interface that cannot be opened is reported and skipped.\<close>

fun open_playback_sockets :: "(string \<Rightarrow> sys_results) \<Rightarrow> string list \<Rightarrow> socket_maps \<Rightarrow> socket_maps" where
  "open_playback_sockets sys [] so = so"
| "open_playback_sockets sys (n # ns) so =
     open_playback_sockets sys ns (case mk_socket_can (sys n) n of Inl e \<Rightarrow> so | Inr _ \<Rightarrow> so\<lparr>so_can := n # so_can so\<rparr>)"

fun add_decoders :: "(string \<Rightarrow> dbc_file) \<Rightarrow> interface_config list \<Rightarrow> dbc_wrapper registry \<Rightarrow> dbc_wrapper registry result" where
  "add_decoders load [] reg = Inr reg"
| "add_decoders load (cfg # cfgs) reg =
     (if ic_dbc cfg = [] then add_decoders load cfgs reg
      else bind_result (registry_add load (ic_name cfg) (ic_dbc cfg) reg) (add_decoders load cfgs))"

text \<open>The terminal and the graphical mode add the decoder of an interface right before its socket.\<close>

fun open_interfaces :: "(string \<Rightarrow> dbc_file) \<Rightarrow> (string \<Rightarrow> sys_results) \<Rightarrow> string \<Rightarrow> interface_config list
    \<Rightarrow> dbc_wrapper registry \<Rightarrow> socket_maps \<Rightarrow> (dbc_wrapper registry \<times> socket_maps) result" where
  "open_interfaces load sys client [] reg so = Inr (reg, so)"
| "open_interfaces load sys client (cfg # cfgs) reg so =
     bind_result (if ic_dbc cfg = [] then Inr reg else registry_add load (ic_name cfg) (ic_dbc cfg) reg) (\<lambda>reg'.
     bind_result (open_socket sys client (ic_name cfg) so) (\<lambda>so'. open_interfaces load sys client cfgs reg' so'))"

definition add_protos :: "('f, 'd, 'fd, 'msg) proto_api \<Rightarrow> (string \<Rightarrow> dbc_file) \<Rightarrow> interface_config list \<Rightarrow> 'd proto_registry" where
  "add_protos P load cfgs = fold (\<lambda>cfg reg. proto_add_interface P load (ic_name cfg) (ic_dbc cfg) reg) cfgs Map.empty"

section \<open>The steps every callback shares\<close>

text \<open>\<open>try { decoders.decode(*f); } catch (const std::runtime_error&) {}\<close>.\<close>

definition decode_or_keep :: "dbc_wrapper registry \<Rightarrow> can_frame \<Rightarrow> can_frame" where
  "decode_or_keep reg f = (case registry_decode dbc_decode reg f of Inl _ \<Rightarrow> f | Inr f' \<Rightarrow> f')"

definition broadcast_if :: "int \<Rightarrow> can_frame \<Rightarrow> 'w service option \<Rightarrow> 'w service option" where
  "broadcast_if now_us f server = map_option (broadcast now_us f) server"

text \<open>Feeding the engine; \<open>log\<close> is the logger's \<open>log_scalar\<close>, which takes the \<open>n\<close>-th call's clock.\<close>

fun log_scalars :: "(nat \<Rightarrow> string \<Rightarrow> dbl \<Rightarrow> 'c \<Rightarrow> 'c option) \<Rightarrow> nat \<Rightarrow> (string \<times> dbl) list \<Rightarrow> 'c \<Rightarrow> 'c option" where
  "log_scalars log n [] c = Some c"
| "log_scalars log n ((topic, v) # xs) c = Option.bind (log n topic v c) (log_scalars log (Suc n) xs)"

definition feed_model :: "'l lua_api \<Rightarrow> (nat \<Rightarrow> string \<Rightarrow> dbl \<Rightarrow> 'c \<Rightarrow> 'c option) \<Rightarrow> can_frame \<Rightarrow> 'l model_engine option \<times> 'c
    \<Rightarrow> (('l model_engine option \<times> 'c) \<times> (string \<times> dbl) list) option" where
  "feed_model L log f ec =
     (case ec of
        (None, c) \<Rightarrow> Some ((None, c), [])
      | (Some e, c) \<Rightarrow>
          (let (e', scalars, outs) = me_on_frame L f e
           in map_option (\<lambda>c'. ((Some e', c'), outs)) (log_scalars log 0 scalars c)))"

section \<open>run_live\<close>

record ('d, 'w, 'l) live =
  lv_debug :: bool
  lv_decoders :: "dbc_wrapper registry"
  lv_protos :: "'d proto_registry"
  lv_sets :: "data_frame_set list"
  lv_log :: "'w log_controller"
  lv_server :: "'w service option"
  lv_engine :: "'l model_engine option"
  lv_sockets :: socket_maps
  lv_out :: "string list"

definition mk_service :: "'w service" where
  "mk_service = \<lparr>sv_subscribers = [], sv_send_fn = True, sv_log = None\<rparr>"

definition live_init :: "('f, 'd, 'fd, 'msg) proto_api \<Rightarrow> 'w mcap_api \<Rightarrow> 'l lua_api \<Rightarrow> (string \<Rightarrow> dbc_file) \<Rightarrow> (string \<Rightarrow> sys_results)
    \<Rightarrow> string result \<Rightarrow> int \<Rightarrow> app_config \<Rightarrow> ('d, 'w, 'l) live result" where
  "live_init P M L load sys make_path now app =
     (let cfgs = cf_interfaces (app_config_file app); protos = add_protos P load cfgs
      in bind_result (add_decoders load cfgs Map.empty) (\<lambda>decoders.
         bind_result (if app_log_mode app
                      then (case lc_start M make_path now mk_log_controller of (c, None) \<Rightarrow> Inr c | (_, Some e) \<Rightarrow> Inl e)
                      else Inr mk_log_controller) (\<lambda>log.
         bind_result (if app_model_path app = [] then Inr None
                      else bind_result (mk_model_engine L (app_model_path app) Map.empty True) (\<lambda>e. Inr (Some e))) (\<lambda>engine.
         bind_result (open_sockets sys (app_grpc_client app) (map ic_name cfgs) no_sockets) (\<lambda>so.
           Inr \<lparr>lv_debug = app_debug_mode app, lv_decoders = decoders, lv_protos = protos,
                lv_sets = map (\<lambda>cfg. mk_data_frame_set (ic_name cfg)) cfgs, lv_log = log,
                lv_server = (if app_grpc_server app then Some mk_service else None), lv_engine = engine,
                lv_sockets = so, lv_out = map (\<lambda>cfg. ''Listening on ['' @ ic_name cfg @ '']...'') cfgs\<rparr>)))))"

text \<open>The part of the callback that runs for a CAN frame: broadcast, decode, update, model.\<close>

definition live_frame :: "('f, 'd, 'fd, 'msg) proto_api \<Rightarrow> 'w mcap_api \<Rightarrow> 'l lua_api \<Rightarrow> (nat \<Rightarrow> int) \<Rightarrow> int \<Rightarrow> nat \<Rightarrow> can_frame
    \<Rightarrow> ('d, 'w, 'l) live \<Rightarrow> (('d, 'w, 'l) live \<times> can_frame) option" where
  "live_frame P M L clock now_us i f s =
     (let f' = decode_or_keep (lv_decoders s) f
      in do { st \<leftarrow> nth_opt (lv_sets s) (int i);
              ((engine, log), _) \<leftarrow> feed_model L (\<lambda>n. lc_log_scalar P M (clock n)) f' (lv_engine s, lv_log s);
              Some (s\<lparr>lv_server := broadcast_if now_us f (lv_server s), lv_sets := (lv_sets s)[i := dfs_update f' st],
                      lv_engine := engine, lv_log := log\<rparr>, f') })"

definition rule_line :: string where
  "rule_line = replicate 50 (CHR ''-'')"

definition live_debug :: "(dbl \<Rightarrow> string) \<Rightarrow> ('d, 'w, 'l) live \<Rightarrow> ('d, 'w, 'l) live" where
  "live_debug num s =
     (if lv_debug s then s\<lparr>lv_out := lv_out s @ map (show_data_frame_set num) (lv_sets s) @ [rule_line]\<rparr> else s)"

definition live_log :: "('f, 'd, 'fd, 'msg) proto_api \<Rightarrow> 'w mcap_api \<Rightarrow> (dbl \<Rightarrow> string) \<Rightarrow> can_frame \<Rightarrow> ('d, 'w, 'l) live \<Rightarrow> ('d, 'w, 'l) live option" where
  "live_log P M num f s =
     (if lc_is_logging (lv_log s)
      then map_option (\<lambda>c. s\<lparr>lv_log := c\<rparr>) (log_can_frame P M (lv_protos s) f (lv_log s))
      else (let desc = proto_describe P num (lv_protos s) f
            in Some (if lv_debug s \<and> desc \<noteq> [] then s\<lparr>lv_out := lv_out s @ [''proto:'' @ CHR 0x0A # desc]\<rparr> else s)))"

text \<open>\<open>df\<close> is None for a \<open>DataFrame\<close> that is not a \<open>CanFrame\<close>.\<close>

definition live_on_frame :: "('f, 'd, 'fd, 'msg) proto_api \<Rightarrow> 'w mcap_api \<Rightarrow> 'l lua_api \<Rightarrow> (dbl \<Rightarrow> string) \<Rightarrow> (nat \<Rightarrow> int) \<Rightarrow> int \<Rightarrow> nat
    \<Rightarrow> can_frame option \<Rightarrow> ('d, 'w, 'l) live \<Rightarrow> ('d, 'w, 'l) live option" where
  "live_on_frame P M L num clock now_us i df s =
     (case df of
        None \<Rightarrow> Some (live_debug num s)
      | Some f \<Rightarrow> do { (s1, f') \<leftarrow> live_frame P M L clock now_us i f s; live_log P M num f' (live_debug num s1) })"

definition live_server :: "('d, 'w, 'l) live \<Rightarrow> 'w service option" where
  "live_server s = map_option (set_log_controller (lv_log s)) (lv_server s)"

text \<open>A call of the service's log control, which acts on the mode's own controller.\<close>

definition live_rpc :: "('w service \<Rightarrow> 'w service \<times> log_status option) \<Rightarrow> ('d, 'w, 'l) live \<Rightarrow> ('d, 'w, 'l) live \<times> log_status option" where
  "live_rpc call s =
     (case live_server s of
        None \<Rightarrow> (s, None)
      | Some sv \<Rightarrow>
          (let (sv', reply) = call sv
           in (s\<lparr>lv_log := (case sv_log sv' of Some c \<Rightarrow> c | None \<Rightarrow> lv_log s),
                 lv_server := Some (sv'\<lparr>sv_log := None\<rparr>)\<rparr>, reply)))"

definition live_signal :: "('d, 'w, 'l) live \<Rightarrow> ('d, 'w, 'l) live" where
  "live_signal s = s\<lparr>lv_log := lc_stop (lv_log s)\<rparr>"

section \<open>run_tui\<close>

record ('d, 'w, 'l) tui_app =
  ta_tui :: tui
  ta_decoders :: "dbc_wrapper registry"
  ta_protos :: "'d proto_registry"
  ta_logger :: "'w mcap_logger option"
  ta_last_ts :: timestamp_map
  ta_server :: "'w service option"
  ta_engine :: "'l model_engine option"
  ta_sockets :: socket_maps

text \<open>The indicator a client shows: the address of the server, and whether one of its streams is
  connected; \<open>stream\<close> is the state of an interface's socket.\<close>

definition status_indicator :: "string \<Rightarrow> socket_maps \<Rightarrow> (string \<Rightarrow> grpc_socket) \<Rightarrow> (string \<times> bool) option" where
  "status_indicator client so stream =
     (if client = [] \<or> so_grpc so = [] then None else Some (client, list_ex (\<lambda>n. gs_connected (stream n)) (so_grpc so)))"

text \<open>The action presets of all interfaces; the first exception ends the program.\<close>

fun load_presets :: "'n yaml_api \<Rightarrow> (string \<Rightarrow> dbc_file) \<Rightarrow> int \<Rightarrow> interface_config list \<Rightarrow> 'm action_handler \<Rightarrow> 'm action_handler outcome" where
  "load_presets Y load now [] h = ret h"
| "load_presets Y load now (cfg # cfgs) h =
     (case load_action_presets Y load now cfg h of
        None \<Rightarrow> None
      | Some (h', Some e) \<Rightarrow> throw e
      | Some (h', None) \<Rightarrow> load_presets Y load now cfgs h')"

definition tui_init :: "'n yaml_api \<Rightarrow> ('f, 'd, 'fd, 'msg) proto_api \<Rightarrow> 'w mcap_api \<Rightarrow> 'l lua_api \<Rightarrow> (string \<Rightarrow> dbc_file) \<Rightarrow> (string \<Rightarrow> sys_results)
    \<Rightarrow> string result \<Rightarrow> int \<Rightarrow> app_config \<Rightarrow> ('d, 'w, 'l) tui_app outcome" where
  "tui_init Y P M L load sys make_path now app =
     (let cfgs = cf_interfaces (app_config_file app)
      in bind_out (load_presets Y load now cfgs (mk_action_handler now [])) (\<lambda>h.
         bind_out (Some (if app_log_mode app then bind_result make_path (\<lambda>path. bind_result (mk_mcap_logger M path) (\<lambda>l. Inr (Some l)))
                         else Inr None)) (\<lambda>logger.
         bind_out (Some (if app_model_path app = [] then Inr None
                         else bind_result (mk_model_engine L (app_model_path app) Map.empty (logger \<noteq> None)) (\<lambda>e. Inr (Some (set_output_callback e))))) (\<lambda>engine.
         bind_out (Some (open_interfaces load sys (app_grpc_client app) cfgs Map.empty no_sockets)) (\<lambda>(decoders, so).
           let t = mk_tui load cfgs h None
           in ret \<lparr>ta_tui = (if engine = None then t else enable_model_tab t), ta_decoders = decoders,
                   ta_protos = (if app_log_mode app then add_protos P load cfgs else Map.empty), ta_logger = logger,
                   ta_last_ts = Map.empty, ta_server = (if app_grpc_server app then Some mk_service else None),
                   ta_engine = engine, ta_sockets = so\<rparr>)))))"

definition log_scalar_if :: "('f, 'd, 'fd, 'msg) proto_api \<Rightarrow> 'w mcap_api \<Rightarrow> int \<Rightarrow> string \<Rightarrow> dbl \<Rightarrow> 'w mcap_logger option \<Rightarrow> 'w mcap_logger option option" where
  "log_scalar_if P M now topic v l =
     (case l of None \<Rightarrow> Some None | Some logger \<Rightarrow> map_option Some (ml_log_scalar P M now topic v logger))"

definition push_outputs :: "(string \<times> dbl) list \<Rightarrow> tui \<Rightarrow> tui" where
  "push_outputs outs t = fold (\<lambda>(n, v). push_model_output n v) outs t"

definition tui_on_frame :: "('f, 'd, 'fd, 'msg) proto_api \<Rightarrow> 'w mcap_api \<Rightarrow> 'l lua_api \<Rightarrow> (nat \<Rightarrow> int) \<Rightarrow> int
    \<Rightarrow> can_frame option \<Rightarrow> ('d, 'w, 'l) tui_app \<Rightarrow> ('d, 'w, 'l) tui_app option" where
  "tui_on_frame P M L clock now_us df s =
     (case df of
        None \<Rightarrow> Some s
      | Some f \<Rightarrow>
          (let f' = decode_or_keep (ta_decoders s) f; t = tui_update f' (ta_tui s)
           in do { ((engine, logger), outs) \<leftarrow> feed_model L (\<lambda>n. log_scalar_if P M (clock n)) f' (ta_engine s, ta_logger s);
                   (logger', ts) \<leftarrow> log_frame P (ml_log P M) (ta_protos s) f' (logger, ta_last_ts s);
                   Some (s\<lparr>ta_tui := push_outputs outs t, ta_server := broadcast_if now_us f (ta_server s),
                           ta_engine := engine, ta_logger := logger', ta_last_ts := ts\<rparr>) }))"

section \<open>Logging is defined when the compiled-in schemas have their fields\<close>

definition schemas_built :: "('f, 'd, 'fd, 'msg) proto_api \<Rightarrow> bool" where
  "schemas_built P \<longleftrightarrow>
     (\<forall>d. fallback_descriptor P = Some d \<longrightarrow> pb_find_field P d ''data'' \<noteq> None)
     \<and> (\<forall>d. scalar_descriptor P = Some d \<longrightarrow> pb_find_field P d ''value'' \<noteq> None)
     \<and> (\<forall>d. raw_descriptor P = Some d \<longrightarrow> pb_find_field P d ''can_id'' \<noteq> None \<and> pb_find_field P d ''payload'' \<noteq> None)"

lemma log_scalar_at_some: "schemas_built P \<Longrightarrow> log_scalar_at P M t v ts l \<noteq> None"
  by (auto simp: schemas_built_def log_scalar_at_def serialize_scalar_def split: option.splits)

lemma serialize_some: "schemas_built P \<Longrightarrow> serialize_fallback P f \<noteq> None" "schemas_built P \<Longrightarrow> serialize_raw P f \<noteq> None"
  by (auto simp: schemas_built_def serialize_fallback_def serialize_raw_def Let_def split: option.splits)

lemma log_raw_some: "schemas_built P \<Longrightarrow> log_raw P M base f l \<noteq> None"
  using serialize_some(2) [of P f] by (auto simp: log_raw_def split: option.splits)

lemma ml_log_some:
  assumes "schemas_built P"
  shows "ml_log P M f d ser ratio l \<noteq> None"
proof -
  from serialize_some(1) [OF assms] obtain data where data: "(case d of Some _ \<Rightarrow> Some ser | None \<Rightarrow> serialize_fallback P f) = Some data"
    by (cases d) auto
  have tail: "Option.bind (log_raw P M base f l1) (\<lambda>l2. case ratio of None \<Rightarrow> Some l2 | Some r \<Rightarrow> log_scalar_at P M t r ts l2) \<noteq> None"
    for base l1 t ts
  proof -
    from log_raw_some [OF assms] obtain l2 where "log_raw P M base f l1 = Some l2" by fastforce
    then show ?thesis using log_scalar_at_some [OF assms] by (cases ratio) simp_all
  qed
  show ?thesis unfolding ml_log_def Let_def data using tail by (simp split: option.split)
qed

lemma lc_log_scalar_logs: "schemas_built P \<Longrightarrow> \<exists>c'. lc_log_scalar P M now t v c = Some c' \<and> lc_is_logging c' = lc_is_logging c"
  using log_scalar_at_some [of P M t v "of_int now"]
  by (fastforce simp: lc_log_scalar_def ml_log_scalar_def lc_is_logging_def split: option.splits)

lemma log_can_frame_logs: "schemas_built P \<Longrightarrow> \<exists>c'. log_can_frame P M reg f c = Some c' \<and> lc_is_logging c' = lc_is_logging c"
  using ml_log_some [of P M f "frame_descriptor reg f" "proto_serialize P reg f" "frame_ratio (lc_last_ts c) f"]
  by (fastforce simp: log_can_frame_def lc_is_logging_def Let_def split: option.splits)

lemma log_scalars_keep:
  assumes "\<And>n t v c. I c \<Longrightarrow> \<exists>c'. log n t v c = Some c' \<and> I c'"
  shows "I c \<Longrightarrow> \<exists>c'. log_scalars log n xs c = Some c' \<and> I c'"
proof (induction xs arbitrary: n c)
  case (Cons x xs)
  obtain t v where x: "x = (t, v)" by (cases x)
  from assms [OF Cons.prems] obtain c1 where "log n t v c = Some c1" "I c1" by blast
  with Cons.IH [of c1] x show ?case by simp
qed simp

text \<open>Feeding the engine keeps what every \<open>log_scalar\<close> keeps, and stores the frame's values.\<close>

lemma feed_model_keeps:
  assumes "\<And>n t v c. I c \<Longrightarrow> \<exists>c'. log n t v c = Some c' \<and> I c'" "I c"
  shows "\<exists>e' c' outs. feed_model L log f (e, c) = Some ((e', c'), outs) \<and> I c'
    \<and> map_option me_store e' = map_option (\<lambda>e. store_update f (me_store e)) e"
proof (cases e)
  case (Some g)
  obtain g' scalars outs where g: "me_on_frame L f g = (g', scalars, outs)" by (metis prod_cases3)
  then have "me_store g' = store_update f (me_store g)"
    by (auto simp: me_on_frame_def Let_def split: prod.splits lua_result.splits)
  moreover obtain c' where "log_scalars log 0 scalars c = Some c'" "I c'" using log_scalars_keep [where I = I and log = log and c = c, OF assms] by blast
  ultimately show ?thesis using Some g by (simp add: feed_model_def)
qed (simp add: feed_model_def assms(2))

section \<open>A run of the live mode\<close>

text \<open>The frames of all sockets in the order the asio thread handles them: the position of the
  interface, the frame, the clock of the logger during the callback, the time of the broadcast.\<close>

type_synonym mode_event = "nat \<times> can_frame option \<times> (nat \<Rightarrow> int) \<times> int"

fun live_run :: "('f, 'd, 'fd, 'msg) proto_api \<Rightarrow> 'w mcap_api \<Rightarrow> 'l lua_api \<Rightarrow> (dbl \<Rightarrow> string) \<Rightarrow> mode_event list
    \<Rightarrow> ('d, 'w, 'l) live \<Rightarrow> ('d, 'w, 'l) live option" where
  "live_run P M L num [] s = Some s"
| "live_run P M L num ((i, df, clock, now_us) # evs) s =
     Option.bind (live_on_frame P M L num clock now_us i df s) (live_run P M L num evs)"

definition frames_at :: "nat \<Rightarrow> mode_event list \<Rightarrow> can_frame list" where
  "frames_at i evs = concat (map (\<lambda>(j, df, _, _). case df of Some f \<Rightarrow> if j = i then [f] else [] | None \<Rightarrow> []) evs)"

definition all_frames :: "mode_event list \<Rightarrow> can_frame list" where
  "all_frames evs = concat (map (\<lambda>(j, df, _, _). case df of Some f \<Rightarrow> [f] | None \<Rightarrow> []) evs)"

definition broadcasts :: "mode_event list \<Rightarrow> 'w service option \<Rightarrow> 'w service option" where
  "broadcasts evs sv = fold (\<lambda>(_, df, _, now_us) sv. case df of Some f \<Rightarrow> broadcast_if now_us f sv | None \<Rightarrow> sv) evs sv"

lemma events_simps [simp]:
  "frames_at i [] = []" "frames_at i ((j, None, c, n) # evs) = frames_at i evs"
  "frames_at i ((j, Some f, c, n) # evs) = (if j = i then f # frames_at i evs else frames_at i evs)"
  "all_frames [] = []" "all_frames ((j, None, c, n) # evs) = all_frames evs" "all_frames ((j, Some f, c, n) # evs) = f # all_frames evs"
  "broadcasts [] sv = sv" "broadcasts ((j, None, c, n) # evs) sv = broadcasts evs sv"
  "broadcasts ((j, Some f, c, n) # evs) sv = broadcasts evs (broadcast_if n f sv)"
  by (simp_all add: frames_at_def all_frames_def broadcasts_def)

lemma live_debug_keeps [simp]:
  "lv_decoders (live_debug num s) = lv_decoders s" "lv_sets (live_debug num s) = lv_sets s" "lv_log (live_debug num s) = lv_log s"
  "lv_server (live_debug num s) = lv_server s" "lv_engine (live_debug num s) = lv_engine s" "lv_protos (live_debug num s) = lv_protos s"
  by (simp_all add: live_debug_def)

lemma live_log_keeps:
  assumes "schemas_built P"
  shows "\<exists>s'. live_log P M num f s = Some s' \<and> lv_decoders s' = lv_decoders s \<and> lv_sets s' = lv_sets s
    \<and> lv_server s' = lv_server s \<and> lv_engine s' = lv_engine s \<and> lc_is_logging (lv_log s') = lc_is_logging (lv_log s)"
  using log_can_frame_logs [OF assms, of M "lv_protos s" f "lv_log s"] by (auto simp: live_log_def Let_def)

lemma live_on_frame_step:
  assumes "schemas_built P" "i < length (lv_sets s)"
    and f': "f' = decode_or_keep (lv_decoders s) f"
  shows "\<exists>s'. live_on_frame P M L num clock now i (Some f) s = Some s' \<and> lv_decoders s' = lv_decoders s
    \<and> lv_sets s' = (lv_sets s)[i := dfs_update f' (lv_sets s ! i)] \<and> lv_server s' = broadcast_if now f (lv_server s)
    \<and> map_option me_store (lv_engine s') = map_option (\<lambda>e. store_update f' (me_store e)) (lv_engine s)
    \<and> lc_is_logging (lv_log s') = lc_is_logging (lv_log s)"
proof -
  let ?I = "\<lambda>c. lc_is_logging c = lc_is_logging (lv_log s)"
  have "\<exists>e' c' outs. feed_model L (\<lambda>n. lc_log_scalar P M (clock n)) f' (lv_engine s, lv_log s) = Some ((e', c'), outs) \<and> ?I c'
      \<and> map_option me_store e' = map_option (\<lambda>e. store_update f' (me_store e)) (lv_engine s)"
  proof (rule feed_model_keeps)
    show "\<exists>c'. lc_log_scalar P M (clock n) t v c = Some c' \<and> ?I c'" if "?I c" for n t v c
      using lc_log_scalar_logs [OF assms(1), of M "clock n" t v c] that by simp
  qed simp
  then obtain e' c' outs where e: "feed_model L (\<lambda>n. lc_log_scalar P M (clock n)) f' (lv_engine s, lv_log s) = Some ((e', c'), outs)"
    "?I c'" "map_option me_store e' = map_option (\<lambda>e. store_update f' (me_store e)) (lv_engine s)" by blast
  let ?s1 = "s\<lparr>lv_server := broadcast_if now f (lv_server s), lv_sets := (lv_sets s)[i := dfs_update f' (lv_sets s ! i)],
    lv_engine := e', lv_log := c'\<rparr>"
  from assms(2) have n: "nth_opt (lv_sets s) (int i) = Some (lv_sets s ! i)" by (simp add: nth_opt_Some_iff)
  then have "live_frame P M L clock now i f s = Some (?s1, f')"
    unfolding live_frame_def Let_def f' [symmetric] by (simp add: e(1))
  with e live_log_keeps [OF assms(1), of M num f' "live_debug num ?s1"] show ?thesis by (auto simp: live_on_frame_def)
qed

text \<open>C31: However the frames of the interfaces interleave, every set of the live mode holds what its own
  decoded frames leave in it, the model has seen the values of all decoded frames, the subscribers
  have been sent all received frames, and logging is neither started nor stopped.\<close>

theorem live_follows:
  assumes "schemas_built P" and "\<forall>(i, _)\<in>set evs. i < length (lv_sets s)"
  shows "\<exists>s'. live_run P M L num evs s = Some s'
    \<and> lv_sets s' = map (\<lambda>(i, st). dfs_run (map (decode_or_keep (lv_decoders s)) (frames_at i evs)) st) (enumerate 0 (lv_sets s))
    \<and> map_option me_store (lv_engine s') =
        map_option (\<lambda>e. fold store_update (map (decode_or_keep (lv_decoders s)) (all_frames evs)) (me_store e)) (lv_engine s)
    \<and> lv_server s' = broadcasts evs (lv_server s) \<and> lc_is_logging (lv_log s') = lc_is_logging (lv_log s)"
  using assms(2)
proof (induction evs arbitrary: s)
  case Nil
  have "map (\<lambda>(i, st). dfs_run [] st) (enumerate 0 (lv_sets s)) = lv_sets s" by (simp add: dfs_run_def split_def)
  then show ?case by (simp add: option.map_comp comp_def)
next
  case (Cons ev evs)
  obtain i df clock now where ev: "ev = (i, df, clock, now)" by (metis prod_cases4)
  show ?case
  proof (cases df)
    case None
    from Cons.IH [of "live_debug num s"] Cons.prems None ev show ?thesis by (simp add: live_on_frame_def)
  next
    case (Some f)
    let ?f = "decode_or_keep (lv_decoders s) f"
    from Cons.prems ev have i: "i < length (lv_sets s)" by auto
    from live_on_frame_step [OF assms(1) i refl, of M L num clock now f] obtain s1
      where s1: "live_on_frame P M L num clock now i (Some f) s = Some s1" "lv_decoders s1 = lv_decoders s"
        "lv_sets s1 = (lv_sets s)[i := dfs_update ?f (lv_sets s ! i)]" "lv_server s1 = broadcast_if now f (lv_server s)"
        "map_option me_store (lv_engine s1) = map_option (\<lambda>e. store_update ?f (me_store e)) (lv_engine s)"
        "lc_is_logging (lv_log s1) = lc_is_logging (lv_log s)" by blast
    have "map (\<lambda>(j, st). dfs_run (map (decode_or_keep (lv_decoders s)) (frames_at j evs)) st) (enumerate 0 (lv_sets s1))
      = map (\<lambda>(j, st). dfs_run (map (decode_or_keep (lv_decoders s)) (frames_at j (ev # evs))) st) (enumerate 0 (lv_sets s))"
      unfolding s1(3) ev Some using i by (intro nth_equalityI) (auto simp: nth_enumerate_eq nth_list_update dfs_run_def)
    moreover have "map_option (\<lambda>e. fold store_update xs (me_store e)) (lv_engine s1)
      = map_option (\<lambda>e. fold store_update (?f # xs) (me_store e)) (lv_engine s)" for xs
      using s1(5) by (cases "lv_engine s"; cases "lv_engine s1") auto
    ultimately show ?thesis using Cons.IH [of s1] Cons.prems s1 ev Some by auto
  qed
qed

lemma ex_schemas_built: "schemas_built ex_api"
  by (simp add: schemas_built_def ex_descriptors ex_find_field fallback_file_def scalar_file_def raw_file_def one_message_file_def)

definition ex_lua :: "unit lua_api" where
  "ex_lua = \<lparr>lua_load = (\<lambda>_. Inl (Exn ''no file'')), lua_run = (\<lambda>l g. (l, Lua_error []))\<rparr>"

definition ex_live :: "(message_proto, ex_writer, unit) live" where
  "ex_live = \<lparr>lv_debug = False, lv_decoders = Map.empty, lv_protos = Map.empty,
     lv_sets = [mk_data_frame_set ''vcan0'', mk_data_frame_set ''vcan1''], lv_log = mk_log_controller, lv_server = Some mk_service,
     lv_engine = None, lv_sockets = no_sockets, lv_out = []\<rparr>"

definition ex_live_frame :: "string \<Rightarrow> u32 \<Rightarrow> can_frame" where
  "ex_live_frame iface i = mk_can_frame 0 \<lparr>hdr_id = i, hdr_interface = iface, hdr_dlc = 1\<rparr> [7]"

definition ex_live_events :: "mode_event list" where
  "ex_live_events = [(1, Some (ex_live_frame ''vcan1'' 291), \<lambda>_. 0, 0), (0, None, \<lambda>_. 0, 0), (1, Some (ex_live_frame ''vcan1'' 292), \<lambda>_. 0, 0)]"

theorem live_follows_witness:
  "\<exists>s'. live_run ex_api ex_mcap ex_lua (\<lambda>_. []) ex_live_events ex_live = Some s' \<and> map dfs_size (lv_sets s') = [0, 2]"
proof -
  have "\<forall>(i, _)\<in>set ex_live_events. i < length (lv_sets ex_live)" by (simp add: ex_live_events_def ex_live_def)
  from live_follows [OF ex_schemas_built this, of ex_mcap ex_lua "\<lambda>_. []"] obtain s'
    where s': "live_run ex_api ex_mcap ex_lua (\<lambda>_. []) ex_live_events ex_live = Some s'"
      "lv_sets s' = map (\<lambda>(i, st). dfs_run (map (decode_or_keep (lv_decoders ex_live)) (frames_at i ex_live_events)) st) (enumerate 0 (lv_sets ex_live))"
    by blast
  have "map dfs_size (lv_sets s') = [0, 2]"
    unfolding s'(2) by (simp add: ex_live_def ex_live_events_def decode_or_keep_def registry_decode_def ex_live_frame_def
        dfs_run_def dfs_update_def dfs_size_def mk_data_frame_set_def mk_can_frame_def dfs_merge_def)
  then show ?thesis by (intro exI [of _ s'] conjI s'(1))
qed


section \<open>Starting up\<close>

lemma open_socket_maps:
  "open_socket sys client n so = Inr so' \<Longrightarrow>
     so' = (if client = [] then so\<lparr>so_can := n # so_can so\<rparr> else so\<lparr>so_grpc := n # so_grpc so\<rparr>)"
  by (auto simp: open_socket_def bind_result_Inr_iff split: if_splits)

lemma registry_add_dom: "registry_add load n path reg = Inr reg' \<Longrightarrow> dom reg' = insert n (dom reg)"
  by (auto simp: registry_add_def bind_result_Inr_iff)

definition with_dbc :: "interface_config list \<Rightarrow> string set" where
  "with_dbc cfgs = ic_name ` {cfg \<in> set cfgs. ic_dbc cfg \<noteq> []}"

lemma with_dbc_simps [simp]:
  "with_dbc [] = {}" "with_dbc (cfg # cfgs) = (if ic_dbc cfg = [] then with_dbc cfgs else insert (ic_name cfg) (with_dbc cfgs))"
  by (auto simp: with_dbc_def)

lemma open_interfaces_maps:
  "open_interfaces load sys client cfgs reg so = Inr (reg', so') \<Longrightarrow>
     dom reg' = dom reg \<union> with_dbc cfgs
     \<and> set (so_can so') = set (so_can so) \<union> (if client = [] then set (map ic_name cfgs) else {})
     \<and> set (so_grpc so') = set (so_grpc so) \<union> (if client = [] then {} else set (map ic_name cfgs))"
proof (induction cfgs arbitrary: reg so)
  case (Cons cfg cfgs)
  from Cons.prems obtain reg1 so1 where 1: "(if ic_dbc cfg = [] then Inr reg else registry_add load (ic_name cfg) (ic_dbc cfg) reg) = Inr reg1"
    "open_socket sys client (ic_name cfg) so = Inr so1" "open_interfaces load sys client cfgs reg1 so1 = Inr (reg', so')"
    by (auto simp: bind_result_Inr_iff)
  from 1(1) registry_add_dom [of load "ic_name cfg" "ic_dbc cfg" reg reg1]
  have "dom reg1 = (if ic_dbc cfg = [] then dom reg else insert (ic_name cfg) (dom reg))" by (auto split: if_splits)
  with Cons.IH [OF 1(3)] open_socket_maps [OF 1(2)] show ?case by auto
qed simp

text \<open>The routing of a mode that opened the sockets of its configuration.\<close>

definition expected_route :: "string \<Rightarrow> string list \<Rightarrow> string \<Rightarrow> u64 \<Rightarrow> bytes \<Rightarrow> sent option" where
  "expected_route client names iface cid data =
     (if iface \<notin> set names then None
      else if client = [] then Some (Via_can iface (sock_send cid data)) else Some (Via_grpc (grpc_send iface cid data)))"

lemma opened_route:
  assumes "open_interfaces load sys client cfgs Map.empty no_sockets = Inr (reg, so)"
  shows "route_send so iface cid data = expected_route client (map ic_name cfgs) iface cid data"
  using open_interfaces_maps [OF assms]
  by (auto simp: route_send_def expected_route_def no_sockets_def)

lemma load_presets_paused:
  "load_presets Y load now cfgs h = ret h' \<Longrightarrow> all_paused h \<Longrightarrow> all_paused h' \<and> ah_sent h' = ah_sent h"
proof (induction cfgs arbitrary: h)
  case (Cons cfg cfgs)
  obtain as e where l: "load_action_presets Y load now cfg h = Some (fold add_action_paused as h, e)"
    using load_presets_spec [of Y load now cfg h] by blast
  with Cons.prems have "load_presets Y load now cfgs (fold add_action_paused as h) = ret h'"
    by (auto simp: throw_def ret_def split: option.splits)
  with Cons.IH all_paused_adds [OF Cons.prems(2), of as] show ?case by auto
qed (simp add: ret_def)

lemma bind_out_ret_iff: "bind_out r f = ret b \<longleftrightarrow> (\<exists>a. r = ret a \<and> f a = ret b)"
  by (auto simp: bind_out_def ret_def split: option.splits sum.splits)

lemma ret_iff: "Some r = ret a \<longleftrightarrow> r = Inr a" "ret a = ret b \<longleftrightarrow> a = b"
  by (auto simp: ret_def)

text \<open>C34: The terminal mode starts in a state whose keys are safe, with every preset action paused and
  nothing sent, a decoder for exactly the interfaces that have a DBC, and sends routed to the
  socket of exactly the configured interfaces.\<close>

theorem tui_starts_ready:
  fixes s :: "('d, 'w, 'l) tui_app"
  assumes "tui_init Y P M L load sys make_path now app = ret s"
  shows "tui_start (ta_tui s) \<and> all_paused (tu_handler (ta_tui s)) \<and> ah_sent (tu_handler (ta_tui s)) = []
    \<and> dom (ta_decoders s) = with_dbc (cf_interfaces (app_config_file app))
    \<and> (\<forall>iface cid data. route_send (ta_sockets s) iface cid data =
        expected_route (app_grpc_client app) (map ic_name (cf_interfaces (app_config_file app))) iface cid data)"
proof -
  let ?cfgs = "cf_interfaces (app_config_file app)"
  from assms obtain h decoders so and engine :: "'l model_engine option" where i: "load_presets Y load now ?cfgs (mk_action_handler now []) = ret h"
    "open_interfaces load sys (app_grpc_client app) ?cfgs Map.empty no_sockets = Inr (decoders, so)"
    "ta_tui s = (if engine = None then mk_tui load ?cfgs h None else enable_model_tab (mk_tui load ?cfgs h None))"
    "ta_decoders s = decoders" "ta_sockets s = so"
    unfolding tui_init_def Let_def bind_out_ret_iff ret_iff by auto
  have "all_paused (mk_action_handler now [])" by (simp add: all_paused_def mk_action_handler_def)
  from load_presets_paused [OF i(1) this] have "all_paused h" "ah_sent h = []" by (simp_all add: mk_action_handler_def)
  then have "all_paused (tu_handler (ta_tui s)) \<and> ah_sent (tu_handler (ta_tui s)) = []"
    using i(3) by (simp add: mk_tui_def enable_model_tab_def all_paused_def)
  moreover have "tui_start (ta_tui s)"
    unfolding tui_start_def i(3) by (intro exI [of _ load] exI [of _ ?cfgs] exI [of _ h] exI [of _ None] exI [of _ "engine \<noteq> None"]) simp
  ultimately show ?thesis using open_interfaces_maps [OF i(2)] opened_route [OF i(2)] i(4,5) by simp
qed

text \<open>An interface without DBC and presets.\<close>

definition ex_app :: app_config where
  "ex_app = \<lparr>app_tui_mode = True, app_gui_mode = False, app_log_mode = False, app_debug_mode = False, app_grpc_server = False,
     app_grpc_client = ''host:1'', app_grpc_port = 0, app_model_path = [], app_playback_path = [],
     app_config_file = \<lparr>cf_virtual_can = False, cf_log_file_path = None, cf_graphs_file = [],
       cf_interfaces = [\<lparr>ic_name = ''vcan0'', ic_dbc = [], ic_actions_file = [], ic_baudrate = 0\<rparr>]\<rparr>\<rparr>"

lemma ex_load_presets: "load_presets Y load now (cf_interfaces (app_config_file ex_app)) h = ret h"
  by (simp add: ex_app_def load_action_presets_def)

lemma ex_tui_init: "\<exists>s. tui_init Y P M L load sys make_path now ex_app = ret s"
  by (simp add: tui_init_def ex_load_presets) (simp add: ex_app_def ret_iff open_socket_def)

theorem tui_starts_ready_witness:
  "\<forall>Y P M L load sys make_path now. \<exists>s. tui_init Y P M L load sys make_path now ex_app = ret s
    \<and> route_send (ta_sockets s) ''vcan0'' 5 [7] = Some (Via_grpc (grpc_send ''vcan0'' 5 [7]))
    \<and> route_send (ta_sockets s) ''vcan1'' 5 [7] = None"
proof (intro allI, goal_cases)
  case (1 Y P M L load sys make_path now)
  obtain s where s: "tui_init Y P M L load sys make_path now ex_app = ret s" using ex_tui_init [of Y P M L load sys make_path now] by blast
  from tui_starts_ready [OF this] have "route_send (ta_sockets s) ''vcan0'' 5 [7] = Some (Via_grpc (grpc_send ''vcan0'' 5 [7]))"
    "route_send (ta_sockets s) ''vcan1'' 5 [7] = None" by (simp_all add: expected_route_def ex_app_def)
  with s show ?case by simp
qed


section \<open>The log of the live mode under remote control\<close>




end
