(* ===== verification/GuiMode.thy ===== *)
theory GuiMode
  imports Modes Gui
begin

text \<open>
  \<open>src/modes/run_gui.cpp\<close> and \<open>src/modes/run_playback.cpp\<close>: the graphical mode, whose log
  control is local or remote, the replay of a log with or without the terminal interface, and
  the asio context the modes run their handlers in.
\<close>

section \<open>run_gui\<close>

text \<open>The log control of the GUI: its own controller, or that of the server it is a client of.\<close>

datatype 'w log_handle = Local_log "'w log_controller" | Remote_log remote_log

record ('d, 'w, 'l, 'm) gui_app =
  ga_gui :: gui
  ga_handler :: "'m action_handler"
  ga_decoders :: "dbc_wrapper registry"
  ga_protos :: "'d proto_registry"
  ga_log :: "'w log_handle"
  ga_server :: "'w service option"
  ga_engine :: "'l model_engine option"
  ga_sockets :: socket_maps

text \<open>\<open>replies\<close> are the answers of the server to the calls of the constructor and of \<open>start\<close>.\<close>

definition open_log :: "'w mcap_api \<Rightarrow> string result \<Rightarrow> int \<Rightarrow> (nat \<Rightarrow> log_status option) \<Rightarrow> app_config \<Rightarrow> 'w log_handle result" where
  "open_log M make_path now replies app =
     (if app_grpc_client app = []
      then (if app_log_mode app
            then (case lc_start M make_path now mk_log_controller of (c, None) \<Rightarrow> Inr (Local_log c) | (_, Some e) \<Rightarrow> Inl e)
            else Inr (Local_log mk_log_controller))
      else (let r = mk_remote_log now (replies 0)
            in Inr (Remote_log (if app_log_mode app then remote_start now (replies 1) r else r))))"

fun is_local :: "'w log_handle \<Rightarrow> bool" where
  "is_local (Local_log _) = True"
| "is_local (Remote_log _) = False"

definition gui_init :: "'n yaml_api \<Rightarrow> ('f, 'd, 'fd, 'msg) proto_api \<Rightarrow> 'w mcap_api \<Rightarrow> 'l lua_api \<Rightarrow> (string \<Rightarrow> dbc_file) \<Rightarrow> (string \<Rightarrow> sys_results)
    \<Rightarrow> string result \<Rightarrow> int \<Rightarrow> (nat \<Rightarrow> log_status option) \<Rightarrow> 'm \<Rightarrow> app_config \<Rightarrow> ('d, 'w, 'l, 'm) gui_app outcome" where
  "gui_init Y P M L load sys make_path now replies store app =
     (let cfgs = cf_interfaces (app_config_file app)
      in bind_out (load_presets Y load now cfgs (mk_action_handler now store)) (\<lambda>h.
         bind_out (Some (mk_gui load cfgs now)) (\<lambda>g.
         bind_out (case load_graph_preset Y load (app_config_file app) (g_graph g) of
                     (_, Some e) \<Rightarrow> throw e | (graph, None) \<Rightarrow> ret (g\<lparr>g_graph := graph\<rparr>)) (\<lambda>g1.
         bind_out (Some (open_log M make_path now replies app)) (\<lambda>log.
         bind_out (Some (if app_model_path app = [] then Inr None
                         else bind_result (mk_model_engine L (app_model_path app) Map.empty (is_local log))
                                (\<lambda>e. Inr (Some (set_output_callback e))))) (\<lambda>engine.
         bind_out (Some (open_interfaces load sys (app_grpc_client app) cfgs Map.empty no_sockets)) (\<lambda>(decoders, so).
           ret \<lparr>ga_gui = (if engine = None then g1 else add_model_window g1), ga_handler = h, ga_decoders = decoders,
                ga_protos = add_protos P load cfgs, ga_log = log,
                ga_server = (if app_grpc_server app then Some mk_service else None), ga_engine = engine, ga_sockets = so\<rparr>)))))))"

text \<open>The engine is given the local controller as its logger; there is none for a client.\<close>

fun handle_scalar :: "('f, 'd, 'fd, 'msg) proto_api \<Rightarrow> 'w mcap_api \<Rightarrow> int \<Rightarrow> string \<Rightarrow> dbl \<Rightarrow> 'w log_handle \<Rightarrow> 'w log_handle option" where
  "handle_scalar P M now topic v (Local_log c) = map_option Local_log (lc_log_scalar P M now topic v c)"
| "handle_scalar P M now topic v (Remote_log r) = Some (Remote_log r)"

fun handle_frame :: "('f, 'd, 'fd, 'msg) proto_api \<Rightarrow> 'w mcap_api \<Rightarrow> 'd proto_registry \<Rightarrow> can_frame \<Rightarrow> 'w log_handle \<Rightarrow> 'w log_handle option" where
  "handle_frame P M reg f (Local_log c) = map_option Local_log (log_can_frame P M reg f c)"
| "handle_frame P M reg f (Remote_log r) = Some (Remote_log r)"

definition gui_on_frame :: "('f, 'd, 'fd, 'msg) proto_api \<Rightarrow> 'w mcap_api \<Rightarrow> 'l lua_api \<Rightarrow> (nat \<Rightarrow> int) \<Rightarrow> int
    \<Rightarrow> can_frame option \<Rightarrow> ('d, 'w, 'l, 'm) gui_app \<Rightarrow> ('d, 'w, 'l, 'm) gui_app option" where
  "gui_on_frame P M L clock now_us df s =
     (case df of
        None \<Rightarrow> Some s
      | Some f \<Rightarrow>
          (let f' = decode_or_keep (ga_decoders s) f; g = gui_update f' (ga_gui s)
           in do { ((engine, log), outs) \<leftarrow> feed_model L (\<lambda>n. handle_scalar P M (clock n)) f' (ga_engine s, ga_log s);
                   log' \<leftarrow> handle_frame P M (ga_protos s) f' log;
                   Some (s\<lparr>ga_gui := fold (\<lambda>(n, v). gui_push (clock 0) n v) outs g, ga_server := broadcast_if now_us f (ga_server s),
                           ga_engine := engine, ga_log := log'\<rparr>) }))"

text \<open>The end of the program: \<open>reply\<close> answers the \<open>StopLog\<close> of a client.\<close>

fun close_log :: "log_status option \<Rightarrow> 'w log_handle \<Rightarrow> 'w log_handle" where
  "close_log reply (Local_log c) = Local_log (lc_stop c)"
| "close_log reply (Remote_log r) = Remote_log (remote_stop reply r)"

definition gui_signal :: "bool \<Rightarrow> ('d, 'w, 'l, 'm) gui_app \<Rightarrow> ('d, 'w, 'l, 'm) gui_app" where
  "gui_signal failed s = (if failed then s else s\<lparr>ga_gui := gui_stop (ga_gui s)\<rparr>)"

definition gui_exit :: "log_status option \<Rightarrow> ('d, 'w, 'l, 'm) gui_app \<Rightarrow> ('d, 'w, 'l, 'm) gui_app" where
  "gui_exit reply s = s\<lparr>ga_log := close_log reply (ga_log s)\<rparr>"

section \<open>run_playback\<close>

definition playback_control :: "'r reader_api \<Rightarrow> string \<Rightarrow> interface_config list \<Rightarrow> playback" where
  "playback_control R path cfgs =
     fold (\<lambda>(iface, names). set_messages iface names) (scan_messages R path) (mk_playback (map ic_name cfgs))"

record playback_app =
  pa_tui :: "tui option"
  pa_sockets :: socket_maps
  pa_sent :: "(string \<times> wire_frame) list"

definition playback_init :: "'r reader_api \<Rightarrow> (string \<Rightarrow> dbc_file) \<Rightarrow> (string \<Rightarrow> sys_results) \<Rightarrow> int \<Rightarrow> app_config \<Rightarrow> playback_app" where
  "playback_init R load sys now app =
     (let cfgs = cf_interfaces (app_config_file app)
      in \<lparr>pa_tui = (if app_tui_mode app
                    then Some (mk_tui load cfgs (mk_action_handler now []) (Some (playback_control R (app_playback_path app) cfgs)))
                    else None),
          pa_sockets = open_playback_sockets sys (map ic_name cfgs) no_sockets, pa_sent = []\<rparr>)"

text \<open>What the callbacks of the reader do with its events.\<close>

fun on_play_event :: "play_event \<Rightarrow> playback_app \<Rightarrow> playback_app" where
  "on_play_event (Deliver_frame f) s = s\<lparr>pa_tui := map_option (tui_update f) (pa_tui s)\<rparr>"
| "on_play_event (Deliver_send iface cid payload) s =
     (if List.member (so_can (pa_sockets s)) iface
      then s\<lparr>pa_sent := pa_sent s @ [(iface, sock_send (ucast cid) payload)]\<rparr> else s)"
| "on_play_event _ s = s"

definition run_replay :: "('f, 'd, 'fd, 'msg) proto_api \<Rightarrow> ('p, 'fs, 'd) pool_api \<Rightarrow> 'r reader_api \<Rightarrow> (string \<Rightarrow> u64)
    \<Rightarrow> string \<Rightarrow> (nat \<Rightarrow> reader_obs) \<Rightarrow> playback_app \<Rightarrow> playback_app" where
  "run_replay P Q R hash path obs s =
     (let ctl = (pa_tui s \<noteq> None)
      in case play P Q R hash path ctl True ctl obs of Inl e \<Rightarrow> s | Inr evs \<Rightarrow> fold on_play_event evs s)"

section \<open>The asio context\<close>

text \<open>
  \<open>io.run()\<close> on the asio thread: it serves the action handler until the context is stopped or has
  no work left. \<open>work\<close> is work other than the handler's: a work guard, a read of a socket or the
  wait of a signal set. The flag says that \<open>run\<close> has returned.
\<close>

inductive io_step :: "(dbl \<Rightarrow> dbl) \<Rightarrow> bool \<Rightarrow> 'm action_handler \<times> bool \<Rightarrow> 'm action_handler \<times> bool \<Rightarrow> bool"
  for sine :: "dbl \<Rightarrow> dbl" and work :: bool where
  serve: "aio_step sine (\<lambda>_. \<not> returned) h h' \<Longrightarrow> io_step sine work (h, returned) (h', returned)"
| no_work: "\<not> work \<Longrightarrow> ah_queue h = [] \<Longrightarrow> ah_waits h = [] \<Longrightarrow> io_step sine work (h, False) (h, True)"
| stop_io: "io_step sine work (h, returned) (h, True)"

inductive_simps io_step_simps: "io_step sine work (h, r) (h', r')"

section \<open>A run of the graphical mode\<close>

fun gui_run :: "('f, 'd, 'fd, 'msg) proto_api \<Rightarrow> 'w mcap_api \<Rightarrow> 'l lua_api \<Rightarrow> mode_event list
    \<Rightarrow> ('d, 'w, 'l, 'm) gui_app \<Rightarrow> ('d, 'w, 'l, 'm) gui_app option" where
  "gui_run P M L [] s = Some s"
| "gui_run P M L ((i, df, clock, now_us) # evs) s =
     Option.bind (gui_on_frame P M L clock now_us df s) (gui_run P M L evs)"

lemma handle_scalar_keeps: "schemas_built P \<Longrightarrow> \<exists>c'. handle_scalar P M now t v c = Some c' \<and> is_local c' = is_local c"
  using lc_log_scalar_logs [of P M now t v] by (cases c) force+

lemma handle_frame_keeps: "schemas_built P \<Longrightarrow> \<exists>c'. handle_frame P M reg f c = Some c' \<and> is_local c' = is_local c"
  using log_can_frame_logs [of P M reg f] by (cases c) force+

lemma gui_pushes_traces: "g_traces (fold (\<lambda>(n, v). gui_push now n v) outs g) = g_traces g"
proof (induction outs arbitrary: g)
  case (Cons x xs)
  have "g_traces (gui_push now n v g) = g_traces g" for n v by (simp add: gui_push_def split: option.split prod.split)
  with Cons show ?case by (simp add: split_def)
qed simp

lemma gui_on_frame_step:
  assumes "schemas_built P" and f': "f' = decode_or_keep (ga_decoders s) f"
  shows "\<exists>s'. gui_on_frame P M L clock now (Some f) s = Some s' \<and> ga_decoders s' = ga_decoders s
    \<and> g_traces (ga_gui s') = tc_update f' (g_traces (ga_gui s)) \<and> ga_server s' = broadcast_if now f (ga_server s)
    \<and> map_option me_store (ga_engine s') = map_option (\<lambda>e. store_update f' (me_store e)) (ga_engine s)"
proof -
  have "\<exists>e' c' outs. feed_model L (\<lambda>n. handle_scalar P M (clock n)) f' (ga_engine s, ga_log s) = Some ((e', c'), outs) \<and> True
      \<and> map_option me_store e' = map_option (\<lambda>e. store_update f' (me_store e)) (ga_engine s)"
    by (rule feed_model_keeps) (use handle_scalar_keeps [OF assms(1)] in blast, simp)
  then obtain e' c' outs where e: "feed_model L (\<lambda>n. handle_scalar P M (clock n)) f' (ga_engine s, ga_log s) = Some ((e', c'), outs)"
    "map_option me_store e' = map_option (\<lambda>e. store_update f' (me_store e)) (ga_engine s)" by blast
  obtain c'' where "handle_frame P M (ga_protos s) f' c' = Some c''" using handle_frame_keeps [OF assms(1)] by blast
  with e show ?thesis
    by (simp add: gui_on_frame_def Let_def f' [symmetric] gui_pushes_traces) (simp add: gui_update_def)
qed

lemma gui_updates_traces: "fold tc_update fs ws =
    map (\<lambda>w. w\<lparr>tw_set := dfs_run (filter (\<lambda>f. hdr_interface (fr_header f) = dfs_interface (tw_set w)) fs) (tw_set w)\<rparr>) ws"
proof -
  have "fold tc_update fs ws = map (fold tw_update fs) ws" by (induction fs arbitrary: ws) (simp_all add: tc_update_def)
  then show ?thesis by (simp add: tw_updates dfs_run_def)
qed

text \<open>In the graphical mode the trace of every interface holds what the decoded frames that carry its
  name leave in it, whichever socket they came from; the model has seen the values of all decoded
  frames, and the subscribers have been sent all received frames.\<close>

theorem gui_mode_follows:
  assumes "schemas_built P"
  shows "\<exists>s'. gui_run P M L evs s = Some s'
    \<and> g_traces (ga_gui s') = (let fs = map (decode_or_keep (ga_decoders s)) (all_frames evs) in
        map (\<lambda>w. w\<lparr>tw_set := dfs_run (filter (\<lambda>f. hdr_interface (fr_header f) = dfs_interface (tw_set w)) fs) (tw_set w)\<rparr>)
          (g_traces (ga_gui s)))
    \<and> map_option me_store (ga_engine s') =
        map_option (\<lambda>e. fold store_update (map (decode_or_keep (ga_decoders s)) (all_frames evs)) (me_store e)) (ga_engine s)
    \<and> ga_server s' = broadcasts evs (ga_server s)"
  unfolding Let_def gui_updates_traces [symmetric]
proof (induction evs arbitrary: s)
  case (Cons ev evs)
  obtain i df clock now where ev: "ev = (i, df, clock, now)" by (metis prod_cases4)
  show ?case
  proof (cases df)
    case None
    with Cons.IH [of s] ev show ?thesis by (simp add: gui_on_frame_def)
  next
    case (Some f)
    let ?f = "decode_or_keep (ga_decoders s) f"
    from gui_on_frame_step [where s = s and f = f and M = M and L = L and clock = clock and now = now, OF assms refl] obtain s1
      where s1: "gui_on_frame P M L clock now (Some f) s = Some s1" "ga_decoders s1 = ga_decoders s"
        "g_traces (ga_gui s1) = tc_update ?f (g_traces (ga_gui s))" "ga_server s1 = broadcast_if now f (ga_server s)"
        "map_option me_store (ga_engine s1) = map_option (\<lambda>e. store_update ?f (me_store e)) (ga_engine s)" by blast
    have "map_option (\<lambda>e. fold store_update xs (me_store e)) (ga_engine s1)
      = map_option (\<lambda>e. fold store_update (?f # xs) (me_store e)) (ga_engine s)" for xs
      using s1(5) by (cases "ga_engine s"; cases "ga_engine s1") auto
    with Cons.IH [of s1] s1 ev Some show ?thesis by auto
  qed
qed (simp add: option.map_comp comp_def)

definition ex_gui_app :: "(message_proto, ex_writer, unit, unit) gui_app" where
  "ex_gui_app =
     \<lparr>ga_gui = \<lparr>g_traces = map mk_trace_window [''vcan0'', ''vcan1''], g_graph = mk_graph_window 0, g_send = ex_send_window,
                g_actions = mk_actions_window, g_model = None, g_stop = False\<rparr>,
      ga_handler = ex_start, ga_decoders = Map.empty, ga_protos = Map.empty, ga_log = Local_log mk_log_controller,
      ga_server = Some mk_service, ga_engine = None, ga_sockets = no_sockets\<rparr>"

theorem gui_mode_follows_witness:
  "\<exists>s'. gui_run ex_api ex_mcap ex_lua ex_live_events ex_gui_app = Some s'
    \<and> map (\<lambda>w. dfs_size (tw_set w)) (g_traces (ga_gui s')) = [0, 2]"
proof -
  from gui_mode_follows [OF ex_schemas_built, of ex_mcap ex_lua ex_live_events ex_gui_app] obtain s'
    where s': "gui_run ex_api ex_mcap ex_lua ex_live_events ex_gui_app = Some s'"
      "g_traces (ga_gui s') = (let fs = map (decode_or_keep (ga_decoders ex_gui_app)) (all_frames ex_live_events) in
        map (\<lambda>w. w\<lparr>tw_set := dfs_run (filter (\<lambda>f. hdr_interface (fr_header f) = dfs_interface (tw_set w)) fs) (tw_set w)\<rparr>)
          (g_traces (ga_gui ex_gui_app)))" by blast
  have "map (\<lambda>w. dfs_size (tw_set w)) (g_traces (ga_gui s')) = [0, 2]"
    unfolding s'(2) by (simp add: ex_gui_app_def ex_live_events_def decode_or_keep_def registry_decode_def ex_live_frame_def
        mk_trace_window_def dfs_run_def dfs_update_def dfs_size_def mk_data_frame_set_def mk_can_frame_def dfs_merge_def)
  then show ?thesis by (intro exI [of _ s'] conjI s'(1))
qed


section \<open>The asio context of a playback\<close>

lemma returned_step:
  "io_step sine work (h, True) (h', r) \<Longrightarrow> r \<and> ah_sent h' = ah_sent h \<and> ah_actions h' = ah_actions h \<and> ah_snapshot h' = ah_snapshot h"
proof -
  have call: "ah_sent h' = ah_sent h \<and> ah_actions h' = ah_actions h \<and> ah_snapshot h' = ah_snapshot h"
    if "aio_step sine (\<lambda>_. False) h h'" for h'
    using that by (cases rule: aio_step.cases)
      (simp_all add: set_notify_def add_action_def add_action_paused_def remove_action_def toggle_pause_def update_sin_param_def
        update_payload_def post_task_def expire_wait_def)
  assume "io_step sine work (h, True) (h', r)"
  then show ?thesis by (cases rule: io_step.cases) (use call in auto)
qed

lemma returned_steps:
  "(io_step sine work)\<^sup>*\<^sup>* s s' \<Longrightarrow> snd s \<Longrightarrow> snd s' \<and> ah_sent (fst s') = ah_sent (fst s) \<and> ah_actions (fst s') = ah_actions (fst s)
    \<and> ah_snapshot (fst s') = ah_snapshot (fst s)"
proof (induction rule: rtranclp_induct)
  case (step t u)
  then obtain h h' r where "t = (h, True)" "u = (h', r)" by (metis prod.collapse)
  with step returned_step [of sine work h h' r] show ?case by simp
qed simp


lemma do_event_io: "do_event sine (\<lambda>_. \<not> r) e h = Some h' \<Longrightarrow> io_step sine work (h, r) (h', r)"
  by (rule io_step.serve, rule do_event_step)

lemma do_events_io: "do_events sine (\<lambda>_. \<not> r) es h = Some h' \<Longrightarrow> (io_step sine work)\<^sup>*\<^sup>* (h, r) (h', r)"
proof (induction es arbitrary: h)
  case (Cons e es)
  then obtain h1 where "do_event sine (\<lambda>_. \<not> r) e h = Some h1" "do_events sine (\<lambda>_. \<not> r) es h1 = Some h'"
    by (auto split: option.splits)
  with Cons.IH [of h1] do_event_io [of sine r e h h1 work] show ?case by (meson converse_rtranclp_into_rtranclp)
qed simp


text \<open>With a work guard, as in the terminal mode, the same calls send.\<close>

theorem guarded_actions_run:
  "\<exists>h. (io_step (\<lambda>x. x) True)\<^sup>*\<^sup>* (ex_start, False) (h, False) \<and> map snd_data (ah_sent h) = [[2]]"
proof -
  obtain h where h: "do_events (\<lambda>x. x) (\<lambda>_. \<not> False) (ex_single_events @ [Ev_run]) ex_start = Some h" "map snd_data (ah_sent h) = [[2]]"
    by (simp add: ex_single_events_def exec_defs)
  show ?thesis by (intro exI [of _ h] conjI do_events_io [OF h(1)] h(2))
qed


end
