(* ===== verification/GuiSafe.thy ===== *)
theory GuiSafe
  imports Gui
begin

text \<open>
  The graphical interface as a system: frames and model outputs arrive, the render loop draws, and
  the asio thread works on the handler, in any order. Its state keeps the shape its windows rely on.
\<close>

section \<open>The menus keep the graphs\<close>

lemma run_menu_keeps:
  assumes "\<And>c i a g. I g \<Longrightarrow> I (add c i a g)" "\<And>g. I g \<Longrightarrow> I (fst (add_graph [] g))"
  shows "run_menu add xs (ctx, g) = Some (ctx', g') \<Longrightarrow> I g \<Longrightarrow> I g'"
proof (induction xs arbitrary: ctx g)
  case (Cons x xs)
  obtain t a where x: "x = (t, a)" by (cases x)
  from Cons.prems x obtain c where c: "ctx = Some c" by (cases ctx) (cases t; simp)+
  show ?case
  proof (cases t)
    case None
    obtain g1 i where g1: "add_graph [] g = (g1, i)" by (cases "add_graph [] g")
    with assms(2) [OF Cons.prems(2)] have "I (add c i (int a) g1)" using assms(1) by simp
    from Cons.IH [OF _ this] Cons.prems(1) x c None g1 show ?thesis by simp
  next
    case (Some i)
    from Cons.IH [OF _ assms(1) [OF Cons.prems(2)]] Cons.prems(1) x c Some show ?thesis by simp
  qed
qed simp

lemma menu_if_keeps:
  assumes "(if b then run_menu add xs (ctx, g) else Some (ctx, g)) = Some (ctx', g')" "graph_ok g"
    and "\<And>c i a g. graph_ok g \<Longrightarrow> graph_ok (add c i a g)"
  shows "graph_ok g'"
proof (cases b)
  case True
  with assms(1) have "run_menu add xs (ctx, g) = Some (ctx', g')" by simp
  from run_menu_keeps [where I = graph_ok, OF assms(3) add_graph_ok this assms(2)] show ?thesis by simp
qed (use assms in simp)

lemma render_content_keeps:
  assumes "render_content num ui (w, g) = Some ((w', g'), rows)"
  shows "tw_set w' = tw_set w" "graph_ok g \<Longrightarrow> graph_ok g'"
proof -
  define shown where "shown = (if ti_table ui then visible (ti_search ui (tw_search w)) (tw_set w) else [])"
  define w1 where "w1 = w\<lparr>tw_search := ti_search ui (tw_search w),
    tw_ctx := (if clicked_signal ui shown = None then tw_ctx w else clicked_signal ui shown), tw_open_ctx := False\<rparr>"
  from assms obtain ctx where s: "w' = w1\<lparr>tw_ctx := ctx\<rparr>" "(if ti_popup ui \<and> tw_ctx w1 \<noteq> None
      then run_menu (add_pending (dfs_interface (tw_set w))) (picked (ti_item ui) (ti_new ui) (length (graph_names g))) (tw_ctx w1, g)
      else Some (tw_ctx w1, g)) = Some (ctx, g')"
    unfolding render_content_def Let_def prod.case shown_def [symmetric] w1_def [symmetric] by (auto simp: bind_eq_Some_conv)
  moreover have "tw_set w1 = tw_set w" by (simp add: w1_def)
  ultimately show "tw_set w' = tw_set w" by simp
  show "graph_ok g'" if "graph_ok g"
    by (rule menu_if_keeps [OF s(2) that]) (simp add: add_pending_def add_signal_ok)
qed

lemma render_open_keeps:
  "render_open num tab ui i ws g = Some ((ws', g'), rows) \<Longrightarrow> map tw_set ws' = map tw_set ws \<and> (graph_ok g \<longrightarrow> graph_ok g')"
proof (induction ws arbitrary: i g ws' g' rows)
  case (Cons w ws)
  from Cons.prems obtain w1 g1 r1 ws1 r2 where s:
    "(if tab i then render_content num (ui i) (w, g) else Some ((w, g), [])) = Some ((w1, g1), r1)"
    "render_open num tab ui (Suc i) ws g1 = Some ((ws1, g'), r2)" "ws' = w1 # ws1"
    by (auto simp: bind_eq_Some_conv)
  from s(1) render_content_keeps [of num "ui i" w g w1 g1 r1] have "tw_set w1 = tw_set w" "graph_ok g \<longrightarrow> graph_ok g1"
    by (auto split: if_splits)
  with Cons.IH [OF s(2)] s(3) show ?case by simp
qed simp

lemma mw_render_keeps:
  assumes "mw_render ui m c g = Some ((c', g'), rows)" "graph_ok g"
  shows "graph_ok g'"
proof (cases "mw_values m = []")
  case False
  define rows where "rows = (if mu_table ui then mw_values m else [])"
  define clicked where "clicked = fold (\<lambda>(i, n, v) p. if mu_right_click ui i then Some n else p) (enumerate 0 rows) None"
  define ctx where "ctx = (if clicked = None then mm_ctx c else clicked)"
  from assms(1) False obtain ctx' where
    "(if mu_popup ui \<and> ctx \<noteq> None then run_menu add_model_signal (picked (mu_item ui) (mu_new ui) (length (graph_names g))) (ctx, g)
      else Some (ctx, g)) = Some (ctx', g')"
    unfolding mw_render_def Let_def rows_def [symmetric] clicked_def [symmetric] ctx_def [symmetric]
    by (simp only: if_False bind_eq_Some_conv) auto
  then show ?thesis by (rule menu_if_keeps [OF _ assms(2)]) (simp add: add_model_signal_def add_signal_ok)
qed (use assms in \<open>simp add: mw_render_def\<close>)

section \<open>The state\<close>

definition gui_ok :: "gui \<Rightarrow> bool" where
  "gui_ok g \<longleftrightarrow> graph_ok (g_graph g) \<and> list_all (\<lambda>w. dfs_ok (tw_set w)) (g_traces g)"

lemma gui_ok_start: "mk_gui load cfgs now = Inr g \<Longrightarrow> gui_ok g"
  by (auto simp: mk_gui_def bind_result_Inr_iff gui_ok_def graph_ok_def mk_graph_window_def mk_trace_window_def list_all_iff dfs_ok_empty)

lemma gui_ok_update: "gui_ok g \<Longrightarrow> gui_ok (gui_update f g)"
  by (auto simp: gui_ok_def gui_update_def tc_update_def tw_update_def list_all_iff gw_update_ok dfs_ok_update)

lemma gui_ok_push: "gui_ok g \<Longrightarrow> gui_ok (gui_push now n v g)"
  by (auto simp: gui_ok_def gui_push_def mw_push_def push_value_ok split: option.split prod.split)

lemma list_all_map_eq: "map f xs = map f ys \<Longrightarrow> list_all (\<lambda>x. P (f x)) xs = list_all (\<lambda>x. P (f x)) ys"
proof -
  assume "map f xs = map f ys"
  then have "list_all P (map f xs) = list_all P (map f ys)" by simp
  then show ?thesis by (simp add: list.pred_map comp_def)
qed

lemma gui_ok_draw:
  assumes "draw_windows num ui (g, h) = Some ((g', h'), dr)" "gui_ok g"
  shows "gui_ok g'"
proof -
  from assms(1) obtain traces graph1 rows where 1:
    "tc_render num (gi_tab_bar ui) (gi_tab ui) (gi_trace ui) (g_traces g) (g_graph g) = Some ((traces, graph1), rows)"
    unfolding draw_windows_def by (auto simp: bind_eq_Some_conv)
  obtain graph2 cmds where 2: "gw_render (gi_graph ui) graph1 = (graph2, cmds)" by (cases "gw_render (gi_graph ui) graph1")
  from assms(1) obtain model graph3 vals where d:
    "(case g_model g of None \<Rightarrow> Some (None, graph2, [])
      | Some (m, menu) \<Rightarrow> map_option (\<lambda>((menu', graph'), vals). (Some (m, menu'), graph', vals)) (mw_render (gi_model ui) m menu graph2))
       = Some (model, graph3, vals)"
    "g_traces g' = traces" "g_graph g' = graph3"
    unfolding draw_windows_def by (auto simp: 1 2 bind_eq_Some_conv)
  from 1 have r: "map tw_set traces = map tw_set (g_traces g)" "graph_ok (g_graph g) \<longrightarrow> graph_ok graph1"
    unfolding tc_render_def using render_open_keeps by blast+
  from gw_render_ok [of graph1 "gi_graph ui"] 2 have "graph_ok graph1 \<longrightarrow> graph_ok graph2" by simp
  moreover from d(1) mw_render_keeps have "graph_ok graph2 \<longrightarrow> graph_ok graph3" by (auto split: option.splits)
  ultimately show ?thesis
    using assms(2) r list_all_map_eq [of tw_set traces "g_traces g" dfs_ok] by (simp add: gui_ok_def d)
qed

inductive gui_step :: "(dbl \<Rightarrow> string) \<Rightarrow> (dbl \<Rightarrow> dbl) \<Rightarrow> gui \<times> 'm action_handler \<Rightarrow> gui \<times> 'm action_handler \<Rightarrow> bool"
  for num :: "dbl \<Rightarrow> string" and sine :: "dbl \<Rightarrow> dbl" where
  receive: "gui_step num sine (g, h) (gui_update f g, h)"
| model_value: "gui_step num sine (g, h) (gui_push now n v g, h)"
| draw: "draw_windows num ui (g, h) = Some ((g', h'), dr) \<Longrightarrow> gui_step num sine (g, h) (g', h')"
| asio: "aio_step sine (\<lambda>_. True) h h' \<Longrightarrow> gui_step num sine (g, h) (g, h')"
| stop: "gui_step num sine (g, h) (gui_stop g, h)"

lemma gui_step_ok: "gui_step num sine gh gh' \<Longrightarrow> gui_ok (fst gh) \<Longrightarrow> gui_ok (fst gh')"
proof (induction rule: gui_step.induct)
  case (stop g h)
  then show ?case by (simp add: gui_ok_def gui_stop_def)
qed (auto simp: gui_ok_update gui_ok_push dest: gui_ok_draw)

definition gui_start :: "gui \<times> 'm action_handler \<Rightarrow> bool" where
  "gui_start gh \<longleftrightarrow> (\<exists>load cfgs now g. mk_gui load cfgs now = Inr g \<and> (fst gh = g \<or> fst gh = add_model_window g))"

lemma gui_start_ok: "gui_start gh \<Longrightarrow> gui_ok (fst gh)"
proof -
  assume "gui_start gh"
  then obtain load cfgs now g where "mk_gui load cfgs now = Inr g" "fst gh = g \<or> fst gh = add_model_window g"
    unfolding gui_start_def by blast
  with gui_ok_start show ?thesis by (auto simp: gui_ok_def add_model_window_def)
qed

interpretation gui_sys: safe_system gui_start "gui_step num sine" "\<lambda>gh. gui_ok (fst gh)"
  by unfold_locales (auto intro: gui_start_ok gui_step_ok)

section \<open>Properties\<close>


definition ex_gui :: gui where
  "ex_gui = \<lparr>g_traces = [mk_trace_window ''vcan0''], g_graph = mk_graph_window 0, g_send = ex_send_window,
     g_actions = mk_actions_window, g_model = None, g_stop = False\<rparr>"

lemma ex_gui_start: "gui_start (ex_gui, ex_handler)"
proof -
  have "mk_gui (\<lambda>_. Dbc_network [ex_message, ex_short_message])
      [\<lparr>ic_name = ''vcan0'', ic_dbc = ''a.dbc'', ic_actions_file = [], ic_baudrate = 0\<rparr>] 0 = Inr ex_gui"
    by (simp add: mk_gui_def mk_ex_send_window ex_gui_def)
  then show ?thesis unfolding gui_start_def by (metis fst_conv)
qed



end
