(* ===== verification/EndToEnd.thy ===== *)
theory EndToEnd
  imports GuiMode GuiSafe
begin

text \<open>
  Properties that run through several components: a logged frame that is replayed, and a value
  entered in the Send tab that is received again.
\<close>

section \<open>Log, replay, send, receive\<close>

text \<open>Messages made by protobuf's reflection for a type, and what the code relies on of them: the last
  value set is read back, repeated values are kept in order, other fields are not touched, the
  fields of different names are different, and parsing a serialised message gives its values.\<close>

inductive built :: "('f, 'd, 'fd, 'msg) proto_api \<Rightarrow> 'd \<Rightarrow> 'msg \<Rightarrow> bool" for P :: "('f, 'd, 'fd, 'msg) proto_api" and d :: 'd where
  new: "built P d (pb_new P d)"
| set_field: "built P d m \<Longrightarrow> built P d (pb_set_uint32 P m fd v)"
| add_value: "built P d m \<Longrightarrow> built P d (pb_add_uint32 P m fd v)"

definition wire_laws :: "('f, 'd, 'fd, 'msg) proto_api \<Rightarrow> 'd \<Rightarrow> bool" where
  "wire_laws P d \<longleftrightarrow>
     (\<forall>m fd v. pb_get_uint32 P (pb_set_uint32 P m fd v) fd = v)
     \<and> (\<forall>m fd fd' v. fd \<noteq> fd' \<longrightarrow> pb_get_uint32 P (pb_add_uint32 P m fd v) fd' = pb_get_uint32 P m fd'
          \<and> pb_uint32s P (pb_set_uint32 P m fd v) fd' = pb_uint32s P m fd')
     \<and> (\<forall>m fd v. pb_uint32s P (pb_add_uint32 P m fd v) fd = pb_uint32s P m fd @ [v])
     \<and> (\<forall>fd. pb_uint32s P (pb_new P d) fd = [])
     \<and> (\<forall>n k fd. pb_find_field P d n = Some fd \<and> pb_find_field P d k = Some fd \<longrightarrow> n = k)
     \<and> (\<forall>m. built P d m \<longrightarrow> (\<exists>m'. pb_parse P d (pb_serialize P m) = Some m'
          \<and> pb_get_uint32 P m' = pb_get_uint32 P m \<and> pb_uint32s P m' = pb_uint32s P m))"

lemma wire_lawsD:
  assumes "wire_laws P d"
  shows "pb_get_uint32 P (pb_set_uint32 P m fd v) fd = v"
    and "fd \<noteq> fd' \<Longrightarrow> pb_get_uint32 P (pb_add_uint32 P m fd v) fd' = pb_get_uint32 P m fd'"
    and "fd \<noteq> fd' \<Longrightarrow> pb_uint32s P (pb_set_uint32 P m fd v) fd' = pb_uint32s P m fd'"
    and "pb_uint32s P (pb_add_uint32 P m fd v) fd = pb_uint32s P m fd @ [v]"
    and "pb_uint32s P (pb_new P d) fd = []"
    and "pb_find_field P d n = Some fd \<Longrightarrow> pb_find_field P d k = Some fd \<Longrightarrow> n = k"
    and "built P d m' \<Longrightarrow> \<exists>m''. pb_parse P d (pb_serialize P m') = Some m''
          \<and> pb_get_uint32 P m'' = pb_get_uint32 P m' \<and> pb_uint32s P m'' = pb_uint32s P m'"
  using assms unfolding wire_laws_def by blast+

lemma add_bytes_built: "built P d m \<Longrightarrow> built P d (add_bytes P fd bs m)"
  unfolding add_bytes_def by (induction bs arbitrary: m) (auto intro: built.add_value)

lemma add_bytes_values:
  assumes "wire_laws P d"
  shows "pb_uint32s P (add_bytes P fd bs m) fd = pb_uint32s P m fd @ map ucast bs"
    and "fd \<noteq> fd' \<Longrightarrow> pb_get_uint32 P (add_bytes P fd bs m) fd' = pb_get_uint32 P m fd'"
  unfolding add_bytes_def by (induction bs arbitrary: m) (simp_all add: wire_lawsD [OF assms])

lemma ucast_byte_back: "map ucast (map ucast (bs :: bytes) :: u32 list) = bs"
proof -
  have "(ucast (ucast b :: u32) :: u8) = b" for b :: u8 by (rule ucast_up_ucast_id) (simp add: is_up)
  then show ?thesis by (simp add: comp_def)
qed

text \<open>What the raw channel of a logged frame replays.\<close>

lemma raw_replayed:
  assumes "wire_laws P d" "raw_descriptor P = Some d" "serialize_raw P f = Some data"
    and "pb_find_field P d ''payload'' \<noteq> None"
  shows "\<exists>m. pb_parse P d data = Some m
    \<and> replay_send P info d m = [Deliver_send (ci_iface info) (hdr_id (fr_header f)) (fr_payload f)]"
proof -
  from assms(4) obtain plf where plf: "pb_find_field P d ''payload'' = Some plf" by blast
  let ?msg = "\<lambda>idf. add_bytes P plf (fr_payload f) (pb_set_uint32 P (pb_new P d) idf (hdr_id (fr_header f)))"
  from assms(2,3) plf obtain idf where idf: "pb_find_field P d ''can_id'' = Some idf" "data = pb_serialize P (?msg idf)"
    by (auto simp: serialize_raw_def Let_def bind_eq_Some_conv split: option.splits)
  note L = wire_lawsD [OF assms(1)]
  have ne: "plf \<noteq> idf" using L(6) [OF plf, of "''can_id''"] idf(1) by auto
  have "built P d (?msg idf)" by (intro add_bytes_built built.intros)
  from L(7) [OF this] obtain m where m: "pb_parse P d data = Some m" "pb_get_uint32 P m = pb_get_uint32 P (?msg idf)"
    "pb_uint32s P m = pb_uint32s P (?msg idf)" using idf(2) by blast
  have "pb_get_uint32 P m idf = hdr_id (fr_header f)"
    unfolding m(2) using add_bytes_values(2) [OF assms(1) ne] L(1) by simp
  moreover have "map ucast (pb_uint32s P m plf) = fr_payload f"
    unfolding m(3) using add_bytes_values(1) [OF assms(1), of plf] L(3) [OF ne [symmetric]] L(5) ucast_byte_back by simp
  ultimately show ?thesis using m(1) idf(1) plf by (simp add: replay_send_def)
qed

lemma raw_topic_classified:
  assumes "CHR ''/'' \<notin> set (hdr_interface (fr_header f))"
  shows "\<exists>name. classify_topic (base_topic P f d @ ''/raw'') = \<lparr>ci_kind = Kind_raw, ci_iface = hdr_interface (fr_header f), ci_msg_name = name\<rparr>"
proof -
  obtain name where "base_topic P f d = hdr_interface (fr_header f) @ ''/'' @ name" by (cases d) (simp_all add: base_topic_def)
  with classify_raw [OF assms, of name] show ?thesis by (intro exI [of _ name]) simp
qed


text \<open>A protobuf with these laws: a message is the list of its values, each written as its field's number and
  four bytes.\<close>

fun ex_write :: "(u8 \<times> u32) list \<Rightarrow> bytes" where
  "ex_write [] = []"
| "ex_write ((fd, v) # m) = fd # ucast v # ucast (drop_bit 8 v) # ucast (drop_bit 16 v) # ucast (drop_bit 24 v) # ex_write m"

fun ex_read :: "bytes \<Rightarrow> (u8 \<times> u32) list option" where
  "ex_read [] = Some []"
| "ex_read (fd # a # b # c # e # bs) =
     map_option (Cons (fd, ucast a OR push_bit 8 (ucast b) OR push_bit 16 (ucast c) OR push_bit 24 (ucast e))) (ex_read bs)"
| "ex_read _ = None"

lemma word_of_bytes: "ucast (ucast v :: u8) OR push_bit 8 (ucast (ucast (drop_bit 8 v) :: u8))
    OR push_bit 16 (ucast (ucast (drop_bit 16 v) :: u8)) OR push_bit 24 (ucast (ucast (drop_bit 24 v) :: u8)) = (v :: u32)"
proof (rule bit_word_eqI)
  fix n assume "n < LENGTH(32)"
  then consider "n < 8" | "8 \<le> n" "n < 16" | "16 \<le> n" "n < 24" | "24 \<le> n" "n < 32" by fastforce
  then show "bit (ucast (ucast v :: u8) OR push_bit 8 (ucast (ucast (drop_bit 8 v) :: u8))
    OR push_bit 16 (ucast (ucast (drop_bit 16 v) :: u8)) OR push_bit 24 (ucast (ucast (drop_bit 24 v) :: u8)) :: u32) n = bit v n"
    by cases (auto simp: bit_simps)
qed

lemma ex_read_write: "ex_read (ex_write m) = Some m"
  by (induction m rule: ex_write.induct) (simp_all add: word_of_bytes)

definition ex_wire :: "(file_proto, message_proto, u8, (u8 \<times> u32) list) proto_api" where
  "ex_wire =
     \<lparr>pb_build = Some, pb_find_message = (\<lambda>fp n. List.find (\<lambda>m. mp_name m = n) (fp_messages fp)),
      pb_find_field = (\<lambda>d n. if n = ''can_id'' then Some 1 else if n = ''payload'' then Some 2 else None),
      pb_fields = (\<lambda>d. [1, 2]), pb_field_name = (\<lambda>fd. if fd = 1 then ''can_id'' else ''payload''), pb_field_type = (\<lambda>_. TYPE_UINT32),
      pb_name = mp_name, pb_full_name = mp_name, pb_file_set = (\<lambda>d. []), pb_new = (\<lambda>d. []),
      pb_set_double = (\<lambda>m fd v. m), pb_get_double = (\<lambda>m fd. 0), pb_has_field = (\<lambda>m fd. fd \<in> fst ` set m),
      pb_set_uint32 = (\<lambda>m fd v. m @ [(fd, v)]), pb_get_uint32 = (\<lambda>m fd. fold (\<lambda>(k, v) r. if k = fd then v else r) m 0),
      pb_add_uint32 = (\<lambda>m fd v. m @ [(fd, v)]), pb_uint32s = (\<lambda>m fd. map snd (filter (\<lambda>p. fst p = fd) m)),
      pb_serialize = ex_write, pb_parse = (\<lambda>d. ex_read)\<rparr>"

lemma ex_wire_laws: "wire_laws ex_wire d"
  by (simp add: wire_laws_def ex_wire_def ex_read_write)

definition ex_logged :: can_frame where
  "ex_logged = mk_can_frame 0 \<lparr>hdr_id = 291, hdr_interface = ''vcan0'', hdr_dlc = 2\<rparr> [7, 8]"

lemma ex_serialized: "raw_descriptor ex_wire = Some (hd (fp_messages raw_file))"
  "\<exists>data. serialize_raw ex_wire ex_logged = Some data" "pb_find_field ex_wire d ''payload'' \<noteq> None"
  by (simp_all add: raw_descriptor_def serialize_raw_def ex_wire_def raw_file_def one_message_file_def)

definition ex_playback :: playback_app where
  "ex_playback = \<lparr>pa_tui = None, pa_sockets = no_sockets\<lparr>so_can := [''vcan0'']\<rparr>, pa_sent = []\<rparr>"

definition ex_raw_channel :: channel where
  "ex_raw_channel = \<lparr>ch_topic = ''vcan0/0x123/raw'', ch_message_encoding = ''protobuf'', ch_schema_id = 1\<rparr>"



section \<open>Send tab, action, wire, decoder\<close>

lemma with_edited_values:
  "with_edited (map (\<lambda>ss. val (ss_sig ss)) (sm_signals sm)) sm = with_values val sm"
proof -
  have "map (\<lambda>(ss, v). ss\<lparr>ss_value := v\<rparr>) (zip sigs (map (\<lambda>ss. val (ss_sig ss)) sigs)) = map (\<lambda>ss. ss\<lparr>ss_value := val (ss_sig ss)\<rparr>) sigs"
    for sigs :: "send_signal list"
    by (induction sigs) simp_all
  then show ?thesis by (simp add: with_edited_def with_values_def)
qed

lemma read_frame_undecoded: "read_frame iface now r = Some (b, Some f) \<Longrightarrow> fr_decoded f = []"
  by (auto simp: read_frame_def wire_to_frame_def Let_def set_timestamp_def mk_can_frame_def split: recv_result.splits option.splits if_splits)

lemma single_sent:
  "\<exists>s. do_events sine (\<lambda>_. True) [Ev_run, Ev_expire 0, Ev_run]
      (add_action (mk_action iface cid name data Single_action) (mk_action_handler now m)) = Some s
    \<and> ah_sent s = [\<lparr>snd_interface = iface, snd_id = cid, snd_data = data, snd_time = now\<rparr>] \<and> ah_actions s = []"
  by (simp add: exec_defs)

lemma id_on_wire: "i AND 0x1FFFFFFF = (i :: u64) \<Longrightarrow> ucast (ucast (i AND 0x1FFFFFFF) :: u32) = i"
proof -
  assume i: "i AND 0x1FFFFFFF = i"
  have "(0x1FFFFFFF :: u64) = mask 29" by (simp add: mask_eq_exp_minus_1)
  with i have "bit i n \<Longrightarrow> n < 29" for n by (metis bit_and_iff bit_mask_iff)
  then have "bit i n \<Longrightarrow> n < 32" for n by fastforce
  then have "ucast (ucast i :: u32) = i" by (intro bit_word_eqI) (auto simp: bit_simps)
  with i show ?thesis by simp
qed



definition ex_entered :: send_window where
  "ex_entered = ex_send_window\<lparr>sw_open := True, sw_iface := 0, sw_msg := 0,
     sw_values := map (\<lambda>ss. ex_values (ss_sig ss)) (sm_signals (mk_send_message ex_message))\<rparr>"



end
