(* ===== verification/GuiLoop.thy ===== *)
theory GuiLoop
  imports GuiMode GuiSafe
begin

text \<open>
  \<open>Gui::run\<close> of \<open>src/gui/Gui.cpp\<close>: opening the window, the saved font scale, the overlay with the
  log button and the connection status, and the render loop beside the asio thread. GLFW, OpenGL
  and ImGui are what the loop calls; whether they open a window, what the user clicks and which lines
  of the settings file are handed over are arguments.
\<close>

section \<open>The log control\<close>

text \<open>\<open>ILogControl\<close> as the overlay calls it: only \<open>start\<close> can throw.\<close>

record 'l log_ops =
  lo_start :: "'l \<Rightarrow> 'l \<times> exn option"
  lo_stop :: "'l \<Rightarrow> 'l"
  lo_is_logging :: "'l \<Rightarrow> bool"
  lo_current_path :: "'l \<Rightarrow> string"
  lo_elapsed_seconds :: "'l \<Rightarrow> dbl"

text \<open>The two implementations: \<open>now\<close> is the time of the call and \<open>reply\<close> the server's answer to it.\<close>

fun handle_start :: "'w mcap_api \<Rightarrow> string result \<Rightarrow> int \<Rightarrow> log_status option \<Rightarrow> 'w log_handle \<Rightarrow> 'w log_handle \<times> exn option" where
  "handle_start M make_path now reply (Local_log c) = (let (c', e) = lc_start M make_path now c in (Local_log c', e))"
| "handle_start M make_path now reply (Remote_log r) = (Remote_log (remote_start now reply r), None)"

fun handle_is_logging :: "'w log_handle \<Rightarrow> bool" where
  "handle_is_logging (Local_log c) = lc_is_logging c"
| "handle_is_logging (Remote_log r) = rl_logging r"

fun handle_path :: "'w log_handle \<Rightarrow> string" where
  "handle_path (Local_log c) = lc_current_path c"
| "handle_path (Remote_log r) = rl_path r"

fun handle_elapsed :: "int \<Rightarrow> 'w log_handle \<Rightarrow> dbl" where
  "handle_elapsed now (Local_log c) = lc_elapsed_seconds now c"
| "handle_elapsed now (Remote_log r) = remote_elapsed_seconds now r"

definition handle_ops :: "'w mcap_api \<Rightarrow> string result \<Rightarrow> int \<Rightarrow> log_status option \<Rightarrow> 'w log_handle log_ops" where
  "handle_ops M make_path now reply =
     \<lparr>lo_start = handle_start M make_path now reply, lo_stop = close_log reply, lo_is_logging = handle_is_logging,
      lo_current_path = handle_path, lo_elapsed_seconds = handle_elapsed now\<rparr>"

section \<open>The overlay\<close>

record log_row =
  lr_button :: string
  lr_rec :: string
  lr_bar :: bool

record status_row =
  sr_mark :: string
  sr_label :: string
  sr_hint :: string

text \<open>\<open>ov_log\<close> and \<open>ov_status\<close> are the two parts of its first line, \<open>ov_file\<close> is the second.\<close>

record overlay =
  ov_log :: "log_row option"
  ov_status :: "status_row option"
  ov_file :: "(string \<times> string) option"

text \<open>The button acts at once, while the texts keep the state read before.\<close>

definition press_log :: "'l log_ops \<Rightarrow> bool \<Rightarrow> 'l \<Rightarrow> 'l \<times> exn option" where
  "press_log ops pressed l =
     (if pressed then (if lo_is_logging ops l then (lo_stop ops l, None) else lo_start ops l) else (l, None))"

definition draw_log_row :: "bool \<Rightarrow> bool \<Rightarrow> log_row" where
  "draw_log_row logging bar =
     \<lparr>lr_button = (if logging then ''Stop Log'' else ''Start Log''), lr_rec = (if logging then ''[REC]'' else ''[---]''), lr_bar = bar\<rparr>"

definition status_overlay :: "string \<Rightarrow> bool \<Rightarrow> status_row" where
  "status_overlay label connected =
     \<lparr>sr_mark = (if connected then ''[OK]'' else ''[!!]''), sr_label = label,
      sr_hint = (if connected then [] else ''(reconnecting...)'')\<rparr>"

definition log_file_row :: "'l log_ops \<Rightarrow> 'l \<Rightarrow> (string \<times> string) option" where
  "log_file_row ops l = map_option (\<lambda>clock. (clock, lo_current_path ops l)) (clock_text (lo_elapsed_seconds ops l))"

text \<open>What the overlay shows, or the exception of \<open>start\<close>. None stands for the undefined conversion of
  an elapsed time beyond the range of an int. Without a status and a log control nothing is shown.\<close>

definition draw_overlay :: "'l log_ops \<Rightarrow> bool \<Rightarrow> (string \<times> bool) option \<Rightarrow> 'l option \<Rightarrow> ('l option \<times> overlay option result) option" where
  "draw_overlay ops pressed conn log =
     (let row = map_option (\<lambda>(label, connected). status_overlay label connected) conn
      in case log of
           None \<Rightarrow> Some (None, Inr (if conn = None then None else Some \<lparr>ov_log = None, ov_status = row, ov_file = None\<rparr>))
         | Some l \<Rightarrow>
             (case press_log ops pressed l of
                (l', Some e) \<Rightarrow> Some (Some l', Inl e)
              | (l', None) \<Rightarrow>
                  (let logging = lo_is_logging ops l; top = draw_log_row logging (conn \<noteq> None)
                   in if logging
                      then map_option (\<lambda>file. (Some l', Inr (Some \<lparr>ov_log = Some top, ov_status = row, ov_file = Some file\<rparr>))) (log_file_row ops l')
                      else Some (Some l', Inr (Some \<lparr>ov_log = Some top, ov_status = row, ov_file = None\<rparr>)))))"

section \<open>The saved font scale\<close>

text \<open>\<open>%f\<close> of \<open>sscanf\<close>: a decimal or hexadecimal number, an infinity or a NaN; an exponent without digits
  does not match.\<close>

definition scan_exponent :: "char \<Rightarrow> string \<Rightarrow> int option" where
  "scan_exponent c s =
     (case s of
        [] \<Rightarrow> Some 0
      | d # t \<Rightarrow>
          if tolower d = c
          then (let (neg, u) = read_sign t; (v, k, _) = read_digits 10 0 u
                in if k = 0 then None else Some (if neg then - int v else int v))
          else Some 0)"

text \<open>Digits, a fraction and an exponent: the digits' value, how many of them are in the fraction, and the exponent.\<close>

definition scan_number :: "nat \<Rightarrow> char \<Rightarrow> string \<Rightarrow> (nat \<times> nat \<times> int) option" where
  "scan_number b c s =
     (let (v, k, r) = read_digits b 0 s;
          (v', k', r') = (case r of d # r1 \<Rightarrow> if d = CHR ''.'' then read_digits b v r1 else (v, 0, r) | [] \<Rightarrow> (v, 0, r))
      in if k + k' = 0 then None else map_option (\<lambda>x. (v', k', x)) (scan_exponent c r'))"

definition flt_of_decimal :: "bool \<Rightarrow> nat \<Rightarrow> int \<Rightarrow> flt" where
  "flt_of_decimal neg m x =
     f32_pack (if 0 \<le> x then Fin neg (m * 10 ^ nat x) 0 else fp_div (Fin neg m 0) (Fin False (10 ^ nat (- x)) 0))"

definition scan_special :: "bool \<Rightarrow> string \<Rightarrow> flt option" where
  "scan_special neg l =
     (if starts_with l ''infinity'' \<or> starts_with l ''inf'' \<and> \<not> starts_with l ''infi'' then Some (f32_pack (Inf neg))
      else if starts_with l ''nan''
      then (if starts_with l ''nan('' \<and> \<not> starts_with (dropWhile (\<lambda>c. is_alnum c \<or> c = CHR ''_'') (drop 4 l)) '')'' then None
            else Some (f32_pack NaN))
      else None)"

definition scan_float :: "string \<Rightarrow> flt option" where
  "scan_float s =
     (let (neg, t) = read_sign (dropWhile is_space s); l = map tolower t
      in if starts_with l ''i'' \<or> starts_with l ''n'' then scan_special neg l
         else if starts_with l ''0x''
         then map_option (\<lambda>(v, k, x). f32_pack (Fin neg v (x - 4 * int k))) (scan_number 16 (CHR ''p'') (drop 2 t))
         else map_option (\<lambda>(v, k, x). flt_of_decimal neg v (x - int k)) (scan_number 10 (CHR ''e'') t))"

text \<open>The handler of a line of the \<open>[caneo]\<close> section of \<open>imgui.ini\<close>, and all of them.\<close>

definition scale_key :: string where "scale_key = ''FontGlobalScale=''"

definition read_setting :: "string \<Rightarrow> flt \<Rightarrow> flt" where
  "read_setting line scale =
     (if starts_with line scale_key
      then (case scan_float (drop (length scale_key) line) of Some v \<Rightarrow> v | None \<Rightarrow> scale)
      else scale)"

definition load_scale :: "string list \<Rightarrow> flt" where
  "load_scale ls = fold read_setting ls (f32_pack (Fin False 1 0))"

text \<open>\<open>%.2f\<close> prints the exact value rounded to hundredths, ties to even.\<close>

definition hundredths :: "nat \<Rightarrow> int \<Rightarrow> nat" where
  "hundredths m e = (if 0 \<le> e then 100 * m * 2 ^ nat e else round_shift (100 * m) (nat (- e)))"

definition two_decimals :: "nat \<Rightarrow> string" where
  "two_decimals n = dec_of_nat (n div 100) @ CHR 0x2E # two_digits (n mod 100)"

definition fmt_2f :: "flt \<Rightarrow> string" where
  "fmt_2f v =
     (if 2 ^ 31 \<le> unat v then ''-'' else [])
     @ (case f32_unpack v of NaN \<Rightarrow> ''nan'' | Inf _ \<Rightarrow> ''inf'' | Fin _ m e \<Rightarrow> two_decimals (hundredths m e))"

definition settings_text :: "flt \<Rightarrow> string" where
  "settings_text v = println (scale_key @ fmt_2f v) (println ''[caneo][settings]'' []) @ [CHR 0x0A]"

section \<open>The scale comes back\<close>

lemma starts_with_set: "starts_with s p \<Longrightarrow> set p \<subseteq> set s"
  by (induction s p rule: starts_with.induct) auto

lemma digits_of_two: "n < 100 \<Longrightarrow> two_digits n = map digit_char [n div 10, n mod 10]"
  by (simp add: two_digits_eq)

lemma scan_decimals:
  "scan_number 10 c (two_decimals n) = Some (n, 2, 0)"
proof -
  have 1: "read_digits 10 0 (two_decimals n) = (n div 100, length (digits_of 10 (n div 100)), CHR 0x2E # two_digits (n mod 100))"
    using read_digits_map [of 10 "digits_of 10 (n div 100)" "CHR 0x2E # two_digits (n mod 100)" 0]
      digits_of_bounded [of 10 "n div 100"] digits_of_value [of 10 "n div 100"]
    by (simp add: two_decimals_def dec_of_nat_def digit_val_def is_digit_def is_upper_def is_lower_def)
  have split: "10 * b + d = r \<Longrightarrow> 100 * a + r = n \<Longrightarrow> (a * 10 + b) * 10 + d = n" for a b d r :: nat by simp
  have "((n div 100) * 10 + n mod 100 div 10) * 10 + n mod 100 mod 10 = n"
    using split [OF mult_div_mod_eq mult_div_mod_eq] .
  then have 2: "read_digits 10 (n div 100) (two_digits (n mod 100)) = (n, 2, [])"
    using read_digits_map [of 10 "[n mod 100 div 10, n mod 100 mod 10]" "[]" "n div 100"] digits_of_two [of "n mod 100"]
    by simp
  show ?thesis by (simp add: scan_number_def 1 2 scan_exponent_def)
qed

lemma digit_chars: "\<forall>d\<in>set ds. d < 10 \<Longrightarrow> list_all is_digit (map digit_char ds)"
  by (induction ds) (auto simp: digit_char_def is_digit_def)

lemma two_decimals_chars: "\<forall>c\<in>set (two_decimals n). is_digit c \<or> c = CHR 0x2E"
  using digit_chars [OF digits_of_bounded [of 10 "n div 100"]] digit_chars [of "[n mod 100 div 10, n mod 100 mod 10]"]
  by (auto simp: two_decimals_def dec_of_nat_def digits_of_two list_all_iff)

lemma digit_not: "is_digit c \<or> c = CHR 0x2E \<Longrightarrow>
    c \<noteq> CHR 0x0A \<and> c \<noteq> CHR ''-'' \<and> c \<noteq> CHR ''+'' \<and> \<not> is_space c \<and> tolower c = c \<and> c \<noteq> CHR ''i'' \<and> c \<noteq> CHR ''n'' \<and> c \<noteq> CHR ''x''"
  by (auto simp: is_digit_def is_space_def tolower_def is_upper_def)

lemma two_decimals_plain:
  obtains c s where "two_decimals n = c # s" "is_digit c \<or> c = CHR 0x2E" "map tolower (two_decimals n) = two_decimals n"
    "\<not> starts_with (two_decimals n) ''i''" "\<not> starts_with (two_decimals n) ''n''" "\<not> starts_with (two_decimals n) ''0x''"
proof -
  have t: "map tolower (two_decimals n) = two_decimals n"
    using two_decimals_chars [of n] digit_not by (auto intro!: map_idI)
  have x: "\<not> starts_with (two_decimals n) p" if "CHR ''i'' \<in> set p \<or> CHR ''n'' \<in> set p \<or> CHR ''x'' \<in> set p" for p
    using that starts_with_set [of "two_decimals n" p] two_decimals_chars [of n] digit_not by blast
  obtain c s where "two_decimals n = c # s" by (cases "two_decimals n") (auto simp: two_decimals_def)
  with t x [of "''i''"] x [of "''n''"] x [of "''0x''"] two_decimals_chars [of n] show thesis by (intro that) auto
qed

lemma scan_two_decimals:
  "scan_float ((if neg then ''-'' else []) @ two_decimals n) = Some (flt_of_decimal neg n (-2))"
proof -
  obtain c s where c: "two_decimals n = c # s" "is_digit c \<or> c = CHR 0x2E" "map tolower (two_decimals n) = two_decimals n"
    "\<not> starts_with (two_decimals n) ''i''" "\<not> starts_with (two_decimals n) ''n''" "\<not> starts_with (two_decimals n) ''0x''"
    by (rule two_decimals_plain)
  have sign: "read_sign (dropWhile is_space ((if neg then ''-'' else []) @ two_decimals n)) = (neg, two_decimals n)"
  proof -
    have "\<not> is_space (CHR ''-'')" by (simp add: is_space_def)
    then show ?thesis using c(1) digit_not [OF c(2)] by (cases neg) (simp_all add: read_sign_def)
  qed
  show ?thesis unfolding scan_float_def sign Let_def prod.case c(3) by (simp add: c(4-6) scan_decimals)
qed

text \<open>The scale that one run saves, the next run loads, rounded to hundredths.\<close>

theorem settings_roundtrip:
  assumes "f32_unpack v = Fin s m e"
  shows "load_scale (tl (lines (settings_text v))) = flt_of_decimal (2 ^ 31 \<le> unat v) (hundredths m e) (-2)"
proof -
  let ?t = "fmt_2f v"
  have t: "?t = (if 2 ^ 31 \<le> unat v then ''-'' else []) @ two_decimals (hundredths m e)" by (simp add: fmt_2f_def assms)
  have n: "CHR 0x0A \<notin> set (scale_key @ ?t)"
    using two_decimals_chars digit_not by (auto simp: t scale_key_def)
  have "settings_text v = ''[caneo][settings]'' @ CHR 0x0A # (scale_key @ ?t) @ CHR 0x0A # [CHR 0x0A]"
    by (simp add: settings_text_def println_def)
  then have "lines (settings_text v) = [''[caneo][settings]'', scale_key @ ?t, []]"
    by (simp only: lines_line [OF n]) (subst lines_line, simp, simp add: lines_line [OF n, simplified])
  moreover have "starts_with (s @ u) s" for s u :: string by (induction s) auto
  moreover have "starts_with [] scale_key = False" by (simp add: scale_key_def)
  ultimately show ?thesis by (simp add: load_scale_def read_setting_def) (simp add: t scan_two_decimals)
qed

section \<open>The render loop\<close>

text \<open>
  \<open>At_test\<close> is the condition of the loop and \<open>In_frame\<close> its body; \<open>Returned\<close> and \<open>Thrown\<close> are the ends of
  \<open>run\<close>. \<open>gl_close\<close> is GLFW's flag for the window, \<open>gl_frames\<close> counts the buffers swapped and \<open>gl_saved\<close>
  is what the settings handler wrote at the end.
\<close>

datatype loop_phase = At_test | In_frame | Returned | Thrown exn

record ('l, 'm) gui_loop =
  gl_gui :: gui
  gl_handler :: "'m action_handler"
  gl_log :: "'l option"
  gl_phase :: loop_phase
  gl_close :: bool
  gl_scale :: flt
  gl_frames :: nat
  gl_saved :: "string option"

text \<open>The window opens with the size of the primary monitor's mode, where there is one. None when GLFW
  does not start or opens no window: \<open>run\<close> then returns at once.\<close>

definition window_size :: "(int \<times> int) option \<Rightarrow> int \<times> int" where
  "window_size mode = (case mode of Some wh \<Rightarrow> wh | None \<Rightarrow> (1280, 720))"

definition open_loop :: "bool \<Rightarrow> (int \<times> int) option \<Rightarrow> (int \<times> int \<Rightarrow> bool) \<Rightarrow> string list \<Rightarrow> gui \<times> 'm action_handler \<Rightarrow> 'l option
    \<Rightarrow> ('l, 'm) gui_loop option" where
  "open_loop init mode creates ls gh log =
     (if \<not> init \<or> \<not> creates (window_size mode) then None
      else Some \<lparr>gl_gui = fst gh, gl_handler = snd gh, gl_log = log, gl_phase = At_test, gl_close = False,
                 gl_scale = load_scale ls, gl_frames = 0, gl_saved = None\<rparr>)"

definition stop_asked :: "('l, 'm) gui_loop \<Rightarrow> bool" where
  "stop_asked s \<longleftrightarrow> gl_close s \<or> g_stop (gl_gui s)"

text \<open>The steps of the render thread. \<open>closed\<close> is whether polling found the window closed; \<open>ops\<close> takes
  what the log control reads from outside (the clock, the file system, the server).\<close>

inductive render_step :: "(dbl \<Rightarrow> string) \<Rightarrow> ('e \<Rightarrow> 'l log_ops) \<Rightarrow> ('l, 'm) gui_loop \<Rightarrow> ('l, 'm) gui_loop \<Rightarrow> bool"
  for num :: "dbl \<Rightarrow> string" and ops :: "'e \<Rightarrow> 'l log_ops" where
  leaves: "gl_phase s = At_test \<Longrightarrow> stop_asked s \<Longrightarrow>
    render_step num ops s (s\<lparr>gl_phase := Returned, gl_saved := Some (settings_text (gl_scale s))\<rparr>)"
| enters: "gl_phase s = At_test \<Longrightarrow> \<not> stop_asked s \<Longrightarrow> render_step num ops s (s\<lparr>gl_phase := In_frame, gl_close := closed\<rparr>)"
| frame: "gl_phase s = In_frame \<Longrightarrow> draw_windows num ui (gl_gui s, gl_handler s) = Some ((g, h), dr) \<Longrightarrow>
    draw_overlay (ops e) pressed conn (gl_log s) = Some (log, Inr ov) \<Longrightarrow>
    render_step num ops s (s\<lparr>gl_gui := g, gl_handler := h, gl_log := log, gl_phase := At_test, gl_frames := Suc (gl_frames s)\<rparr>)"
| throws: "gl_phase s = In_frame \<Longrightarrow> draw_windows num ui (gl_gui s, gl_handler s) = Some ((g, h), dr) \<Longrightarrow>
    draw_overlay (ops e) pressed conn (gl_log s) = Some (log, Inl ex) \<Longrightarrow>
    render_step num ops s (s\<lparr>gl_gui := g, gl_handler := h, gl_log := log, gl_phase := Thrown ex\<rparr>)"

text \<open>All steps: what the asio thread does meanwhile. \<open>logs\<close> is what it does to the log control.\<close>

inductive loop_step :: "(dbl \<Rightarrow> string) \<Rightarrow> (dbl \<Rightarrow> dbl) \<Rightarrow> ('e \<Rightarrow> 'l log_ops) \<Rightarrow> ('l \<Rightarrow> 'l \<Rightarrow> bool) \<Rightarrow> ('l, 'm) gui_loop \<Rightarrow> ('l, 'm) gui_loop \<Rightarrow> bool"
  for num :: "dbl \<Rightarrow> string" and sine :: "dbl \<Rightarrow> dbl" and ops :: "'e \<Rightarrow> 'l log_ops" and logs :: "'l \<Rightarrow> 'l \<Rightarrow> bool" where
  renders: "render_step num ops s s' \<Longrightarrow> loop_step num sine ops logs s s'"
| receives: "loop_step num sine ops logs s (s\<lparr>gl_gui := gui_update f (gl_gui s)\<rparr>)"
| computes: "loop_step num sine ops logs s (s\<lparr>gl_gui := gui_push now n v (gl_gui s)\<rparr>)"
| serves: "aio_step sine (\<lambda>_. True) (gl_handler s) h \<Longrightarrow> loop_step num sine ops logs s (s\<lparr>gl_handler := h\<rparr>)"
| signalled: "loop_step num sine ops logs s (s\<lparr>gl_gui := gui_stop (gl_gui s)\<rparr>)"
| logged: "gl_log s = Some l \<Longrightarrow> logs l l' \<Longrightarrow> loop_step num sine ops logs s (s\<lparr>gl_log := Some l'\<rparr>)"

inductive_simps render_step_simps: "render_step num ops s s'"
inductive_cases render_step_cases: "render_step num ops s s'"

section \<open>The end of the loop\<close>

lemma draw_keeps_stop: "draw_windows num ui (g, h) = Some ((g', h'), dr) \<Longrightarrow> g_stop g' = g_stop g"
  by (auto simp: draw_windows_def bind_eq_Some_conv Let_def split_def)

lemma push_keeps_stop: "g_stop (gui_push now n v g) = g_stop g"
  by (simp add: gui_push_def split: option.split prod.split)

lemma render_keeps_asked: "render_step num ops s s' \<Longrightarrow> stop_asked s \<Longrightarrow> stop_asked s'"
  by (induction rule: render_step.induct) (auto simp: stop_asked_def dest: draw_keeps_stop)

lemma loop_keeps_asked: "loop_step num sine ops logs s s' \<Longrightarrow> stop_asked s \<Longrightarrow> stop_asked s'"
proof (induction rule: loop_step.induct)
  case (renders s s')
  then show ?case using render_keeps_asked by blast
qed (auto simp: stop_asked_def gui_update_def gui_stop_def push_keeps_stop)

text \<open>The frames still to be drawn when the stop has been asked for, and the steps of the render thread.\<close>

fun phase_frames :: "loop_phase \<Rightarrow> nat" where
  "phase_frames In_frame = 1" | "phase_frames _ = 0"

fun phase_steps :: "loop_phase \<Rightarrow> nat" where
  "phase_steps In_frame = 2" | "phase_steps At_test = 1" | "phase_steps _ = 0"

lemma asked_decreases: "render_step num ops s s' \<Longrightarrow> stop_asked s \<Longrightarrow>
    phase_steps (gl_phase s') < phase_steps (gl_phase s)
    \<and> gl_frames s' + phase_frames (gl_phase s') \<le> gl_frames s + phase_frames (gl_phase s)"
  by (induction rule: render_step.induct) auto

lemma asked_frames: "loop_step num sine ops logs s s' \<Longrightarrow> stop_asked s \<Longrightarrow>
    gl_frames s' + phase_frames (gl_phase s') \<le> gl_frames s + phase_frames (gl_phase s)
    \<and> phase_steps (gl_phase s') \<le> phase_steps (gl_phase s)"
proof (induction rule: loop_step.induct)
  case (renders s s')
  then show ?case using asked_decreases by (meson less_imp_le)
qed auto

lemma asked_frames_steps:
  "(loop_step num sine ops logs)\<^sup>*\<^sup>* s s' \<Longrightarrow> stop_asked s \<Longrightarrow>
    stop_asked s' \<and> gl_frames s' + phase_frames (gl_phase s') \<le> gl_frames s + phase_frames (gl_phase s)
    \<and> phase_steps (gl_phase s') \<le> phase_steps (gl_phase s)"
proof (induction rule: rtranclp_induct)
  case (step t u)
  then show ?case using asked_frames [of num sine ops logs t u] loop_keeps_asked [of num sine ops logs t u] by auto
qed simp

text \<open>\<open>run\<close> returns only when a stop was asked for, and it has then written the settings.\<close>

definition loop_ok :: "('l, 'm) gui_loop \<Rightarrow> bool" where
  "loop_ok s \<longleftrightarrow> gui_ok (gl_gui s) \<and> (gl_phase s = Returned \<longrightarrow> stop_asked s \<and> gl_saved s = Some (settings_text (gl_scale s)))"

lemma render_step_ok: "render_step num ops s s' \<Longrightarrow> loop_ok s \<Longrightarrow> loop_ok s'"
proof (induction rule: render_step.induct)
  case (leaves s)
  then show ?case by (simp add: loop_ok_def stop_asked_def)
qed (auto simp: loop_ok_def dest: gui_ok_draw)

lemma loop_step_ok: "loop_step num sine ops logs s s' \<Longrightarrow> loop_ok s \<Longrightarrow> loop_ok s'"
proof (induction rule: loop_step.induct)
  case (renders s s')
  then show ?case using render_step_ok by blast
qed (auto simp: loop_ok_def stop_asked_def gui_ok_update gui_ok_push, auto simp: gui_ok_def gui_update_def gui_stop_def push_keeps_stop)

definition loop_start :: "('l, 'm) gui_loop \<Rightarrow> bool" where
  "loop_start s \<longleftrightarrow> (\<exists>init mode creates ls gh log. gui_start gh \<and> open_loop init mode creates ls gh log = Some s)"

interpretation loop_sys: safe_system loop_start "loop_step num sine ops logs" loop_ok
proof
  show "loop_start s \<Longrightarrow> loop_ok s" for s :: "('l, 'm) gui_loop"
    by (auto simp: loop_start_def open_loop_def loop_ok_def dest!: gui_start_ok split: if_splits)
qed (rule loop_step_ok)

section \<open>Properties\<close>

text \<open>C28: Once the window was closed or \<open>stop\<close> was called, at whatever moment, the graphical interface draws
  at most the frame it is in and leaves the loop: every step of the render thread brings it nearer to
  the end, at the test of the loop it returns, and when it has returned the settings are saved.\<close>

theorem gui_run_ends:
  fixes num :: "dbl \<Rightarrow> string" and sine :: "dbl \<Rightarrow> dbl" and ops :: "'e \<Rightarrow> 'l log_ops" and s :: "('l, 'm) gui_loop"
  assumes "loop_start s0" and "(loop_step num sine ops logs)\<^sup>*\<^sup>* s0 s" and "stop_asked s"
  shows "(\<forall>s'. (loop_step num sine ops logs)\<^sup>*\<^sup>* s s' \<longrightarrow> gl_frames s' \<le> Suc (gl_frames s)
        \<and> (gl_phase s' = Returned \<longrightarrow> gl_saved s' = Some (settings_text (gl_scale s'))))
    \<and> (\<forall>s'. render_step num ops s s' \<longrightarrow> phase_steps (gl_phase s') < phase_steps (gl_phase s))
    \<and> (gl_phase s = At_test \<longrightarrow> (\<exists>s'. render_step num ops s s' \<and> gl_phase s' = Returned))
    \<and> (gl_phase s = In_frame \<and> draw_windows num ui (gl_gui s, gl_handler s) \<noteq> None
        \<and> draw_overlay (ops e) pressed conn (gl_log s) \<noteq> None \<longrightarrow> (\<exists>s'. render_step num ops s s'))"
proof (intro conjI allI impI)
  fix s' :: "('l, 'm) gui_loop"
  assume r: "(loop_step num sine ops logs)\<^sup>*\<^sup>* s s'"
  have "phase_frames (gl_phase s) \<le> 1" by (cases "gl_phase s") auto
  with asked_frames_steps [OF r assms(3)] show "gl_frames s' \<le> Suc (gl_frames s)" by linarith
  have ok: "loop_ok s'" using loop_sys.inv_reachable assms(1) rtranclp_trans [OF assms(2) r] by blast
  assume "gl_phase s' = Returned"
  with ok show "gl_saved s' = Some (settings_text (gl_scale s'))" by (simp add: loop_ok_def)
next
  fix s' :: "('l, 'm) gui_loop"
  assume "render_step num ops s s'"
  with asked_decreases assms(3) show "phase_steps (gl_phase s') < phase_steps (gl_phase s)" by blast
next
  assume "gl_phase s = At_test"
  from render_step.leaves [OF this assms(3), of num ops] show "\<exists>s'. render_step num ops s s' \<and> gl_phase s' = Returned"
    by - (rule exI, rule conjI, assumption, simp)
next
  assume a: "gl_phase s = In_frame \<and> draw_windows num ui (gl_gui s, gl_handler s) \<noteq> None
    \<and> draw_overlay (ops e) pressed conn (gl_log s) \<noteq> None"
  then obtain g h dr log ov where d: "draw_windows num ui (gl_gui s, gl_handler s) = Some ((g, h), dr)"
    "draw_overlay (ops e) pressed conn (gl_log s) = Some (log, ov)" by (metis option.exhaust surj_pair)
  show "\<exists>s'. render_step num ops s s'"
  proof (cases ov)
    case (Inl ex)
    with d a show ?thesis using render_step.throws by metis
  next
    case (Inr r)
    with d a show ?thesis using render_step.frame by metis
  qed
qed

definition ex_loop :: "(ex_writer log_handle, unit) gui_loop" where
  "ex_loop = \<lparr>gl_gui = ex_gui, gl_handler = ex_handler, gl_log = Some (Local_log mk_log_controller), gl_phase = At_test,
     gl_close = False, gl_scale = load_scale [], gl_frames = 0, gl_saved = None\<rparr>"

lemma ex_loop_start: "loop_start ex_loop"
proof -
  have "open_loop True None (\<lambda>_. True) [] (ex_gui, ex_handler) (Some (Local_log mk_log_controller)) = Some ex_loop"
    by (simp add: open_loop_def ex_loop_def)
  with ex_gui_start show ?thesis unfolding loop_start_def by blast
qed

theorem gui_run_ends_witness:
  "\<exists>s'. render_step (\<lambda>_. []) (\<lambda>_::unit. handle_ops ex_mcap (Inr ''a.mcap'') 0 None) (ex_loop\<lparr>gl_gui := gui_stop ex_gui\<rparr>) s' \<and> gl_phase s' = Returned"
proof -
  let ?ops = "\<lambda>_::unit. handle_ops ex_mcap (Inr ''a.mcap'') 0 None"
  have "loop_step (\<lambda>_. []) (\<lambda>x. x) ?ops (=) ex_loop (ex_loop\<lparr>gl_gui := gui_stop ex_gui\<rparr>)"
    using loop_step.signalled [of _ _ _ _ ex_loop] by (simp add: ex_loop_def)
  then have "(loop_step (\<lambda>_. []) (\<lambda>x. x) ?ops (=))\<^sup>*\<^sup>* ex_loop (ex_loop\<lparr>gl_gui := gui_stop ex_gui\<rparr>)" by blast
  from gui_run_ends [OF ex_loop_start this] show ?thesis
    by (simp add: stop_asked_def gui_stop_def) (simp add: ex_loop_def)
qed

text \<open>A log that cannot be opened ends the graphical program: the exception of Start Log leaves the
  loop and \<open>run_gui\<close> before it stops and joins the asio thread, whose destructor then terminates it.\<close>

definition after_run :: "log_status option \<Rightarrow> exn option \<Rightarrow> ('d, 'w, 'l, 'm) gui_app \<Rightarrow> ('d, 'w, 'l, 'm) gui_app option" where
  "after_run reply thrown app = (case thrown of None \<Rightarrow> Some (gui_exit reply app) | Some e \<Rightarrow> None)"

theorem failed_start_ends_program:
  assumes "gl_phase s = In_frame" "gl_log s = Some (Local_log c)" "\<not> lc_is_logging c"
    and "make_path = Inl e \<or> make_path = Inr path \<and> w_open M path = Inl e"
    and "draw_windows num ui (gl_gui s, gl_handler s) = Some gh"
  shows "\<exists>ex s'. render_step num (\<lambda>_::unit. handle_ops M make_path now reply) s s' \<and> gl_phase s' = Thrown ex
    \<and> after_run reply (Some ex) app = None"
proof -
  obtain g h dr where gh: "gh = ((g, h), dr)" by (metis surj_pair)
  have "\<exists>log ex. draw_overlay (handle_ops M make_path now reply) True None (gl_log s) = Some (log, Inl ex)"
    using assms(2-4)
    by (auto simp: draw_overlay_def press_log_def handle_ops_def lc_is_logging_def lc_start_def mk_mcap_logger_def split: option.splits)
  then obtain log ex where "draw_overlay (handle_ops M make_path now reply) True None (gl_log s) = Some (log, Inl ex)" by blast
  from render_step.throws [where ops = "\<lambda>_::unit. handle_ops M make_path now reply", OF assms(1) assms(5) [unfolded gh] this]
  show ?thesis by (intro exI conjI) (auto simp: after_run_def)
qed

end
