(* ===== verification/Spec2Isabelle.thy ===== *)
theory Spec2Isabelle
  imports Frame Decoder Send Action Config Playback Preset Proto Model Logging Reader Sockets CanStream CanServer
    PlayWait Setup TuiDraw EndToEnd GuiLoop
begin

text \<open>
  A verification development for caneo, a C++ tool that receives, decodes, shows, logs, replays and
  sends CAN frames.

  \<^bold>\<open>The program and its theories.\<close> A frame comes from a socket (\<open>src/socket\<close>: the kernel or a
  remote caneo over gRPC; theory \<open>Sockets\<close>), is decoded with the DBC of its interface
  (\<open>src/decoder\<close>: \<open>Decoder\<close>) into a frame with signals (\<open>src/frame\<close>: \<open>Frame\<close>), and is handed to
  what the mode has connected: the set of latest frames, the user interface, the Lua model
  (\<open>src/model\<close>: \<open>Model\<close>), the MCAP log (\<open>src/logger\<close>: \<open>Logging\<close>, with the protobuf types of
  \<open>src/proto\<close>: \<open>Proto\<close>) and the gRPC subscribers (\<open>src/grpc\<close>: \<open>CanStream\<close>; the server
  around them: \<open>CanServer\<close>). A log is scanned and
  replayed by \<open>McapReader\<close> (\<open>Reader\<close>) under the switches of \<open>src/playback\<close> (\<open>Playback\<close>, and the
  threads that wait on them: \<open>PlayWait\<close>). In the
  other direction, values entered in a user interface are encoded by \<open>src/send\<close> (\<open>Send\<close>) and sent
  by the actions of \<open>src/action\<close>, single, periodic or sine, on the asio thread (\<open>Action\<close>; preset
  files: \<open>Preset\<close>). The user interfaces are the terminal one (\<open>src/gui/TuiDataFrameSet\<close>: \<open>Tui\<close> for
  its keys, \<open>TuiSafe\<close> for its invariant, \<open>TuiDraw\<close> for its screens) and the graphical one
  (\<open>src/gui/Gui\<close> and its windows: \<open>Graph\<close>, \<open>Windows\<close>, \<open>SendEdit\<close>, \<open>ActionsEdit\<close>, \<open>Gui\<close>; its
  invariant: \<open>GuiSafe\<close>; the loop of \<open>Gui::run\<close>, its overlay and its settings: \<open>GuiLoop\<close>). \<open>src/config\<close>, \<open>src/setup\<close> and \<open>main.cpp\<close> (\<open>Config\<close>, \<open>Setup\<close>) read the
  configuration, bring the interfaces up and choose a mode; the modes wire the rest together
  (\<open>src/modes\<close>: \<open>Modes\<close> for live and terminal, \<open>GuiMode\<close> for graphical and playback). \<open>EndToEnd\<close>
  has the properties that run from one end to the other. \<open>Prelude\<close>, \<open>Floats\<close>, \<open>TextFmt\<close> and
  \<open>Console\<close> hold what all share: checked indexing, ordered maps, IEEE-754 arithmetic on bit patterns,
  the conversions between text and numbers, and \<open>println\<close>.

  \<^bold>\<open>How the code is represented.\<close> A class or struct is a record whose fields are its members
  under a short prefix (\<open>tui\<close> is \<open>TuiDataFrameSet\<close>, \<open>ah_actions\<close> is
  \<open>ActionHandler::actions_\<close>); an enumeration, a class hierarchy or a variant is a datatype. A method
  is a function from the state to the new state and the result, under the method's name where HOL
  allows it. An exception is the left side of a sum. Undefined behaviour (a read outside a vector, a
  conversion of a double that does not fit) is None, so that a theorem that a result is Some is a
  theorem that the behaviour is defined. Integers that are masked or may wrap are words of their
  width; times are nanoseconds and list positions are integers, so a negative index is one.
  \<open>double\<close> is the 64-bit pattern with the arithmetic of \<open>Floats\<close>, which rounds as the hardware
  does. \<open>std::map\<close> is a list sorted by its keys.

  \<^bold>\<open>Threads.\<close> Where threads meet, the component is a step relation and its theorems quantify over
  all interleavings: the asio thread with its queued handlers and pending waits (\<open>aio_step\<close>), a
  subscriber's thread with its mutex and condition variable (\<open>sub_step\<close>), the server with all of them
  and its destructor (\<open>server_step\<close>), the replay thread that waits on the playback's condition
  variable (\<open>play_step\<close>), the reader thread of \<open>SocketGrpc\<close> (\<open>grpc_step\<close>), the terminal interface whose keys, frames, model values and handlers come
  in any order (\<open>tui_step\<close>), the graphs (\<open>graph_step\<close>), the graphical interface
  (\<open>gui_step\<close>) and its render loop beside the asio thread (\<open>loop_step\<close>).
  The locale \<open>safe_system\<close> turns an invariant that every step keeps into one of every reachable
  state, and is interpreted on those whose invariants are proved.

  \<^bold>\<open>Interfaces.\<close> \<open>ordered_map\<close> states what clients expect of a map and is interpreted on
  \<open>omap_insert\<close>; \<open>frame_decoder\<close> is the contract of \<open>Decoder\<close>, interpreted on \<open>dbc_decode\<close>;
  \<open>log_control\<close> is the contract of \<open>ILogControl\<close>, interpreted on the local controller and, over a
  connection whose calls get through, on the remote one; \<open>setup_step\<close> is what a step of the
  interface setup promises, interpreted on virtual and real interfaces.

  \<^bold>\<open>Parameters.\<close> Code that is not in the repository is an argument of the definitions that use it:
  dbcppp's parsed messages and its functions between raw and physical values, yaml-cpp's tree,
  libprotobuf's descriptor pool, the MCAP reader and writer, the Lua interpreter, the shell and the
  network interfaces, the system calls of SocketCAN, the gRPC connection, \<open>std::sin\<close>,
  \<open>std::format\<close> of a double, and what the ImGui widgets report in a frame. Where a property needs
  more of them than their type, it says so in a hypothesis, and its witness instantiates them.

  \<^bold>\<open>What is proved.\<close>
  \<^item> \<open>Frame\<close>, \<open>Decoder\<close>, \<open>Send\<close>, \<open>Sockets\<close>: the set of latest frames refines a map from ids
    to frames; decoding and its errors are characterised; encoding and decoding, and sending and
    reading, are inverse; draining a socket delivers everything queued; stopping a stream ends.
  \<^item> \<open>Action\<close>: under every interleaving the snapshot is current. In orderly schedules (no removal or
    pause runs while an expired wait of its action is queued behind it) every running action has one
    wait, rates are kept and no destroyed action is touched; what the other schedules do is
    proved too.
  \<^item> \<open>Logging\<close>, \<open>Proto\<close>, \<open>Reader\<close>, \<open>Playback\<close>: what a call of the logger appends, the fields of
    a message, which messages a replay delivers and when.
  \<^item> \<open>Config\<close>, \<open>Preset\<close>, \<open>Setup\<close>, \<open>Model\<close>: what a configuration that loads holds, what presets may add,
    the effect of the setup commands, and the values the script sees.
  \<^item> \<open>PlayWait\<close>: no wake-up of the replay thread is lost.
  \<^item> \<open>CanStream\<close>, \<open>CanServer\<close>: ordered delivery without loss, the remote log control mirrors the server,
    exactly when a subscriber told to leave ends, and when the server's destructor does.
  \<^item> \<open>TuiSafe\<close>, \<open>TuiDraw\<close>, \<open>GuiSafe\<close>, \<open>Graph\<close>, \<open>SendEdit\<close>, \<open>ActionsEdit\<close>: invariants of the
    interfaces' states; no key reads outside a vector, every screen can be drawn, the graphs hold the
    latest readings, and exactly when the send window is undefined.
  \<^item> \<open>GuiLoop\<close>: after a stop at most the frame under way is drawn and the loop ends with its settings
    saved; the saved scale is the one loaded.
  \<^item> \<open>Modes\<close>, \<open>GuiMode\<close>, \<open>EndToEnd\<close>: the state each mode starts in, what its callbacks do to all
    components together, and the two round trips through log and wire.

  Some theorems show behaviour the code does not intend, each by a concrete run or a precise
  condition: a removal or a pause that races with an expired timer, a lost shutdown of a
  subscriber, signed signals without a declared range, edits that reset other signals, indices kept
  across a removal, a playback whose actions never run, a subscriber that arrives while the server
  ends, a log that fails to open and takes the graphical program with it.

  \<^bold>\<open>Bounds and termination.\<close> No definition takes fuel. Loops over data are total recursive
  functions.
  The loops that wait for the outside, draining a socket and the threads above, read from a given
  list of kernel results or are step relations; that draining
  a socket, stopping a stream, a wait of the replay thread and the render loop end is proved.

  \<^bold>\<open>Not modelled.\<close> The GLFW, OpenGL and ImGui calls of \<open>Gui::run\<close> that set the contexts up, put a
  finished frame on the screen and tear the contexts down, and the sections of the settings file that
  are ImGui's own, have no logic of the program; layout and scrolling of what is drawn belong to
  FTXUI, ImGui and ImPlot. Of the gRPC library, the server that calls the service and the channel
  below the stubs are steps and replies. \<open>Floats\<close> and \<open>TextFmt\<close> model the language, so no
  source lines are named for them.
\<close>

end
